(* ===== verification/Prelude.thy ===== *)
theory Prelude
  imports Complex_Main "HOL-Library.AList" "HOL-Library.Word" "HOL-Library.Multiset"
begin

text \<open>
  What every component of the development shares: the collections of facts that the
  automation uses, identifiers and time, Python dictionaries as insertion-ordered association
  lists, and Python's stable \<open>sorted\<close>.

  \<^item> A \<open>UUID\<close> is its 128-bit integer.
  \<^item> A \<open>datetime\<close> in UTC is the number of microseconds since the epoch (the resolution of
    Python's \<open>datetime\<close>), so \<open><\<close>, \<open>\<ge>\<close> and subtraction are those of the integers.
  \<^item> The wall clock is an input of the program: a \<open>clock\<close> is the sequence of values that
    the calls of \<open>datetime.now(UTC)\<close> will return, in the order in which they are made, and
    \<open>now\<close> takes the next one off it. Nothing says that the readings increase; a lemma that
    needs it says so.
  \<^item> Monotonic seconds (\<open>time.monotonic\<close>, \<open>time.perf_counter\<close>) and every other
    \<open>float\<close> of the source are rationals.
  \<^item> A Python \<open>dict\<close> is an association list with distinct keys: \<open>d[k] = v\<close> is
    \<open>AList.update\<close>, which keeps the position of a key that is present and appends a new one,
    \<open>d.get(k)\<close> is \<open>map_of\<close>, and \<open>d.values()\<close> is \<open>map snd\<close>.
  \<^item> \<open>sorted(xs, key = f)\<close> is \<open>sort_key\<close>, which is stable as Python's is.
\<close>

named_theorems op_defs \<open>definitions of the operations, unfolded when a branch is computed\<close>
named_theorems view_simps \<open>what a state looks like from outside after an operation\<close>

type_synonym uuid = "128 word"
type_synonym datetime = int
type_synonym timedelta = int
type_synonym clock = "nat \<Rightarrow> datetime"
type_synonym seconds = rat

definition now :: "clock \<Rightarrow> datetime \<times> clock" where
  "now c = (c 0, \<lambda>n. c (Suc n))"

definition shift :: "nat \<Rightarrow> clock \<Rightarrow> clock" where
  "shift k c = (\<lambda>n. c (n + k))"

definition monotone :: "clock \<Rightarrow> bool" where
  "monotone c \<longleftrightarrow> (\<forall>i j. i \<le> j \<longrightarrow> c i \<le> c j)"

text \<open>\<open>round\<close> to an integer as Python does it, a half going to the even neighbour: this is how
  \<open>timedelta(seconds = x)\<close> turns a \<open>float\<close> into microseconds.\<close>

definition round_half_even :: "rat \<Rightarrow> int" where
  "round_half_even x =
     (let f = \<lfloor>x\<rfloor>; d = x - of_int f in
      if d < 1/2 then f else if 1/2 < d then f + 1 else if even f then f else f + 1)"

definition timedelta_seconds :: "seconds \<Rightarrow> timedelta" where
  "timedelta_seconds x = round_half_even (x * 1000000)"

text \<open>Association lists as dictionaries: every stored value carries its own key.\<close>

definition keyed :: "('v \<Rightarrow> 'k) \<Rightarrow> ('k \<times> 'v) list \<Rightarrow> bool" where
  "keyed key d \<longleftrightarrow> distinct (map fst d) \<and> (\<forall>(k, v) \<in> set d. key v = k)"

text \<open>Python's slice \<open>xs[:n]\<close>: a negative bound counts from the end.\<close>

definition slice_to :: "int \<Rightarrow> 'a list \<Rightarrow> 'a list" where
  "slice_to n xs = (if 0 \<le> n then take (nat n) xs else take (length xs - nat (- n)) xs)"

subsection \<open>The clock\<close>

lemma now_conv [simp]: "fst (now c) = c 0" "snd (now c) = shift 1 c"
  by (simp_all add: now_def shift_def)

lemma now_eq: "now c = (c 0, shift 1 c)"
  by (simp add: now_def shift_def)

lemma shift_apply: "shift k c n = c (n + k)"
  by (simp add: shift_def)

lemma shift_first [simp]: "shift k c 0 = c k"
  by (simp add: shift_def)

lemma shift_shift [simp]: "shift i (shift j c) = shift (i + j) c"
  by (simp add: shift_def add.assoc)

lemma shift_0 [simp]: "shift 0 c = c"
  by (simp add: shift_def)

lemma monotone_shift: "monotone c \<Longrightarrow> monotone (shift k c)"
  by (simp add: monotone_def shift_apply)

lemma monotone_leD: "monotone c \<Longrightarrow> i \<le> j \<Longrightarrow> c i \<le> c j"
  by (simp add: monotone_def)

lemma timedelta_seconds_of_int [simp]: "timedelta_seconds (of_int n) = n * 1000000"
proof -
  have eq: "(of_int n :: rat) * 1000000 = of_int (n * 1000000)"
    by simp
  show ?thesis
    unfolding timedelta_seconds_def round_half_even_def Let_def eq floor_of_int by simp
qed

lemma slice_to_set: "set (slice_to n xs) \<subseteq> set xs"
  by (auto simp: slice_to_def dest: in_set_takeD)

subsection \<open>Dictionaries\<close>

lemma keyed_distinct [simp]: "keyed key d \<Longrightarrow> distinct (map fst d)"
  by (simp add: keyed_def)

lemma keyed_Nil [simp]: "keyed key []"
  by (simp add: keyed_def)

lemma keyed_key: "keyed key d \<Longrightarrow> (k, v) \<in> set d \<Longrightarrow> key v = k"
  by (auto simp: keyed_def)

lemma keyed_map_of_key: "keyed key d \<Longrightarrow> map_of d k = Some v \<Longrightarrow> key v = k"
  by (auto dest: map_of_SomeD keyed_key)

lemma keyed_update:
  assumes "keyed key d" and "key v = k"
  shows "keyed key (AList.update k v d)"
proof -
  have "set (AList.update k v d) \<subseteq> insert (k, v) (set d)"
    by (induction d) auto
  with assms show ?thesis
    by (fastforce simp: keyed_def distinct_update)
qed

lemma keyed_values: "keyed key d \<Longrightarrow> v \<in> set (map snd d) \<longleftrightarrow> map_of d (key v) = Some v"
  by (auto simp: keyed_def dest: map_of_SomeD intro!: image_eqI [where x = "(key v, v)"])

lemma keyed_distinct_values: "keyed key d \<Longrightarrow> distinct (map snd d)"
  by (induction d) (fastforce simp: keyed_def image_iff)+

lemma map_fst_update_present [simp]:
  "k \<in> set (map fst d) \<Longrightarrow> map fst (AList.update k v d) = map fst d"
  by (induction d) auto

subsection \<open>Stable sorting\<close>

lemma hd_sort_key_in: "xs \<noteq> [] \<Longrightarrow> hd (sort_key f xs) \<in> set xs"
  by (metis hd_in_set set_sort set_empty)

lemma hd_sort_key_least:
  assumes "y \<in> set xs"
  shows "f (hd (sort_key f xs)) \<le> f y"
proof -
  have s: "sorted (map f (sort_key f xs))" and "y \<in> set (sort_key f xs)"
    using assms by simp_all
  then show ?thesis
    by (cases "sort_key f xs") auto
qed

lemma filter_hd: "filter P xs \<noteq> [] \<Longrightarrow> P (hd (filter P xs)) \<and> hd (filter P xs) \<in> set xs"
  using hd_in_set [of "filter P xs"] by auto

text \<open>The first element of a stable sort is the first of the least ones in the input.\<close>

lemma hd_sort_key_stable:
  assumes "xs \<noteq> []"
  shows "hd (sort_key f xs) = hd (filter (\<lambda>x. f x = f (hd (sort_key f xs))) xs)"
proof -
  let ?m = "hd (sort_key f xs)"
  have "filter (\<lambda>x. f x = f ?m) (sort_key f xs) = filter (\<lambda>x. f x = f ?m) xs"
    by (simp add: sort_key_stable)
  moreover have "sort_key f xs \<noteq> []"
    using assms by (metis set_empty set_sort)
  then have "hd (filter (\<lambda>x. f x = f ?m) (sort_key f xs)) = ?m"
    by (cases "sort_key f xs") auto
  ultimately show ?thesis by simp
qed

end
