(* ===== verification/PyString.thy ===== *)
theory PyString
  imports Prelude "HOL-Library.Char_ord" "HOL-Library.List_Lexorder"
begin

text \<open>
  The methods of Python's \<open>str\<close> that the service calls. A \<open>char\<close> is a code point below
  256, so a \<open>string\<close> is a Python string over Latin-1 and \<open>length\<close> counts code points as
  \<open>len\<close> does. On these strings the definitions below agree with Python's Unicode methods:
  the white space of \<open>strip()\<close> and \<open>split()\<close> is U+0009 to U+000D, U+001C to U+0020, U+0085
  and U+00A0, and \<open>lower()\<close> maps A to Z and the capital letters of U+00C0 to U+00DE. Code
  points from 256 on are outside the model.
\<close>

definition is_space :: "char \<Rightarrow> bool" where
  "is_space c \<longleftrightarrow>
     (let n = (of_char c :: nat)
      in (9 \<le> n \<and> n \<le> 13) \<or> (28 \<le> n \<and> n \<le> 32) \<or> n = 133 \<or> n = 160)"

definition strip_by :: "(char \<Rightarrow> bool) \<Rightarrow> string \<Rightarrow> string" where
  "strip_by P s = rev (dropWhile P (rev (dropWhile P s)))"

definition strip :: "string \<Rightarrow> string" where
  "strip s = strip_by is_space s"

definition strip_chars :: "string \<Rightarrow> string \<Rightarrow> string" where
  "strip_chars chars s = strip_by (\<lambda>c. c \<in> set chars) s"

function split_ws :: "string \<Rightarrow> string list" where
  "split_ws s =
     (case dropWhile is_space s of
        [] \<Rightarrow> []
      | c # cs \<Rightarrow>
          takeWhile (\<lambda>x. \<not> is_space x) (c # cs) #
          split_ws (dropWhile (\<lambda>x. \<not> is_space x) cs))"
  by pat_completeness auto
termination
proof (relation "measure length")
  fix s c cs
  assume "dropWhile is_space s = c # cs"
  then have "length (c # cs) \<le> length s"
    by (metis length_dropWhile_le)
  then show "(dropWhile (\<lambda>x. \<not> is_space x) cs, s) \<in> measure length"
    by (simp add: le_less_trans [OF length_dropWhile_le])
qed simp

declare split_ws.simps [simp del]

lemma split_ws_Nil: "dropWhile is_space s = [] \<Longrightarrow> split_ws s = []"
  by (subst split_ws.simps) (simp del: dropWhile_eq_Nil_conv)

lemma split_ws_Cons:
  "dropWhile is_space s = c # cs \<Longrightarrow>
     split_ws s = takeWhile (\<lambda>x. \<not> is_space x) (c # cs) # split_ws (dropWhile (\<lambda>x. \<not> is_space x) cs)"
  by (subst split_ws.simps) simp

lemma dropWhile_Cons_head: "dropWhile P s = c # cs \<Longrightarrow> \<not> P c"
  by (metis hd_dropWhile list.distinct(1) list.sel(1))

definition lower_char :: "char \<Rightarrow> char" where
  "lower_char c =
     (let n = (of_char c :: nat) in
      if (65 \<le> n \<and> n \<le> 90) \<or> (192 \<le> n \<and> n \<le> 222 \<and> n \<noteq> 215)
      then char_of (n + 32) else c)"

definition lower :: "string \<Rightarrow> string" where
  "lower s = map lower_char s"

text \<open>\<open>upper()\<close>, for comparing with upper-case ASCII words: the letters a to z and the small letters of
  U+00E0 to U+00FE are mapped. The three characters whose upper case leaves Latin-1 or is longer
  stay as they are, which no such comparison can tell.\<close>

definition upper_char :: "char \<Rightarrow> char" where
  "upper_char c =
     (let n = (of_char c :: nat) in
      if (97 \<le> n \<and> n \<le> 122) \<or> (224 \<le> n \<and> n \<le> 254 \<and> n \<noteq> 247)
      then char_of (n - 32) else c)"

definition upper :: "string \<Rightarrow> string" where
  "upper s = map upper_char s"

definition starts_with :: "string \<Rightarrow> string \<Rightarrow> bool" where
  "starts_with p s \<longleftrightarrow> take (length p) s = p"

text \<open>\<open>s.removesuffix(c)\<close> and \<open>s.endswith(c)\<close> for one character.\<close>

definition ends_with_char :: "char \<Rightarrow> string \<Rightarrow> bool" where
  "ends_with_char c s \<longleftrightarrow> s \<noteq> [] \<and> last s = c"

definition removesuffix_char :: "char \<Rightarrow> string \<Rightarrow> string" where
  "removesuffix_char c s = (if ends_with_char c s then butlast s else s)"

text \<open>\<open>s.splitlines()\<close>: the boundaries are U+000A to U+000D, U+001C to U+001E and U+0085, and a
  carriage return takes a line feed after it along.\<close>

definition is_linebreak :: "char \<Rightarrow> bool" where
  "is_linebreak c \<longleftrightarrow>
     (let n = (of_char c :: nat) in (10 \<le> n \<and> n \<le> 13) \<or> (28 \<le> n \<and> n \<le> 30) \<or> n = 133)"

definition drop_lf :: "string \<Rightarrow> string" where
  "drop_lf s = (case s of [] \<Rightarrow> [] | c # cs \<Rightarrow> if c = CHR 0x0A then cs else s)"

lemma length_drop_lf: "length (drop_lf s) \<le> length s"
  by (simp add: drop_lf_def split: list.split)

function splitlines :: "string \<Rightarrow> string list" where
  "splitlines [] = []"
| "splitlines (c # cs) =
     (if is_linebreak c then [] # splitlines (if c = CHR 0x0D then drop_lf cs else cs)
      else (case splitlines cs of [] \<Rightarrow> [[c]] | l # ls \<Rightarrow> (c # l) # ls))"
  by pat_completeness auto
termination
  by (relation "measure length") (auto simp: le_imp_less_Suc length_drop_lf)

text \<open>The rest after the first occurrence of a text, and \<open>needle in s\<close>.\<close>

fun after_first :: "string \<Rightarrow> string \<Rightarrow> string option" where
  "after_first needle [] = (if needle = [] then Some [] else None)"
| "after_first needle (c # cs) =
     (if starts_with needle (c # cs) then Some (drop (length needle) (c # cs)) else after_first needle cs)"

definition contains :: "string \<Rightarrow> string \<Rightarrow> bool" where
  "contains needle s \<longleftrightarrow> after_first needle s \<noteq> None"

text \<open>\<open>s.split(sep)\<close> for a one-character separator: never the empty list.\<close>

fun split_on :: "char \<Rightarrow> string \<Rightarrow> string list" where
  "split_on sep [] = [[]]"
| "split_on sep (c # cs) =
     (if c = sep then [] # split_on sep cs
      else (case split_on sep cs of [] \<Rightarrow> [[c]] | w # ws \<Rightarrow> (c # w) # ws))"

text \<open>\<open>sep.join(xs)\<close>.\<close>

fun join :: "string \<Rightarrow> string list \<Rightarrow> string" where
  "join sep [] = []"
| "join sep [x] = x"
| "join sep (x # y # xs) = x @ sep @ join sep (y # xs)"

text \<open>\<open>s.partition(sep)\<close> for a one-character separator.\<close>

definition partition_on :: "char \<Rightarrow> string \<Rightarrow> string \<times> string \<times> string" where
  "partition_on sep s =
     (let before = takeWhile (\<lambda>c. c \<noteq> sep) s in
      case drop (length before) s of
        [] \<Rightarrow> (s, [], [])
      | c # after \<Rightarrow> (before, [sep], after))"

text \<open>\<open>s.replace(old, new)\<close> for a one-character \<open>old\<close>.\<close>

definition replace_char :: "char \<Rightarrow> string \<Rightarrow> string \<Rightarrow> string" where
  "replace_char old new s = concat (map (\<lambda>c. if c = old then new else [c]) s)"

text \<open>\<open>str(uuid)\<close>: 32 lower-case hexadecimal digits, grouped 8-4-4-4-12.\<close>

definition hex_digit :: "nat \<Rightarrow> char" where
  "hex_digit d = (if d < 10 then char_of (48 + d) else char_of (87 + d))"

fun hex_digits :: "nat \<Rightarrow> nat \<Rightarrow> string" where
  "hex_digits 0 n = []"
| "hex_digits (Suc k) n = hex_digits k (n div 16) @ [hex_digit (n mod 16)]"

definition uuid_str :: "uuid \<Rightarrow> string" where
  "uuid_str u =
     (let h = hex_digits 32 (unat u) in
      take 8 h @ ''-'' @ take 4 (drop 8 h) @ ''-'' @ take 4 (drop 12 h) @ ''-'' @
      take 4 (drop 16 h) @ ''-'' @ drop 20 h)"

subsection \<open>White space\<close>

lemma dropWhile_idem [simp]: "dropWhile P (dropWhile P s) = dropWhile P s"
  by (induction s) auto

lemma strip_by_idem [simp]: "strip_by P (strip_by P s) = strip_by P s"
proof -
  define t where "t = dropWhile P s"
  have t: "t = [] \<or> \<not> P (hd t)"
    unfolding t_def using hd_dropWhile [of P s] by blast
  define u where "u = rev (dropWhile P (rev t))"
  have u_prefix: "\<exists>v. t = u @ v"
    unfolding u_def by (metis rev_append rev_rev_ident takeWhile_dropWhile_id)
  have "u = [] \<or> \<not> P (hd u)"
    using t u_prefix by (cases u) auto
  then have "dropWhile P u = u"
    by (cases u) auto
  then have "strip_by P u = u"
    by (simp add: strip_by_def u_def)
  then show ?thesis
    by (simp add: u_def t_def strip_by_def)
qed

lemma strip_by_set: "set (strip_by P s) \<subseteq> set s"
  unfolding strip_by_def by (auto dest!: set_dropWhileD)

lemma length_strip_by: "length (strip_by P s) \<le> length s"
  unfolding strip_by_def by (metis length_dropWhile_le length_rev order_trans)

text \<open>The tokens of \<open>split()\<close> are non-empty and hold no white space, and they hold, in order,
  every character of the text that is not white space.\<close>

lemma split_ws_tokens:
  "w \<in> set (split_ws s) \<Longrightarrow> w \<noteq> [] \<and> (\<forall>c \<in> set w. \<not> is_space c)"
proof (induction s rule: split_ws.induct)
  case (1 s)
  show ?case
  proof (cases "dropWhile is_space s")
    case Nil
    with "1.prems" show ?thesis by (simp add: split_ws_Nil)
  next
    case (Cons c cs)
    with "1.prems" consider "w = takeWhile (\<lambda>x. \<not> is_space x) (c # cs)"
      | "w \<in> set (split_ws (dropWhile (\<lambda>x. \<not> is_space x) cs))"
      by (auto simp: split_ws_Cons)
    then show ?thesis
    proof cases
      case 1
      with dropWhile_Cons_head [OF Cons] show ?thesis
        by (auto dest: set_takeWhileD)
    next
      case 2
      with "1.IH" [OF Cons] show ?thesis by blast
    qed
  qed
qed

lemma filter_dropWhile_not: "filter (\<lambda>x. \<not> P x) (dropWhile P s) = filter (\<lambda>x. \<not> P x) s"
  by (induction s) auto

lemma filter_takeWhile_dropWhile:
  "takeWhile (\<lambda>x. \<not> P x) s @ filter (\<lambda>x. \<not> P x) (dropWhile (\<lambda>x. \<not> P x) s) = filter (\<lambda>x. \<not> P x) s"
  by (induction s) auto

lemma concat_split_ws: "concat (split_ws s) = filter (\<lambda>c. \<not> is_space c) s"
proof (induction s rule: split_ws.induct)
  case (1 s)
  show ?case
  proof (cases "dropWhile is_space s")
    case Nil
    then have "\<forall>c \<in> set s. is_space c"
      by (metis dropWhile_eq_Nil_conv)
    with Nil show ?thesis by (simp add: split_ws_Nil)
  next
    case (Cons c cs)
    then have c: "\<not> is_space c"
      by (rule dropWhile_Cons_head)
    have "filter (\<lambda>x. \<not> is_space x) s = filter (\<lambda>x. \<not> is_space x) (c # cs)"
      using filter_dropWhile_not [of is_space s] Cons by simp
    with c "1.IH" [OF Cons] filter_takeWhile_dropWhile [of is_space cs] Cons show ?thesis
      by (simp add: split_ws_Cons)
  qed
qed

subsection \<open>Splitting and joining\<close>

lemma split_on_not_Nil [simp]: "split_on sep s \<noteq> []"
  by (induction s) (auto split: list.splits)

lemma split_on_single: "sep \<notin> set s \<Longrightarrow> split_on sep s = [s]"
  by (induction s) auto

lemma split_on_append: "sep \<notin> set s \<Longrightarrow> split_on sep (s @ sep # t) = s # split_on sep t"
  by (induction s) auto

lemma split_on_join:
  "xs \<noteq> [] \<Longrightarrow> \<forall>x \<in> set xs. sep \<notin> set x \<Longrightarrow> split_on sep (join [sep] xs) = xs"
  by (induction "[sep]" xs rule: join.induct) (simp_all add: split_on_single split_on_append)

lemma join_split_on: "join [sep] (split_on sep s) = s"
proof (induction s)
  case (Cons c cs)
  obtain w ws where "split_on sep cs = w # ws"
    by (cases "split_on sep cs") auto
  with Cons show ?case
    by (cases ws) auto
qed simp

lemma split_on_no_sep: "w \<in> set (split_on sep s) \<Longrightarrow> sep \<notin> set w"
  by (induction s arbitrary: w) (auto split: list.splits if_splits)

lemma partition_on_sep: "sep \<notin> set s \<Longrightarrow> partition_on sep (s @ sep # t) = (s, [sep], t)"
  by (simp add: partition_on_def takeWhile_append)

subsection \<open>Hexadecimal\<close>

lemma partition_on_found:
  assumes "partition_on sep s = (a, m, b)" and "b \<noteq> []"
  shows "s = a @ sep # b"
proof -
  let ?P = "\<lambda>c. c \<noteq> sep"
  have drop: "drop (length (takeWhile ?P s)) s = dropWhile ?P s"
    by (simp only: dropWhile_eq_drop)
  obtain c where c: "dropWhile ?P s = c # b" and a: "a = takeWhile ?P s"
    using assms by (auto simp: partition_on_def Let_def drop split: list.splits)
  from dropWhile_Cons_head [OF c] have "c = sep" by simp
  with takeWhile_dropWhile_id [of ?P s] show ?thesis by (simp only: a c)
qed

lemma length_hex_digits [simp]: "length (hex_digits k n) = k"
  by (induction k arbitrary: n) auto

lemma hex_digit_eq: "a < 16 \<Longrightarrow> b < 16 \<Longrightarrow> hex_digit a = hex_digit b \<longleftrightarrow> a = b"
  unfolding hex_digit_def
  by (auto simp: char_of_eq_iff take_bit_eq_mod split: if_splits)

lemma hex_digits_inj: "m < 16 ^ k \<Longrightarrow> n < 16 ^ k \<Longrightarrow> hex_digits k m = hex_digits k n \<Longrightarrow> m = n"
proof (induction k arbitrary: m n)
  case (Suc k)
  from Suc.prems have "m div 16 = n div 16"
    by (intro Suc.IH) (auto simp: less_mult_imp_div_less mult.commute)
  moreover from Suc.prems have "m mod 16 = n mod 16"
    by (simp add: hex_digit_eq)
  ultimately show ?case
    by (metis div_mult_mod_eq)
qed simp

lemma uuid_groups:
  "h = take 8 h @ take 4 (drop 8 h) @ take 4 (drop 12 h) @ take 4 (drop 16 h) @ drop 20 (h :: string)"
proof -
  have "drop 8 h = take 4 (drop 8 h) @ drop 12 h" "drop 12 h = take 4 (drop 12 h) @ drop 16 h"
    "drop 16 h = take 4 (drop 16 h) @ drop 20 h"
    using append_take_drop_id [of 4 "drop 8 h"] append_take_drop_id [of 4 "drop 12 h"]
      append_take_drop_id [of 4 "drop 16 h"] by simp_all
  then show ?thesis
    using append_take_drop_id [of 8 h] by metis
qed

lemma uuid_str_inject [simp]: "uuid_str u = uuid_str v \<longleftrightarrow> u = v"
proof
  assume eq: "uuid_str u = uuid_str v"
  let ?h = "hex_digits 32 (unat u)" and ?k = "hex_digits 32 (unat v)"
  have parts: "take 8 ?h = take 8 ?k" "take 4 (drop 8 ?h) = take 4 (drop 8 ?k)"
      "take 4 (drop 12 ?h) = take 4 (drop 12 ?k)" "take 4 (drop 16 ?h) = take 4 (drop 16 ?k)"
      "drop 20 ?h = drop 20 ?k"
    using eq by (simp_all add: uuid_str_def Let_def)
  have "?h = ?k"
    using uuid_groups [of ?h] uuid_groups [of ?k] parts by metis
  moreover have "unat u < 16 ^ 32" "unat v < 16 ^ 32"
    using unsigned_less [of u] unsigned_less [of v] by simp_all
  ultimately have "unat u = unat v"
    using hex_digits_inj by blast
  then show "u = v" by (rule unsigned_word_eqI)
qed simp

text \<open>Reading a UUID in its printed form.\<close>

lemma hex_digit_code: "d < 16 \<Longrightarrow> (of_char (hex_digit d) :: nat) = (if d < 10 then 48 + d else 87 + d)"
  by (simp add: hex_digit_def)

lemma hex_digit_plain: "d < 16 \<Longrightarrow> hex_digit d \<noteq> CHR ''/'' \<and> hex_digit d \<noteq> CHR ''-''"
  using hex_digit_code [of d] by (auto split: if_splits)

lemma hex_digits_plain: "CHR ''/'' \<notin> set (hex_digits k n)" "CHR ''-'' \<notin> set (hex_digits k n)"
proof (induction k arbitrary: n)
  case (Suc k)
  {
    case 1
    then show ?case using Suc.IH(1) [of "n div 16"] hex_digit_plain [of "n mod 16"] by auto
  next
    case 2
    then show ?case using Suc.IH(2) [of "n div 16"] hex_digit_plain [of "n mod 16"] by auto
  }
qed simp_all

lemma uuid_str_no_slash: "CHR ''/'' \<notin> set (uuid_str i)"
proof -
  have "set (take 8 h @ ''-'' @ take 4 (drop 8 h) @ ''-'' @ take 4 (drop 12 h) @ ''-'' @
      take 4 (drop 16 h) @ ''-'' @ drop 20 h) \<subseteq> insert CHR ''-'' (set h)" for h :: string
    by (auto dest: in_set_takeD in_set_dropD)
  from this [of "hex_digits 32 (unat i)"] hex_digits_plain [of 32 "unat i"] show ?thesis
    unfolding uuid_str_def Let_def by blast
qed

lemma uuid_str_not_Nil: "uuid_str i \<noteq> []"
  by (simp add: uuid_str_def Let_def)

definition hex_value :: "char \<Rightarrow> nat" where
  "hex_value c = (if of_char c < (58 :: nat) then of_char c - 48 else of_char c - 87)"

definition uuid_parse :: "string \<Rightarrow> uuid option" where
  "uuid_parse s =
     (let u = word_of_nat (foldl (\<lambda>n c. 16 * n + hex_value c) 0 (filter (\<lambda>c. c \<noteq> CHR ''-'') s))
      in if uuid_str u = s then Some u else None)"

lemma hex_value_digit: "d < 16 \<Longrightarrow> hex_value (hex_digit d) = d"
  by (simp add: hex_value_def hex_digit_code)

lemma foldl_hex_digits: "n < 16 ^ k \<Longrightarrow> foldl (\<lambda>n c. 16 * n + hex_value c) 0 (hex_digits k n) = n"
proof (induction k arbitrary: n)
  case (Suc k)
  then have "n div 16 < 16 ^ k" by (simp add: less_mult_imp_div_less mult.commute)
  from Suc.IH [OF this] show ?case by (simp add: hex_value_digit)
qed simp

lemma uuid_str_digits: "filter (\<lambda>c. c \<noteq> CHR ''-'') (uuid_str u) = hex_digits 32 (unat u)"
proof -
  have dashes: "filter P (take 8 h @ ''-'' @ take 4 (drop 8 h) @ ''-'' @ take 4 (drop 12 h) @ ''-'' @
      take 4 (drop 16 h) @ ''-'' @ drop 20 h) = filter P h" if "\<not> P CHR ''-''" for P and h :: string
  proof -
    have "filter P h = filter P (take 8 h @ take 4 (drop 8 h) @ take 4 (drop 12 h) @ take 4 (drop 16 h) @ drop 20 h)"
      using uuid_groups [of h] by (rule arg_cong)
    with that show ?thesis by (simp only: filter_append filter.simps if_False append_Nil)
  qed
  have "filter (\<lambda>c. c \<noteq> CHR ''-'') (hex_digits 32 (unat u)) = hex_digits 32 (unat u)"
    using hex_digits_plain(2) [of 32 "unat u"] by (intro filter_True) metis
  with dashes [of "\<lambda>c. c \<noteq> CHR ''-''" "hex_digits 32 (unat u)"] show ?thesis
    unfolding uuid_str_def Let_def by (simp only: simp_thms)
qed

lemma uuid_parse_str [simp]: "uuid_parse (uuid_str u) = Some u"
proof -
  have "unat u < 16 ^ 32" using unsigned_less [of u, where 'a = nat] by simp
  from foldl_hex_digits [OF this] have "word_of_nat (foldl (\<lambda>n c. 16 * n + hex_value c) 0
      (filter (\<lambda>c. c \<noteq> CHR ''-'') (uuid_str u))) = u"
    by (simp only: uuid_str_digits of_nat_unat ucast_id)
  then show ?thesis by (simp only: uuid_parse_def Let_def if_True refl)
qed

end
