(* ===== verification/Errors.thy ===== *)
theory Errors
  imports PyString
begin

text \<open>
  \<^verbatim>\<open>app/core/errors.py\<close>: the application's error classes, the JSON error body and the two
  exception handlers that \<^verbatim>\<open>create_app\<close> registers.

  A Python exception is a value of \<open>exn\<close>: an instance of a class of the \<open>AppError\<close>
  hierarchy with its optional message, or one of the other exceptions the modelled code can meet
  (\<open>pydantic.ValidationError\<close>, \<open>asyncio.TimeoutError\<close>, \<open>ValueError\<close>, \<open>AssertionError\<close>,
  the exceptions of SQLAlchemy, and any other one by its text). A fallible computation returns
  \<open>exn + 'a\<close>, with \<open>Inl\<close> for a raised exception.

  JSON documents (response bodies, JSONB columns, token claims) are values of \<open>json\<close>; an object
  keeps its keys in insertion order.
\<close>

datatype json =
    JNull
  | JBool bool
  | JInt int
  | JFloat rat
  | JStr string
  | JList "json list"
  | JObj "(string \<times> json) list"

datatype app_error_class =
    AppError
  | NotFoundError
  | BadRequestError
  | UnauthorizedError
  | InvalidStateTransitionError
  | RateLimitExceededError

datatype exn =
    App app_error_class "string option"
  | ValidationError
  | TimeoutError
  | ValueError string
  | AssertionError
  | IntegrityError
  | SQLAlchemyError
  | OtherError string

type_synonym 'a res = "exn + 'a"

abbreviation raise_NotFound :: exn where
  "raise_NotFound \<equiv> App NotFoundError None"

abbreviation raise_InvalidStateTransition :: exn where
  "raise_InvalidStateTransition \<equiv> App InvalidStateTransitionError None"

fun status_code :: "app_error_class \<Rightarrow> int" where
  "status_code AppError = 500"
| "status_code NotFoundError = 404"
| "status_code BadRequestError = 400"
| "status_code UnauthorizedError = 401"
| "status_code InvalidStateTransitionError = 409"
| "status_code RateLimitExceededError = 429"

fun error_code :: "app_error_class \<Rightarrow> string" where
  "error_code AppError = ''internal_error''"
| "error_code NotFoundError = ''not_found''"
| "error_code BadRequestError = ''bad_request''"
| "error_code UnauthorizedError = ''unauthorized''"
| "error_code InvalidStateTransitionError = ''invalid_state_transition''"
| "error_code RateLimitExceededError = ''rate_limit_exceeded''"

fun public_message :: "app_error_class \<Rightarrow> string" where
  "public_message AppError = ''An unexpected error occurred.''"
| "public_message NotFoundError = ''The requested resource was not found.''"
| "public_message BadRequestError = ''The request is invalid.''"
| "public_message UnauthorizedError = ''Authentication is required.''"
| "public_message InvalidStateTransitionError = ''The requested state transition is not allowed.''"
| "public_message RateLimitExceededError = ''Too many requests. Please try again later.''"

text \<open>\<open>self.message = message or self.public_message\<close>: an empty message counts as none.\<close>

definition error_message_of :: "app_error_class \<Rightarrow> string option \<Rightarrow> string" where
  "error_message_of k m =
     (case m of None \<Rightarrow> public_message k | Some s \<Rightarrow> if s = [] then public_message k else s)"

record JSONResponse =
  resp_status_code :: int
  resp_content :: json

definition error_response :: "string \<Rightarrow> int \<Rightarrow> string \<Rightarrow> string \<Rightarrow> JSONResponse" where
  "error_response request_id sc code msg =
     \<lparr>resp_status_code = sc,
      resp_content =
        JObj [(''error'', JObj [(''code'', JStr code), (''message'', JStr msg),
                                (''request_id'', JStr request_id)])]\<rparr>"

text \<open>\<open>getattr(request.state, "request_id", "unknown")\<close>: the state may not hold one.\<close>

definition request_id_or_unknown :: "string option \<Rightarrow> string" where
  "request_id_or_unknown r = (case r of None \<Rightarrow> ''unknown'' | Some s \<Rightarrow> s)"

definition app_error_handler :: "string option \<Rightarrow> app_error_class \<Rightarrow> string option \<Rightarrow> JSONResponse" where
  "app_error_handler state_request_id k msg =
     error_response (request_id_or_unknown state_request_id)
       (status_code k) (error_code k) (public_message k)"

definition unhandled_error_handler :: "string option \<Rightarrow> JSONResponse" where
  "unhandled_error_handler state_request_id =
     error_response (request_id_or_unknown state_request_id)
       500 ''internal_error'' ''An unexpected error occurred.''"

text \<open>The choice of handler: \<open>add_exception_handler(AppError, ...)\<close> takes every instance of the
  hierarchy, \<open>add_exception_handler(Exception, ...)\<close> the rest.\<close>

definition handle_exception :: "string option \<Rightarrow> exn \<Rightarrow> JSONResponse" where
  "handle_exception state_request_id e =
     (case e of App k m \<Rightarrow> app_error_handler state_request_id k m
      | _ \<Rightarrow> unhandled_error_handler state_request_id)"

subsection \<open>What a client can learn from an error\<close>

lemma handle_exception_App [simp]:
  "handle_exception r (App k m) =
     error_response (request_id_or_unknown r) (status_code k) (error_code k) (public_message k)"
  by (simp add: handle_exception_def app_error_handler_def)

lemma handle_exception_status: "resp_status_code (handle_exception r e) \<in> {400, 401, 404, 409, 429, 500}"
proof (cases e)
  case (App k m)
  then show ?thesis by (cases k) (simp_all add: error_response_def)
qed (simp_all add: handle_exception_def unhandled_error_handler_def error_response_def)

subsection \<open>Comprehensions\<close>

text \<open>A list comprehension whose element expression may raise: the first exception ends it.\<close>

fun collect :: "('e + 'a) list \<Rightarrow> 'e + 'a list" where
  "collect [] = Inr []"
| "collect (Inl e # xs) = Inl e"
| "collect (Inr x # xs) = map_sum id ((#) x) (collect xs)"

lemma collect_Inr: "collect xs = Inr ys \<Longrightarrow> xs = map Inr ys"
proof (induction xs arbitrary: ys rule: collect.induct)
  case (3 x xs)
  then show ?case by (cases "collect xs") auto
qed auto

lemma collect_all: "(\<And>x. x \<in> set xs \<Longrightarrow> \<exists>y. f x = Inr y) \<Longrightarrow> \<exists>ys. collect (map f xs) = Inr ys"
  by (induction xs) (auto, metis (no_types, lifting) collect.simps(3) map_sum.simps(2))

end
