(* ===== verification/Base64.thy ===== *)
theory Base64
  imports Prelude
begin

text \<open>
  The standard library's \<open>base64.urlsafe_b64encode\<close> and \<open>urlsafe_b64decode\<close>, as far as
  \<^verbatim>\<open>app/core/auth.py\<close> uses them. Bytes are natural numbers below 256 and text is the list
  of character codes of an ASCII string. The decoder follows \<open>binascii.a2b_base64\<close> in its
  non-strict mode: characters outside the alphabet are skipped, and the input must end on a
  boundary of four characters.
\<close>

type_synonym bytes = "nat list"

definition is_bytes :: "bytes \<Rightarrow> bool" where
  "is_bytes bs \<longleftrightarrow> (\<forall>b \<in> set bs. b < 256)"

text \<open>The URL-safe alphabet.\<close>

definition b64_char :: "nat \<Rightarrow> char" where
  "b64_char n =
     (if n < 26 then char_of (65 + n)
      else if n < 52 then char_of (71 + n)
      else if n < 62 then char_of (n - 4)
      else if n = 62 then CHR ''-'' else CHR ''_'')"

text \<open>\<open>urlsafe_b64decode\<close> translates \<open>-\<close> and \<open>_\<close> first, so \<open>+\<close> and \<open>/\<close> are accepted too.\<close>

definition b64_value :: "char \<Rightarrow> nat option" where
  "b64_value ch =
     (let c = of_char ch :: nat in
      if 65 \<le> c \<and> c \<le> 90 then Some (c - 65)
      else if 97 \<le> c \<and> c \<le> 122 then Some (c - 71)
      else if 48 \<le> c \<and> c \<le> 57 then Some (c + 4)
      else if ch = CHR ''-'' \<or> ch = CHR ''+'' then Some 62
      else if ch = CHR ''_'' \<or> ch = CHR ''/'' then Some 63
      else None)"

fun b64_encode :: "bytes \<Rightarrow> string" where
  "b64_encode [] = []"
| "b64_encode [a] = [b64_char (a div 4), b64_char (a mod 4 * 16), CHR ''='', CHR ''='']"
| "b64_encode [a, b] =
     [b64_char (a div 4), b64_char (a mod 4 * 16 + b div 16), b64_char (b mod 16 * 4), CHR ''='']"
| "b64_encode (a # b # c # rest) =
     b64_char (a div 4) # b64_char (a mod 4 * 16 + b div 16) # b64_char (b mod 16 * 4 + c div 64) #
     b64_char (c mod 64) # b64_encode rest"

text \<open>The loop of \<open>a2b_base64\<close>: position in the group of four, the bits carried over, and the pad
  characters seen since the last data character. \<open>None\<close> is \<open>binascii.Error\<close>.\<close>

fun b64_loop :: "nat \<Rightarrow> nat \<Rightarrow> nat \<Rightarrow> string \<Rightarrow> bytes option" where
  "b64_loop quad left pads [] = (if quad = 0 then Some [] else None)"
| "b64_loop quad left pads (ch # rest) =
     (if ch = CHR ''='' then
        (if 2 \<le> quad then
           (if 4 \<le> quad + (pads + 1) then Some [] else b64_loop quad left (pads + 1) rest)
         else b64_loop quad left pads rest)
      else
        case b64_value ch of
          None \<Rightarrow> b64_loop quad left pads rest
        | Some v \<Rightarrow>
            (if quad = 0 then b64_loop 1 v 0 rest
             else if quad = 1 then map_option ((#) (left * 4 + v div 16)) (b64_loop 2 (v mod 16) 0 rest)
             else if quad = 2 then map_option ((#) (left * 16 + v div 4)) (b64_loop 3 (v mod 4) 0 rest)
             else map_option ((#) (left * 64 + v)) (b64_loop 0 0 0 rest)))"

definition b64_decode :: "string \<Rightarrow> bytes option" where
  "b64_decode s = b64_loop 0 0 0 s"

subsection \<open>Decoding what was encoded\<close>

lemma b64_value_char [simp]: "n < 64 \<Longrightarrow> b64_value (b64_char n) = Some n"
  by (auto simp: b64_value_def b64_char_def Let_def)

lemma b64_char_not_pad [simp]: "b64_char n \<noteq> CHR ''=''"
proof (cases "n < 64")
  case True
  then show ?thesis using b64_value_char [of n] by (auto simp: b64_value_def)
qed (simp add: b64_char_def)

lemma b64_parts:
  assumes "a < (256 :: nat)" and "b < (256 :: nat)" and "c < (256 :: nat)"
  shows "a div 4 < 64" "a mod 4 * 16 + b div 16 < 64" "b mod 16 * 4 + c div 64 < 64" "c mod 64 < 64"
    "a mod 4 * 16 < 64" "b mod 16 * 4 < 64"
    "a div 4 * 4 + (a mod 4 * 16 + b div 16) div 16 = a"
    "(a mod 4 * 16 + b div 16) mod 16 * 16 + (b mod 16 * 4 + c div 64) div 4 = b"
    "(b mod 16 * 4 + c div 64) mod 4 * 64 + c mod 64 = c"
    "a div 4 * 4 + (a mod 4 * 16) div 16 = a"
    "(a mod 4 * 16 + b div 16) mod 16 * 16 + (b mod 16 * 4) div 4 = b"
proof -
  have b16: "b div 16 < 16" and c64: "c div 64 < 4" using assms by simp_all
  then have d: "(a mod 4 * 16 + b div 16) div 16 = a mod 4" "(a mod 4 * 16 + b div 16) mod 16 = b div 16"
    "(b mod 16 * 4 + c div 64) div 4 = b mod 16" "(b mod 16 * 4 + c div 64) mod 4 = c div 64"
    by simp_all
  have m: "a mod 4 < 4" "b mod 16 < 16" "c mod 64 < 64" by simp_all
  show "a div 4 < 64" using assms by simp
  show "a mod 4 * 16 + b div 16 < 64" using b16 m(1) by linarith
  show "b mod 16 * 4 + c div 64 < 64" using c64 m(2) by linarith
  show "a mod 4 * 16 < 64" "b mod 16 * 4 < 64" using m by linarith+
  show "c mod 64 < 64" by (rule m)
  show "a div 4 * 4 + (a mod 4 * 16 + b div 16) div 16 = a"
    "a div 4 * 4 + (a mod 4 * 16) div 16 = a"
    "(a mod 4 * 16 + b div 16) mod 16 * 16 + (b mod 16 * 4 + c div 64) div 4 = b"
    "(a mod 4 * 16 + b div 16) mod 16 * 16 + (b mod 16 * 4) div 4 = b"
    "(b mod 16 * 4 + c div 64) mod 4 * 64 + c mod 64 = c"
    unfolding d by simp_all
qed

lemma b64_loop_encode: "is_bytes bs \<Longrightarrow> b64_loop 0 0 0 (b64_encode bs) = Some bs"
proof (induction bs rule: b64_encode.induct)
  case (2 a)
  then have "a < 256" by (simp add: is_bytes_def)
  with b64_parts [of a 0 0] show ?case by simp
next
  case (3 a b)
  then have "a < 256" "b < 256" by (simp_all add: is_bytes_def)
  with b64_parts [of a b 0] show ?case by simp
next
  case (4 a b c rest)
  then have "a < 256" "b < 256" "c < 256" by (simp_all add: is_bytes_def)
  with b64_parts [of a b c] 4 show ?case by (simp add: is_bytes_def)
qed simp

lemma b64_encode_length: "4 dvd length (b64_encode bs)"
proof (induction bs rule: b64_encode.induct)
  case (2 a)
  have "length (b64_encode [a]) = 4" by simp
  then show ?case by (simp only: dvd_refl)
next
  case (3 a b)
  have "length (b64_encode [a, b]) = 4" by simp
  then show ?case by (simp only: dvd_refl)
next
  case (4 a b c rest)
  have "length (b64_encode (a # b # c # rest)) = length (b64_encode rest) + 4" by simp
  with 4 show ?case by (simp only: dvd_add_left_iff dvd_refl)
qed simp

text \<open>Stripping the padding and putting it back.\<close>

definition rstrip_pad :: "string \<Rightarrow> string" where
  "rstrip_pad s = rev (dropWhile (\<lambda>c. c = CHR ''='') (rev s))"

lemma rstrip_pad_split:
  obtains n where "s = rstrip_pad s @ replicate n CHR ''=''"
proof
  let ?t = "takeWhile (\<lambda>c. c = CHR ''='') (rev s)"
  have "?t = replicate (length ?t) CHR ''=''"
    by (rule replicate_eqI) (auto dest: set_takeWhileD)
  moreover have "s = rstrip_pad s @ rev ?t"
    unfolding rstrip_pad_def by (metis rev_append rev_rev_ident takeWhile_dropWhile_id)
  ultimately show "s = rstrip_pad s @ replicate (length ?t) CHR ''=''"
    by (metis rev_replicate)
qed

lemma rstrip_pad_Cons [simp]: "c \<noteq> CHR ''='' \<Longrightarrow> rstrip_pad (c # s) = c # rstrip_pad s"
  by (auto simp: rstrip_pad_def dropWhile_append dropWhile_eq_Nil_conv)

lemma rstrip_pad_simps [simp]: "rstrip_pad [] = []" "rstrip_pad (CHR ''='' # []) = []"
  "rstrip_pad (CHR ''='' # CHR ''='' # []) = []"
  by (simp_all add: rstrip_pad_def)

lemma rstrip_pad_encode: "length (b64_encode bs) \<le> length (rstrip_pad (b64_encode bs)) + 2"
  by (induction bs rule: b64_encode.induct) simp_all

lemma pad_back:
  "rstrip_pad (b64_encode bs) @
     replicate (nat ((- int (length (rstrip_pad (b64_encode bs)))) mod 4)) CHR ''='' = b64_encode bs"
proof -
  obtain n where n: "b64_encode bs = rstrip_pad (b64_encode bs) @ replicate n CHR ''=''"
    by (rule rstrip_pad_split)
  let ?l = "length (rstrip_pad (b64_encode bs))"
  have len: "length (b64_encode bs) = ?l + n" by (metis length_append length_replicate n)
  with rstrip_pad_encode [of bs] have "n \<le> 2" by simp
  moreover obtain m where "?l + n = 4 * m" using b64_encode_length [of bs] len by (auto simp: dvd_def)
  ultimately have "(- int ?l) mod 4 = int n"
    by presburger
  with n show ?thesis by simp
qed

lemma b64_encode_chars: "c \<in> set (b64_encode bs) \<Longrightarrow> c = CHR ''='' \<or> (\<exists>n. c = b64_char n)"
  by (induction bs rule: b64_encode.induct) auto

lemma rstrip_pad_set: "set (rstrip_pad s) \<subseteq> set s"
  by (auto simp: rstrip_pad_def dest: set_dropWhileD)

lemma b64_char_ascii: "(of_char (b64_char n) :: nat) < 128 \<and> b64_char n \<noteq> CHR ''.''"
proof -
  have "(of_char (b64_char n) :: nat) \<in> {65..<91} \<union> {97..<123} \<union> {48..<58} \<union> {45, 95}"
    by (auto simp: b64_char_def)
  moreover have "(of_char (CHR ''.'') :: nat) = 46" by simp
  ultimately show ?thesis by force
qed

end
