(* ===== verification/Auth.thy ===== *)
theory Auth
  imports Config PyString Errors Base64
begin

text \<open>
  \<^verbatim>\<open>app/core/auth.py\<close>: bearer tokens, their encoding and their validation.

  A \<open>jwt_codec\<close> carries the two standard-library routines that the module calls and whose inner
  workings do not matter to it: \<open>json.dumps\<close> followed by \<open>encode("utf-8")\<close> and \<open>json.loads\<close> on
  bytes (\<open>None\<close> when it raises a \<open>ValueError\<close>), and \<open>hmac.new(key, message, sha256).digest()\<close>.
  Nothing is assumed of them but what a lemma names: that loading gives back what was dumped, and
  that they yield bytes. \<open>base64\<close> is modelled in \<open>Base64\<close>. A decoded JSON object is an
  association list with the last value of a repeated key, as Python's dictionary has it.
\<close>

record jwt_codec =
  dumps_op :: "json \<Rightarrow> bytes"
  loads_op :: "bytes \<Rightarrow> json option"
  hmac_sha256 :: "bytes \<Rightarrow> bytes \<Rightarrow> bytes"

record RequestContext =
  ctx_tenant_id :: string
  ctx_subject :: string
  ctx_scopes :: "string list"

abbreviation raise_Unauthorized :: "string \<Rightarrow> exn" where
  "raise_Unauthorized m \<equiv> App UnauthorizedError (Some m)"

text \<open>\<open>str.encode("utf-8")\<close> of a Latin-1 string and \<open>str.encode("ascii")\<close> of an ASCII one.\<close>

definition utf8_char :: "char \<Rightarrow> bytes" where
  "utf8_char ch =
     (let c = of_char ch :: nat in if c < 128 then [c] else [192 + c div 64, 128 + c mod 64])"

definition utf8 :: "string \<Rightarrow> bytes" where
  "utf8 s = concat (map utf8_char s)"

definition ascii :: "string \<Rightarrow> bytes" where
  "ascii s = map of_char s"

definition is_ascii :: "string \<Rightarrow> bool" where
  "is_ascii s \<longleftrightarrow> (\<forall>c \<in> set s. (of_char c :: nat) < 128)"

definition base64url_encode :: "bytes \<Rightarrow> string" where
  "base64url_encode value = rstrip_pad (b64_encode value)"

text \<open>\<open>None\<close> is a \<open>ValueError\<close>: non-ASCII text, or \<open>binascii.Error\<close>.\<close>

definition base64url_decode :: "string \<Rightarrow> bytes option" where
  "base64url_decode value =
     (let padding = replicate (nat ((- int (length value)) mod 4)) CHR ''=''
      in if is_ascii value then b64_decode (value @ padding) else None)"

definition required_string :: "(string \<times> json) list \<Rightarrow> string \<Rightarrow> exn + string" where
  "required_string payload claim =
     (case map_of payload claim of
        Some (JStr value) \<Rightarrow>
          if value \<noteq> [] then Inr value
          else Inl (raise_Unauthorized (''Missing token claim: '' @ claim @ ''.''))
      | _ \<Rightarrow> Inl (raise_Unauthorized (''Missing token claim: '' @ claim @ ''.'')))"

text \<open>\<open>bool\<close> is a subclass of \<open>int\<close>.\<close>

definition required_int :: "(string \<times> json) list \<Rightarrow> string \<Rightarrow> exn + int" where
  "required_int payload claim =
     (case map_of payload claim of
        Some (JInt value) \<Rightarrow> Inr value
      | Some (JBool b) \<Rightarrow> Inr (if b then 1 else 0)
      | _ \<Rightarrow> Inl (raise_Unauthorized (''Missing token claim: '' @ claim @ ''.'')))"

definition audience_matches :: "json option \<Rightarrow> string \<Rightarrow> bool" where
  "audience_matches value expected =
     (case value of
        Some (JStr v) \<Rightarrow> v = expected
      | Some (JList vs) \<Rightarrow> JStr expected \<in> set vs
      | _ \<Rightarrow> False)"

fun is_jstr :: "json \<Rightarrow> bool" where
  "is_jstr (JStr _) = True"
| "is_jstr _ = False"

fun the_jstr :: "json \<Rightarrow> string" where
  "the_jstr (JStr s) = s"
| "the_jstr _ = []"

definition token_scopes :: "(string \<times> json) list \<Rightarrow> string list" where
  "token_scopes payload =
     (case map_of payload ''scopes'' of
        Some (JStr s) \<Rightarrow> filter (\<lambda>scope. scope \<noteq> []) (split_ws s)
      | Some (JList vs) \<Rightarrow> if list_all is_jstr vs then map the_jstr vs else []
      | _ \<Rightarrow> [])"

definition decode_token_parts ::
    "jwt_codec \<Rightarrow> string \<Rightarrow> exn + (string \<times> json) list \<times> (string \<times> json) list \<times> string \<times> bytes" where
  "decode_token_parts k token =
     (let parts = split_on CHR ''.'' token
      in if length parts \<noteq> 3 then Inl (raise_Unauthorized ''Invalid token format.'')
         else
           (let signing_input = join ''.'' (take 2 parts)
            in case (Option.bind (base64url_decode (parts ! 0)) (loads_op k),
                     Option.bind (base64url_decode (parts ! 1)) (loads_op k),
                     base64url_decode (parts ! 2)) of
                 (Some header, Some payload, Some signature) \<Rightarrow>
                   (case (header, payload) of
                      (JObj h, JObj p) \<Rightarrow> Inr (h, p, signing_input, signature)
                    | _ \<Rightarrow> Inl (raise_Unauthorized ''Invalid token content.''))
               | _ \<Rightarrow> Inl (raise_Unauthorized ''Invalid token encoding.'')))"

text \<open>\<open>int(datetime.timestamp())\<close> truncates towards zero.\<close>

definition timestamp_seconds :: "datetime \<Rightarrow> int" where
  "timestamp_seconds t = sgn t * (\<bar>t\<bar> div 1000000)"

definition validate_demo_jwt :: "jwt_codec \<Rightarrow> Settings \<Rightarrow> datetime \<Rightarrow> string \<Rightarrow> exn + RequestContext" where
  "validate_demo_jwt k settings t token =
     (case decode_token_parts k token of
        Inl e \<Rightarrow> Inl e
      | Inr (header, payload, signing_input, signature) \<Rightarrow>
          if map_of header ''alg'' \<noteq> Some (JStr ''HS256'')
          then Inl (raise_Unauthorized ''Unsupported token algorithm.'')
          else if signature \<noteq> hmac_sha256 k (utf8 (auth_demo_secret settings)) (ascii signing_input)
          then Inl (raise_Unauthorized ''Invalid token signature.'')
          else
            (case required_string payload ''iss'' of
               Inl e \<Rightarrow> Inl e
             | Inr iss \<Rightarrow>
                 if iss \<noteq> auth_issuer settings then Inl (raise_Unauthorized ''Invalid token issuer.'')
                 else if \<not> audience_matches (map_of payload ''aud'') (auth_audience settings)
                 then Inl (raise_Unauthorized ''Invalid token audience.'')
                 else
                   (case required_int payload ''exp'' of
                      Inl e \<Rightarrow> Inl e
                    | Inr expiry \<Rightarrow>
                        if expiry \<le> timestamp_seconds t then Inl (raise_Unauthorized ''Token has expired.'')
                        else
                          (case required_string payload ''tenant_id'' of
                             Inl e \<Rightarrow> Inl e
                           | Inr tenant \<Rightarrow>
                               (case required_string payload ''sub'' of
                                  Inl e \<Rightarrow> Inl e
                                | Inr sub \<Rightarrow>
                                    Inr \<lparr>ctx_tenant_id = tenant, ctx_subject = sub,
                                         ctx_scopes = token_scopes payload\<rparr>)))))"

definition get_request_context ::
    "jwt_codec \<Rightarrow> Settings \<Rightarrow> datetime \<Rightarrow> string option \<Rightarrow> exn + RequestContext option" where
  "get_request_context k settings t authorization =
     (if \<not> auth_enabled settings then Inr None
      else
        case authorization of
          None \<Rightarrow> Inl (raise_Unauthorized ''Missing bearer token.'')
        | Some header \<Rightarrow>
            (let (scheme, _, token) = partition_on CHR '' '' header
             in if lower scheme \<noteq> ''bearer'' \<or> token = []
                then Inl (raise_Unauthorized ''Invalid authorization header.'')
                else map_sum id Some (validate_demo_jwt k settings t token)))"

definition encode_demo_jwt :: "jwt_codec \<Rightarrow> (string \<times> json) list \<Rightarrow> string \<Rightarrow> string" where
  "encode_demo_jwt k payload secret =
     (let header = JObj [(''alg'', JStr ''HS256''), (''typ'', JStr ''JWT'')];
          signing_input = join ''.''
            [base64url_encode (dumps_op k header), base64url_encode (dumps_op k (JObj payload))];
          signature = hmac_sha256 k (utf8 secret) (ascii signing_input)
      in signing_input @ ''.'' @ base64url_encode signature)"

definition create_demo_jwt ::
    "jwt_codec \<Rightarrow> Settings \<Rightarrow> string \<Rightarrow> string \<Rightarrow> string list \<Rightarrow> timedelta \<Rightarrow> datetime \<Rightarrow> string" where
  "create_demo_jwt k settings tenant subject scopes expires_delta current_time =
     encode_demo_jwt k
       [(''iss'', JStr (auth_issuer settings)), (''aud'', JStr (auth_audience settings)),
        (''sub'', JStr subject), (''tenant_id'', JStr tenant), (''scopes'', JList (map JStr scopes)),
        (''iat'', JInt (timestamp_seconds current_time)),
        (''exp'', JInt (timestamp_seconds (current_time + expires_delta)))]
       (auth_demo_secret settings)"

subsection \<open>Encoding\<close>

lemma base64url_encode_chars:
  assumes "c \<in> set (base64url_encode bs)"
  shows "(of_char c :: nat) < 128" and "c \<noteq> CHR ''.''"
proof -
  from assms have "c \<in> set (b64_encode bs)"
    using rstrip_pad_set by (auto simp: base64url_encode_def)
  from b64_encode_chars [OF this] consider "c = CHR ''=''" | n where "c = b64_char n" by blast
  then have "(of_char c :: nat) < 128 \<and> c \<noteq> CHR ''.''"
  proof cases
    case 1
    then show ?thesis by simp
  next
    case (2 n)
    then show ?thesis using b64_char_ascii [of n] by simp
  qed
  then show "(of_char c :: nat) < 128" "c \<noteq> CHR ''.''" by simp_all
qed

lemma base64url_no_dot [simp]: "CHR ''.'' \<notin> set (base64url_encode bs)"
  using base64url_encode_chars(2) by blast

lemma base64url_roundtrip: "is_bytes bs \<Longrightarrow> base64url_decode (base64url_encode bs) = Some bs"
  using pad_back [of bs] b64_loop_encode [of bs] base64url_encode_chars(1) [of _ bs]
  by (simp add: base64url_decode_def base64url_encode_def Let_def b64_decode_def is_ascii_def)

text \<open>What a token relies on the codec for: the objects in question survive dumping and loading.\<close>

definition codec_ok :: "jwt_codec \<Rightarrow> json set \<Rightarrow> bool" where
  "codec_ok k js \<longleftrightarrow>
     (\<forall>j \<in> js. loads_op k (dumps_op k j) = Some j \<and> is_bytes (dumps_op k j)) \<and>
     (\<forall>a b. is_bytes (hmac_sha256 k a b))"

definition jwt_header :: json where
  "jwt_header = JObj [(''alg'', JStr ''HS256''), (''typ'', JStr ''JWT'')]"

lemma decode_encoded:
  assumes "codec_ok k {jwt_header, JObj payload}"
  shows "\<exists>si. decode_token_parts k (encode_demo_jwt k payload secret) =
    Inr ([(''alg'', JStr ''HS256''), (''typ'', JStr ''JWT'')], payload, si,
         hmac_sha256 k (utf8 secret) (ascii si))"
proof -
  let ?h = "base64url_encode (dumps_op k jwt_header)"
  let ?p = "base64url_encode (dumps_op k (JObj payload))"
  let ?si = "?h @ ''.'' @ ?p"
  let ?s = "base64url_encode (hmac_sha256 k (utf8 secret) (ascii ?si))"
  have token: "encode_demo_jwt k payload secret = ?h @ CHR ''.'' # ?p @ CHR ''.'' # ?s"
    by (simp add: encode_demo_jwt_def Let_def jwt_header_def)
  have split: "split_on CHR ''.'' (encode_demo_jwt k payload secret) = [?h, ?p, ?s]"
    unfolding token by (simp add: split_on_append split_on_single)
  have "base64url_decode ?h = Some (dumps_op k jwt_header)"
    "base64url_decode ?p = Some (dumps_op k (JObj payload))"
    "base64url_decode ?s = Some (hmac_sha256 k (utf8 secret) (ascii ?si))"
    using assms by (auto simp: codec_ok_def intro: base64url_roundtrip)
  moreover have "loads_op k (dumps_op k jwt_header) = Some jwt_header"
    "loads_op k (dumps_op k (JObj payload)) = Some (JObj payload)"
    using assms by (simp_all add: codec_ok_def)
  ultimately have "decode_token_parts k (encode_demo_jwt k payload secret) =
      Inr ([(''alg'', JStr ''HS256''), (''typ'', JStr ''JWT'')], payload, ?si,
           hmac_sha256 k (utf8 secret) (ascii ?si))"
    by (simp add: decode_token_parts_def Let_def split) (simp add: jwt_header_def)
  then show ?thesis by blast
qed

lemma map_of_JStr [simp]: "list_all is_jstr (map JStr xs)" "map (the_jstr \<circ> JStr) xs = xs"
  by (induction xs) simp_all

definition demo_payload :: "Settings \<Rightarrow> string \<Rightarrow> string \<Rightarrow> string list \<Rightarrow> timedelta \<Rightarrow> datetime \<Rightarrow> (string \<times> json) list" where
  "demo_payload settings tenant subject scopes expires_delta current_time =
     [(''iss'', JStr (auth_issuer settings)), (''aud'', JStr (auth_audience settings)),
        (''sub'', JStr subject), (''tenant_id'', JStr tenant), (''scopes'', JList (map JStr scopes)),
        (''iat'', JInt (timestamp_seconds current_time)),
        (''exp'', JInt (timestamp_seconds (current_time + expires_delta)))]"

subsection \<open>Every refusal is the unauthorized error\<close>

definition unauthorized :: "exn \<Rightarrow> bool" where
  "unauthorized e \<longleftrightarrow> (\<exists>m. e = raise_Unauthorized m)"

lemma unauthorized_App [simp]: "unauthorized (raise_Unauthorized m)"
  by (simp add: unauthorized_def)

lemma required_unauthorized:
  "required_string pl cl = Inl e \<Longrightarrow> unauthorized e" "required_int pl cl = Inl e \<Longrightarrow> unauthorized e"
  by (auto simp: required_string_def required_int_def split: option.splits json.splits if_splits)

lemma decode_unauthorized: "decode_token_parts k token = Inl e \<Longrightarrow> unauthorized e"
  by (auto simp: decode_token_parts_def Let_def split: option.splits json.splits if_splits)

lemma validate_unauthorized: "validate_demo_jwt k settings t token = Inl e \<Longrightarrow> unauthorized e"
  by (auto simp: validate_demo_jwt_def split: sum.splits if_splits
      dest: required_unauthorized decode_unauthorized)

lemma unauthorized_401: "unauthorized e \<Longrightarrow> resp_status_code (handle_exception rid e) = 401"
  by (auto simp: unauthorized_def error_response_def)

subsection \<open>Properties of the tokens\<close>

text \<open>C21. A token made by \<open>create_demo_jwt\<close> validates, with the same settings, to exactly the tenant,
  the subject and the scopes it was made for, at every time before its expiry (compared in whole
  seconds), and from then on it is refused as expired.\<close>

theorem jwt_roundtrip:
  assumes "codec_ok k {jwt_header, JObj (demo_payload settings tenant subject scopes delta t0)}"
    and "auth_issuer settings \<noteq> []" and "tenant \<noteq> []" and "subject \<noteq> []"
  shows "validate_demo_jwt k settings t (create_demo_jwt k settings tenant subject scopes delta t0) =
    (if timestamp_seconds t < timestamp_seconds (t0 + delta)
     then Inr \<lparr>ctx_tenant_id = tenant, ctx_subject = subject, ctx_scopes = scopes\<rparr>
     else Inl (raise_Unauthorized ''Token has expired.''))"
proof -
  obtain si where "decode_token_parts k (create_demo_jwt k settings tenant subject scopes delta t0) =
      Inr ([(''alg'', JStr ''HS256''), (''typ'', JStr ''JWT'')],
           demo_payload settings tenant subject scopes delta t0, si,
           hmac_sha256 k (utf8 (auth_demo_secret settings)) (ascii si))"
    using decode_encoded [OF assms(1), of "auth_demo_secret settings"]
    unfolding create_demo_jwt_def demo_payload_def by blast
  then show ?thesis
    using assms(2-4)
    by (simp add: validate_demo_jwt_def demo_payload_def required_string_def required_int_def
        audience_matches_def token_scopes_def)
qed

text \<open>A codec that is right on the tokens of one payload, with a checksum in place of the hash.\<close>

definition demo_codec :: "json \<Rightarrow> jwt_codec" where
  "demo_codec pl =
     \<lparr>dumps_op = (\<lambda>j. if j = jwt_header then [1] else [2]),
      loads_op = (\<lambda>bs. if bs = [1] then Some jwt_header else if bs = [2] then Some pl else None),
      hmac_sha256 = (\<lambda>key msg. [sum_list key mod 256, sum_list msg mod 256])\<rparr>"

lemma demo_codec_ok: "codec_ok (demo_codec (JObj pl)) {jwt_header, JObj pl}"
  by (simp add: codec_ok_def demo_codec_def is_bytes_def)

theorem jwt_roundtrip_witness:
  "validate_demo_jwt (demo_codec (JObj (demo_payload default_settings ''acme'' ''alice'' [''read''] 3600000000 0)))
     default_settings 1000000
     (create_demo_jwt (demo_codec (JObj (demo_payload default_settings ''acme'' ''alice'' [''read''] 3600000000 0)))
        default_settings ''acme'' ''alice'' [''read''] 3600000000 0) =
   Inr \<lparr>ctx_tenant_id = ''acme'', ctx_subject = ''alice'', ctx_scopes = [''read'']\<rparr>"
  using jwt_roundtrip [OF demo_codec_ok, of default_settings "''acme''" "''alice''" "[''read'']" 3600000000 0 1000000]
  by (simp add: default_settings_def timestamp_seconds_def)

text \<open>C22. A token that validates is one whose signature part decodes to the keyed hash, under the
  configured secret, of the first two parts exactly as they were sent, whose header names HS256,
  and whose payload has the configured issuer, an audience that contains the configured one, an
  expiry in the future, and a tenant and a subject that are not empty: the tenant a request acts for
  is the one that was signed.\<close>

theorem jwt_sound:
  assumes "validate_demo_jwt k settings t token = Inr ctx"
  shows "\<exists>h p s payload header expiry. split_on CHR ''.'' token = [h, p, s] \<and>
    base64url_decode s = Some (hmac_sha256 k (utf8 (auth_demo_secret settings)) (ascii (h @ ''.'' @ p))) \<and>
    Option.bind (base64url_decode h) (loads_op k) = Some (JObj header) \<and>
    map_of header ''alg'' = Some (JStr ''HS256'') \<and>
    Option.bind (base64url_decode p) (loads_op k) = Some (JObj payload) \<and>
    map_of payload ''iss'' = Some (JStr (auth_issuer settings)) \<and>
    audience_matches (map_of payload ''aud'') (auth_audience settings) \<and>
    required_int payload ''exp'' = Inr expiry \<and> timestamp_seconds t < expiry \<and>
    map_of payload ''tenant_id'' = Some (JStr (ctx_tenant_id ctx)) \<and> ctx_tenant_id ctx \<noteq> [] \<and>
    map_of payload ''sub'' = Some (JStr (ctx_subject ctx)) \<and> ctx_subject ctx \<noteq> []"
proof -
  have req: "required_string pl cl = Inr v \<longleftrightarrow> map_of pl cl = Some (JStr v) \<and> v \<noteq> []" for pl cl v
    by (auto simp: required_string_def split: option.splits json.splits)
  from assms obtain header payload si sig where
    dec: "decode_token_parts k token = Inr (header, payload, si, sig)"
    and alg: "map_of header ''alg'' = Some (JStr ''HS256'')"
    and sig: "sig = hmac_sha256 k (utf8 (auth_demo_secret settings)) (ascii si)"
    and iss: "required_string payload ''iss'' = Inr (auth_issuer settings)"
    and aud: "audience_matches (map_of payload ''aud'') (auth_audience settings)"
    and ten: "required_string payload ''tenant_id'' = Inr (ctx_tenant_id ctx)"
    and sub: "required_string payload ''sub'' = Inr (ctx_subject ctx)"
    and expi: "\<exists>expiry. required_int payload ''exp'' = Inr expiry \<and> timestamp_seconds t < expiry"
    by (auto simp: validate_demo_jwt_def not_le split: sum.splits if_splits)
  from dec obtain h p s where parts: "split_on CHR ''.'' token = [h, p, s]"
    by (auto simp: decode_token_parts_def Let_def numeral_3_eq_3 length_Suc_conv split: if_splits)
  with dec have "si = h @ ''.'' @ p" "base64url_decode s = Some sig"
    "Option.bind (base64url_decode h) (loads_op k) = Some (JObj header)"
    "Option.bind (base64url_decode p) (loads_op k) = Some (JObj payload)"
    by (auto simp: decode_token_parts_def Let_def split: option.splits json.splits)
  with parts alg sig iss aud ten sub expi show ?thesis
    by (auto simp: req)
qed

theorem jwt_sound_witness:
  "\<exists>h p s. split_on CHR ''.'' (create_demo_jwt
       (demo_codec (JObj (demo_payload default_settings ''acme'' ''alice'' [] 3600000000 0)))
       default_settings ''acme'' ''alice'' [] 3600000000 0) = [h, p, s]"
proof -
  let ?k = "demo_codec (JObj (demo_payload default_settings ''acme'' ''alice'' [] 3600000000 0))"
  have "validate_demo_jwt ?k default_settings 0
      (create_demo_jwt ?k default_settings ''acme'' ''alice'' [] 3600000000 0) =
      Inr \<lparr>ctx_tenant_id = ''acme'', ctx_subject = ''alice'', ctx_scopes = []\<rparr>"
    by code_simp
  from jwt_sound [OF this] show ?thesis by blast
qed

text \<open>With authentication enabled no request gets through without a validated token: the
  dependency either yields the context of a bearer token that validates, taken from the
  \<open>Authorization\<close> header, or raises the unauthorized error, which every route answers with 401. With
  authentication disabled it never fails and yields no context.\<close>

lemma request_context_guard:
  "(if auth_enabled settings
    then (case get_request_context k settings t authorization of
            Inr None \<Rightarrow> False
          | Inr (Some ctx) \<Rightarrow> \<exists>scheme token. authorization = Some (scheme @ '' '' @ token) \<and>
              lower scheme = ''bearer'' \<and> validate_demo_jwt k settings t token = Inr ctx
          | Inl e \<Rightarrow> resp_status_code (handle_exception rid e) = 401)
    else get_request_context k settings t authorization = Inr None)"
proof -
  show ?thesis
  proof (cases "auth_enabled settings")
    case enabled: True
    show ?thesis
    proof (cases authorization)
      case None
      with enabled show ?thesis by (simp add: get_request_context_def error_response_def)
    next
      case (Some header)
      obtain scheme mid token where p: "partition_on CHR '' '' header = (scheme, mid, token)"
        by (cases "partition_on CHR '' '' header")
      show ?thesis
      proof (cases "lower scheme \<noteq> ''bearer'' \<or> token = []")
        case True
        with enabled Some p show ?thesis by (simp add: get_request_context_def error_response_def)
      next
        case False
        then have h: "header = scheme @ '' '' @ token" and b: "lower scheme = ''bearer''"
          using partition_on_found [OF p] by simp_all
        have c: "get_request_context k settings t authorization =
            map_sum id Some (validate_demo_jwt k settings t token)"
          using enabled Some p False by (simp add: get_request_context_def)
        show ?thesis
        proof (cases "validate_demo_jwt k settings t token")
          case (Inl e)
          with enabled c unauthorized_401 [OF validate_unauthorized [OF Inl]] show ?thesis by simp
        next
          case (Inr ctx)
          with h b Some have "\<exists>scheme token. authorization = Some (scheme @ '' '' @ token) \<and>
              lower scheme = ''bearer'' \<and> validate_demo_jwt k settings t token = Inr ctx" by blast
          with enabled c Inr show ?thesis by simp
        qed
      qed
    qed
  qed (simp add: get_request_context_def)
qed

end
