(* ===== verification/RateLimit.thy ===== *)
theory RateLimit
  imports PyString Errors
begin

text \<open>
  \<^verbatim>\<open>app/core/rate_limit.py\<close>: fixed-window counters per client key.

  \<open>check\<close> takes the reading of \<open>time.monotonic()\<close> it makes. It runs without an \<open>await\<close> and
  holds the lock, so a call is atomic. \<open>check_run\<close> is any sequence of calls, for any keys.
\<close>

record WindowCounter =
  window_start :: seconds
  wc_count :: int

record InMemoryRateLimiter =
  window_seconds :: int
  counters :: "(string \<times> WindowCounter) list"

definition limiter_init :: InMemoryRateLimiter where
  "limiter_init = \<lparr>window_seconds = 60, counters = []\<rparr>"

definition check ::
    "string \<Rightarrow> int \<Rightarrow> seconds \<Rightarrow> InMemoryRateLimiter \<Rightarrow> (exn + unit) \<times> InMemoryRateLimiter" where
  "check key limit t self =
     (let fresh = (Inr (), self\<lparr>counters :=
            AList.update key \<lparr>window_start = t, wc_count = 1\<rparr> (counters self)\<rparr>)
      in case map_of (counters self) key of
           None \<Rightarrow> fresh
         | Some counter \<Rightarrow>
             if t - window_start counter \<ge> of_int (window_seconds self) then fresh
             else if wc_count counter \<ge> limit then (Inl (App RateLimitExceededError None), self)
             else (Inr (), self\<lparr>counters :=
                    AList.update key (counter\<lparr>wc_count := wc_count counter + 1\<rparr>) (counters self)\<rparr>))"

record http_client =
  x_forwarded_for :: "string option"
  client_host :: "string option"

definition client_ip :: "http_client \<Rightarrow> string" where
  "client_ip request =
     (case x_forwarded_for request of
        Some forwarded_for \<Rightarrow>
          if forwarded_for \<noteq> [] then strip (hd (split_on CHR '','' forwarded_for))
          else (case client_host request of Some host \<Rightarrow> host | None \<Rightarrow> ''unknown'')
      | None \<Rightarrow> (case client_host request of Some host \<Rightarrow> host | None \<Rightarrow> ''unknown''))"

definition client_key :: "http_client \<Rightarrow> string \<Rightarrow> string option \<Rightarrow> string" where
  "client_key request route_name tenant =
     (let tenant_part = (case tenant of Some t \<Rightarrow> if t \<noteq> [] then t else ''unknown-tenant''
                         | None \<Rightarrow> ''unknown-tenant'')
      in route_name @ '':'' @ tenant_part @ '':'' @ client_ip request)"

subsection \<open>Sequences of calls\<close>

type_synonym rl_call = "string \<times> int \<times> seconds"

fun check_run :: "rl_call list \<Rightarrow> InMemoryRateLimiter \<Rightarrow> (exn + unit) list \<times> InMemoryRateLimiter" where
  "check_run [] self = ([], self)"
| "check_run ((key, limit, t) # calls) self =
     (let (r, s1) = check key limit t self; (rs, s2) = check_run calls s1 in (r # rs, s2))"

fun admitted :: "string \<Rightarrow> rl_call list \<Rightarrow> InMemoryRateLimiter \<Rightarrow> int" where
  "admitted k [] self = 0"
| "admitted k ((key, limit, t) # calls) self =
     (case check key limit t self of
        (r, s1) \<Rightarrow> (if key = k \<and> r = Inr () then 1 else 0) + admitted k calls s1)"

definition calls_of :: "string \<Rightarrow> rl_call list \<Rightarrow> rl_call list" where
  "calls_of k calls = filter (\<lambda>(key, _). key = k) calls"

definition positive_counts :: "InMemoryRateLimiter \<Rightarrow> bool" where
  "positive_counts self \<longleftrightarrow> (\<forall>k c. map_of (counters self) k = Some c \<longrightarrow> 1 \<le> wc_count c)"

lemma check_window [simp]: "window_seconds (snd (check key limit t self)) = window_seconds self"
  by (simp add: check_def Let_def split: option.split)

lemma check_other_key:
  "k \<noteq> key \<Longrightarrow> map_of (counters (snd (check key limit t self))) k = map_of (counters self) k"
  by (simp add: check_def Let_def update_conv' split: option.split)

lemma check_positive:
  assumes "positive_counts self"
  shows "positive_counts (snd (check key limit t self))"
proof -
  have "1 \<le> wc_count c + 1" if "map_of (counters self) key = Some c" for c
    using assms that by (fastforce simp: positive_counts_def)
  with assms show ?thesis
    by (auto simp: check_def Let_def positive_counts_def update_conv' split: option.split if_splits)
qed

lemma check_run_inv:
  "positive_counts self \<Longrightarrow> positive_counts (snd (check_run calls self)) \<and>
     window_seconds (snd (check_run calls self)) = window_seconds self"
proof (induction calls arbitrary: self)
  case (Cons x calls)
  obtain key limit t where x: "x = (key, limit, t)" by (cases x)
  from Cons.IH [OF check_positive [OF Cons.prems]] show ?case
    by (simp add: x Let_def split: prod.split) (metis check_window snd_conv)
qed simp

text \<open>The three outcomes of a call, by the state of its own key.\<close>

lemma check_fresh:
  assumes "case map_of (counters self) key of None \<Rightarrow> True
    | Some c \<Rightarrow> of_int (window_seconds self) \<le> t - window_start c"
  shows "fst (check key limit t self) = Inr ()"
    and "map_of (counters (snd (check key limit t self))) key = Some \<lparr>window_start = t, wc_count = 1\<rparr>"
  using assms by (auto simp: check_def Let_def update_conv' split: option.splits)

lemma check_rejects:
  assumes "map_of (counters self) key = Some c" and "t - window_start c < of_int (window_seconds self)"
    and "limit \<le> wc_count c"
  shows "check key limit t self = (Inl (App RateLimitExceededError None), self)"
  using assms by (simp add: check_def Let_def)

lemma check_counts:
  assumes "map_of (counters self) key = Some c" and "t - window_start c < of_int (window_seconds self)"
    and "wc_count c < limit"
  shows "fst (check key limit t self) = Inr ()"
    and "map_of (counters (snd (check key limit t self))) key = Some (c\<lparr>wc_count := wc_count c + 1\<rparr>)"
  using assms by (auto simp: check_def Let_def update_conv')

definition inside :: "string \<Rightarrow> int \<Rightarrow> seconds \<Rightarrow> seconds \<Rightarrow> rl_call list \<Rightarrow> bool" where
  "inside k L a b calls \<longleftrightarrow>
     (\<forall>(key, limit, t) \<in> set calls. key = k \<longrightarrow> limit = L \<and> a \<le> t \<and> t < b)"

lemma inside_Cons:
  "inside k L a b ((key, limit, t) # calls) \<longleftrightarrow>
     (key = k \<longrightarrow> limit = L \<and> a \<le> t \<and> t < b) \<and> inside k L a b calls"
  by (simp add: inside_def)

lemma admitted_Cons:
  "admitted k ((key, limit, t) # calls) self =
     (if key = k \<and> fst (check key limit t self) = Inr () then 1 else 0)
     + admitted k calls (snd (check key limit t self))"
  by (simp split: prod.split)

declare admitted.simps(2) [simp del]

text \<open>Calls that all fall into the current window: what is left of the limit.\<close>

lemma admitted_in_window:
  "map_of (counters self) k = Some c \<Longrightarrow>
   inside k L a (window_start c + of_int (window_seconds self)) calls \<Longrightarrow>
   admitted k calls self \<le> max 0 (L - wc_count c)"
proof (induction calls arbitrary: self c)
  case (Cons x calls)
  obtain key limit t where x: "x = (key, limit, t)" by (cases x)
  note w = Cons.prems(2) [unfolded x inside_Cons]
  show ?case
  proof (cases "key = k")
    case False
    with Cons.IH [of "snd (check key limit t self)" c] Cons.prems(1) w show ?thesis
      by (simp add: x admitted_Cons check_other_key)
  next
    case True
    with w have t: "t - window_start c < of_int (window_seconds self)" and L: "limit = L" by auto
    show ?thesis
    proof (cases "L \<le> wc_count c")
      case rej: True
      with check_rejects [OF Cons.prems(1) t, of L] True L Cons.IH [OF Cons.prems(1)] w show ?thesis
        by (simp add: x admitted_Cons)
    next
      case False
      then have lt: "wc_count c < L" by simp
      note ok = check_counts [OF Cons.prems(1) t lt]
      from Cons.IH [OF ok(2)] w True L ok(1) lt show ?thesis
        by (simp add: x admitted_Cons)
    qed
  qed
qed simp

definition remaining :: "int \<Rightarrow> WindowCounter option \<Rightarrow> int" where
  "remaining L st = (case st of None \<Rightarrow> 0 | Some c \<Rightarrow> max 0 (L - wc_count c))"

text \<open>Calls within one window's length of each other can meet at most two windows.\<close>

lemma admitted_two_windows:
  "inside k L a (a + of_int (window_seconds self)) calls \<Longrightarrow>
   admitted k calls self \<le> remaining L (map_of (counters self) k) + max 1 L"
proof (induction calls arbitrary: self)
  case Nil
  show ?case by (simp add: remaining_def split: option.split)
next
  case (Cons x calls)
  obtain key limit t where x: "x = (key, limit, t)" by (cases x)
  note w = Cons.prems [unfolded x inside_Cons]
  let ?s = "snd (check key limit t self)"
  have IH: "admitted k calls ?s \<le> remaining L (map_of (counters ?s) k) + max 1 L"
    using Cons.IH [of ?s] w by simp
  show ?case
  proof (cases "key = k")
    case False
    with IH show ?thesis by (simp add: x admitted_Cons check_other_key)
  next
    case True
    with w have t: "a \<le> t" "t < a + of_int (window_seconds self)" and L: "limit = L" by auto
    consider (fresh) "case map_of (counters self) key of None \<Rightarrow> True
        | Some c \<Rightarrow> of_int (window_seconds self) \<le> t - window_start c"
      | (old) c where "map_of (counters self) key = Some c" "t - window_start c < of_int (window_seconds self)"
    proof (cases "map_of (counters self) key")
      case (Some c)
      then show ?thesis using fresh old [of c] by (cases "of_int (window_seconds self) \<le> t - window_start c") auto
    qed (use fresh in simp)
    then show ?thesis
    proof cases
      case fresh
      note ok = check_fresh [OF fresh, of limit]
      have "inside k L a (t + of_int (window_seconds ?s)) calls"
        using w t(1) by (fastforce simp: inside_def)
      with admitted_in_window [of ?s k _ L a calls] ok(2) True
      have "admitted k calls ?s \<le> max 0 (L - 1)" by simp
      moreover have "0 \<le> remaining L (map_of (counters self) k)"
        by (simp add: remaining_def split: option.split)
      ultimately show ?thesis using ok(1) True by (simp add: x admitted_Cons)
    next
      case (old c)
      show ?thesis
      proof (cases "L \<le> wc_count c")
        case rej: True
        with check_rejects [OF old, of L] True L IH show ?thesis by (simp add: x admitted_Cons)
      next
        case False
        then have lt: "wc_count c < limit" by (simp add: L)
        note ok = check_counts [OF old lt]
        from IH ok True old(1) lt L show ?thesis by (simp add: x admitted_Cons remaining_def)
      qed
    qed
  qed
qed

subsection \<open>Properties of the limiter\<close>

text \<open>C20. Whatever calls came before and however calls for other keys are mixed in, the calls for one
  key that fall within any stretch of time of one window's length are admitted at most
  \<open>2 * max 1 L - 1\<close> times, where \<open>L\<close> is the limit, and at most \<open>max 1 L\<close> times when the key had no
  counter yet: fixed windows let a client nearly double its rate across a window's edge, and never
  more, and a limit of zero or less still admits one call per window.\<close>

theorem rate_limit_bound:
  assumes "self = snd (check_run before limiter_init)"
    and "\<forall>(key, limit, t) \<in> set calls. key = k \<longrightarrow> limit = L \<and> a \<le> t \<and> t < a + 60"
  shows "admitted k calls self \<le> 2 * max 1 L - 1 \<and>
    (map_of (counters self) k = None \<longrightarrow> admitted k calls self \<le> max 1 L)"
proof -
  have "positive_counts limiter_init" by (simp add: positive_counts_def limiter_init_def)
  from check_run_inv [OF this, of before] have self: "positive_counts self" "window_seconds self = 60"
    by (simp_all add: assms(1) limiter_init_def)
  have w: "inside k L a (a + of_int (window_seconds self)) calls"
    using assms(2) by (simp add: inside_def self(2))
  have "1 \<le> wc_count c" if "map_of (counters self) k = Some c" for c
    using self(1) that by (simp add: positive_counts_def)
  then have "remaining L (map_of (counters self) k) \<le> max 1 L - 1"
    by (force simp: remaining_def split: option.split)
  with admitted_two_windows [OF w] show ?thesis by (auto simp: remaining_def)
qed

theorem rate_limit_bound_witness:
  "admitted ''k'' [(''k'', 2, 59), (''k'', 2, 60), (''other'', 2, 61), (''k'', 2, 61), (''k'', 2, 62)]
     (snd (check_run [(''k'', 2, 0)] limiter_init)) = 3 \<and> (3 :: int) \<le> 2 * max 1 2 - 1"
proof
  let ?calls = "[(''k'', 2, 59), (''k'', 2, 60), (''other'', 2, 61), (''k'', 2, 61), (''k'', 2, 62)] :: rl_call list"
  show eq: "admitted ''k'' ?calls (snd (check_run [(''k'', 2, 0)] limiter_init)) = 3"
    by code_simp
  show "(3 :: int) \<le> 2 * max 1 2 - 1"
    using rate_limit_bound [OF refl, of ?calls "''k''" 2 59 "[(''k'', 2, 0)]"] unfolding eq by simp
qed

text \<open>A call is decided by its own key's counter alone: it is admitted and starts a window at the
  time of the call when there is no counter or its window has run out; otherwise it is rejected with
  the rate-limit error when the count has reached the limit, changing nothing, and admitted and
  counted when it has not. The counters of all other keys stay as they are.\<close>

lemma rate_limit_decision:
  "case map_of (counters self) key of
     Some c \<Rightarrow>
       (if t - window_start c < of_int (window_seconds self)
        then if limit \<le> wc_count c
             then check key limit t self = (Inl (App RateLimitExceededError None), self)
             else fst (check key limit t self) = Inr () \<and>
                  map_of (counters (snd (check key limit t self))) =
                    (map_of (counters self))(key \<mapsto> c\<lparr>wc_count := wc_count c + 1\<rparr>)
        else fst (check key limit t self) = Inr () \<and>
             map_of (counters (snd (check key limit t self))) =
               (map_of (counters self))(key \<mapsto> \<lparr>window_start = t, wc_count = 1\<rparr>))
   | None \<Rightarrow> fst (check key limit t self) = Inr () \<and>
             map_of (counters (snd (check key limit t self))) =
               (map_of (counters self))(key \<mapsto> \<lparr>window_start = t, wc_count = 1\<rparr>)"
  by (auto simp: check_def Let_def update_conv' split: option.split)

text \<open>Client keys tell clients apart as long as the route name and the tenant have no colon: two
  requests then share a key exactly when route, tenant and client address agree.\<close>

lemma client_key_injective:
  assumes "CHR '':'' \<notin> set route1 \<union> set route2 \<union> set tenant1 \<union> set tenant2"
    and "tenant1 \<noteq> []" and "tenant2 \<noteq> []"
  shows "client_key r1 route1 (Some tenant1) = client_key r2 route2 (Some tenant2) \<longleftrightarrow>
    route1 = route2 \<and> tenant1 = tenant2 \<and> client_ip r1 = client_ip r2"
proof -
  have key: "partition_on CHR '':'' (client_key r route (Some tenant)) =
      (route, '':'', tenant @ '':'' @ client_ip r)"
    "partition_on CHR '':'' (tenant @ '':'' @ client_ip r) = (tenant, '':'', client_ip r)"
    if "CHR '':'' \<notin> set route" "CHR '':'' \<notin> set tenant" "tenant \<noteq> []" for r route tenant
    using that partition_on_sep [of "CHR '':''" route] partition_on_sep [of "CHR '':''" tenant]
    by (simp_all add: client_key_def)
  show ?thesis
  proof
    assume eq: "client_key r1 route1 (Some tenant1) = client_key r2 route2 (Some tenant2)"
    have "(route1, '':'', tenant1 @ '':'' @ client_ip r1) = (route2, '':'', tenant2 @ '':'' @ client_ip r2)"
      using key(1) [of route1 tenant1 r1] key(1) [of route2 tenant2 r2] assms unfolding eq by (metis UnI1 UnI2)
    then have route: "route1 = route2" and t: "tenant1 @ '':'' @ client_ip r1 = tenant2 @ '':'' @ client_ip r2"
      by (simp_all only: prod.inject)
    have "(tenant1, '':'', client_ip r1) = (tenant2, '':'', client_ip r2)"
      using key(2) [of route1 tenant1 r1] key(2) [of route2 tenant2 r2] assms unfolding t by (metis UnI1 UnI2)
    with route show "route1 = route2 \<and> tenant1 = tenant2 \<and> client_ip r1 = client_ip r2"
      by (simp only: prod.inject simp_thms)
  qed (simp add: client_key_def)
qed

definition demo_client :: "string \<Rightarrow> http_client" where
  "demo_client ip = \<lparr>x_forwarded_for = None, client_host = Some ip\<rparr>"

text \<open>With a colon in the tenant the key no longer tells clients apart: the tenant \<open>a:b\<close> calling
  from \<open>c\<close> shares its counter with the tenant \<open>a\<close> calling from \<open>b:c\<close> (an IPv6 address has colons),
  and a client that sends an \<open>X-Forwarded-For\<close> header chooses its address itself.\<close>

lemma client_key_collision:
  "client_key (demo_client ''c'') route (Some ''a:b'') = client_key (demo_client ''b:c'') route (Some ''a'') \<and>
   client_key ((demo_client host)\<lparr>x_forwarded_for := Some ''1.2.3.4, 5.6.7.8''\<rparr>) route (Some tenant) =
   client_key (demo_client ''1.2.3.4'') route (Some tenant)"
proof -
  have "strip ''1.2.3.4'' = ''1.2.3.4''" by code_simp
  then show ?thesis by (simp add: client_key_def client_ip_def demo_client_def)
qed

end
