(* ===== verification/Models.thy ===== *)
theory Models
  imports Errors
begin

text \<open>
  \<^verbatim>\<open>app/domain/models.py\<close>: the job states, the request, result, response and job models.

  A pydantic model is a record with its fields in the source's order. Two records with a field of
  the same name would hide each other's selectors, so the fields of every model but
  \<open>EvaluationJob\<close> carry a prefix. The constraints of \<open>Field(...)\<close> are a check
  (\<open>valid_...\<close>) and building or validating a model is a function into \<open>exn + model\<close> that
  raises \<open>ValidationError\<close> when the check fails. \<open>model_dump\<close> is the dictionary the model
  prints to.
\<close>

subsection \<open>Job states\<close>

datatype JobStatus = QUEUED | RUNNING | SUCCEEDED | FAILED

fun status_value :: "JobStatus \<Rightarrow> string" where
  "status_value QUEUED = ''queued''"
| "status_value RUNNING = ''running''"
| "status_value SUCCEEDED = ''succeeded''"
| "status_value FAILED = ''failed''"

text \<open>\<open>JobStatus(value)\<close> raises \<open>ValueError\<close> on an unknown value.\<close>

definition JobStatus_of :: "string \<Rightarrow> exn + JobStatus" where
  "JobStatus_of s =
     (if s = ''queued'' then Inr QUEUED
      else if s = ''running'' then Inr RUNNING
      else if s = ''succeeded'' then Inr SUCCEEDED
      else if s = ''failed'' then Inr FAILED
      else Inl (ValueError s))"

subsection \<open>Requests and results\<close>

record EvaluationRequest =
  rq_tenant_id :: string
  rq_project_id :: string
  rq_question :: string
  rq_answer :: string
  rq_rubric :: "string option"

record SubmitEvaluationRequest =
  sub_tenant_id :: "string option"
  sub_project_id :: string
  sub_question :: string
  sub_answer :: string
  sub_rubric :: "string option"

record EvaluationResult =
  score :: int
  justification :: string
  rubric_used :: bool

definition len_between :: "nat \<Rightarrow> nat \<Rightarrow> string \<Rightarrow> bool" where
  "len_between lo hi s \<longleftrightarrow> lo \<le> length s \<and> length s \<le> hi"

definition valid_EvaluationRequest :: "EvaluationRequest \<Rightarrow> bool" where
  "valid_EvaluationRequest r \<longleftrightarrow>
     len_between 1 128 (rq_tenant_id r) \<and>
     len_between 1 128 (rq_project_id r) \<and>
     len_between 1 10000 (rq_question r) \<and>
     len_between 1 20000 (rq_answer r) \<and>
     (case rq_rubric r of None \<Rightarrow> True | Some s \<Rightarrow> len_between 0 10000 s)"

definition valid_SubmitEvaluationRequest :: "SubmitEvaluationRequest \<Rightarrow> bool" where
  "valid_SubmitEvaluationRequest r \<longleftrightarrow>
     (case sub_tenant_id r of None \<Rightarrow> True | Some s \<Rightarrow> len_between 1 128 s) \<and>
     len_between 1 128 (sub_project_id r) \<and>
     len_between 1 10000 (sub_question r) \<and>
     len_between 1 20000 (sub_answer r) \<and>
     (case sub_rubric r of None \<Rightarrow> True | Some s \<Rightarrow> len_between 0 10000 s)"

definition valid_EvaluationResult :: "EvaluationResult \<Rightarrow> bool" where
  "valid_EvaluationResult r \<longleftrightarrow> 0 \<le> score r \<and> score r \<le> 100"

definition make_EvaluationRequest :: "EvaluationRequest \<Rightarrow> exn + EvaluationRequest" where
  "make_EvaluationRequest r = (if valid_EvaluationRequest r then Inr r else Inl ValidationError)"

definition make_EvaluationResult :: "EvaluationResult \<Rightarrow> exn + EvaluationResult" where
  "make_EvaluationResult r = (if valid_EvaluationResult r then Inr r else Inl ValidationError)"

definition to_evaluation_request :: "SubmitEvaluationRequest \<Rightarrow> string \<Rightarrow> exn + EvaluationRequest" where
  "to_evaluation_request self tenant =
     make_EvaluationRequest
       \<lparr>rq_tenant_id = tenant,
        rq_project_id = sub_project_id self,
        rq_question = sub_question self,
        rq_answer = sub_answer self,
        rq_rubric = sub_rubric self\<rparr>"

subsection \<open>Jobs\<close>

record EvaluationJob =
  job_id :: uuid
  tenant_id :: string
  project_id :: string
  status :: JobStatus
  request :: EvaluationRequest
  result :: "EvaluationResult option"
  error_message :: "string option"
  attempt_count :: int
  max_attempts :: int
  claimed_at :: "datetime option"
  created_at :: datetime
  updated_at :: datetime

text \<open>\<open>EvaluationJob(job_id=..., tenant_id=..., project_id=..., status=..., request=...)\<close>: the
  other fields take their defaults, and the two default factories read the clock in field order.\<close>

definition new_EvaluationJob ::
    "uuid \<Rightarrow> string \<Rightarrow> string \<Rightarrow> JobStatus \<Rightarrow> EvaluationRequest \<Rightarrow> clock \<Rightarrow> EvaluationJob \<times> clock" where
  "new_EvaluationJob jid tenant project st req c =
     (let (t1, c1) = now c; (t2, c2) = now c1 in
      (\<lparr>job_id = jid, tenant_id = tenant, project_id = project, status = st, request = req,
        result = None, error_message = None, attempt_count = 0, max_attempts = 3,
        claimed_at = None, created_at = t1, updated_at = t2\<rparr>, c2))"

subsection \<open>Responses\<close>

record EvaluationRequestSummary =
  rs_tenant_id :: string
  rs_project_id :: string
  rs_rubric :: "string option"

record SubmitEvaluationResponse =
  sr_job_id :: uuid
  sr_status :: JobStatus
  sr_request_id :: string

record EvaluationJobResponse =
  jr_job_id :: uuid
  jr_tenant_id :: string
  jr_project_id :: string
  jr_status :: JobStatus
  jr_request :: EvaluationRequestSummary
  jr_result :: "EvaluationResult option"
  jr_error_message :: "string option"
  jr_attempt_count :: int
  jr_max_attempts :: int
  jr_claimed_at :: "datetime option"
  jr_created_at :: datetime
  jr_updated_at :: datetime
  jr_request_id :: string

record EvaluationJobDetailResponse =
  dr_job_id :: uuid
  dr_tenant_id :: string
  dr_project_id :: string
  dr_status :: JobStatus
  dr_request :: EvaluationRequest
  dr_result :: "EvaluationResult option"
  dr_error_message :: "string option"
  dr_attempt_count :: int
  dr_max_attempts :: int
  dr_claimed_at :: "datetime option"
  dr_created_at :: datetime
  dr_updated_at :: datetime
  dr_request_id :: string

record EvaluationJobSummary =
  sm_job_id :: uuid
  sm_tenant_id :: string
  sm_project_id :: string
  sm_status :: JobStatus
  sm_result :: "EvaluationResult option"
  sm_error_message :: "string option"
  sm_attempt_count :: int
  sm_max_attempts :: int
  sm_claimed_at :: "datetime option"
  sm_created_at :: datetime
  sm_updated_at :: datetime

record EvaluationListResponse =
  lr_jobs :: "EvaluationJobSummary list"
  lr_request_id :: string

definition valid_result_opt :: "EvaluationResult option \<Rightarrow> bool" where
  "valid_result_opt r = (case r of None \<Rightarrow> True | Some x \<Rightarrow> valid_EvaluationResult x)"

text \<open>The three views of a job. Each dumps the job without the excluded fields and validates the
  dictionary against the response model, whose \<open>request\<close> and \<open>result\<close> fields carry their own
  constraints.\<close>

definition to_response :: "EvaluationJob \<Rightarrow> string \<Rightarrow> exn + EvaluationJobResponse" where
  "to_response self request_id =
     (if valid_result_opt (result self)
      then Inr \<lparr>jr_job_id = job_id self, jr_tenant_id = tenant_id self,
                jr_project_id = project_id self, jr_status = status self,
                jr_request = \<lparr>rs_tenant_id = rq_tenant_id (request self),
                              rs_project_id = rq_project_id (request self),
                              rs_rubric = rq_rubric (request self)\<rparr>,
                jr_result = result self, jr_error_message = error_message self,
                jr_attempt_count = attempt_count self, jr_max_attempts = max_attempts self,
                jr_claimed_at = claimed_at self, jr_created_at = created_at self,
                jr_updated_at = updated_at self, jr_request_id = request_id\<rparr>
      else Inl ValidationError)"

definition to_detail_response :: "EvaluationJob \<Rightarrow> string \<Rightarrow> exn + EvaluationJobDetailResponse" where
  "to_detail_response self request_id =
     (if valid_EvaluationRequest (request self) \<and> valid_result_opt (result self)
      then Inr \<lparr>dr_job_id = job_id self, dr_tenant_id = tenant_id self,
                dr_project_id = project_id self, dr_status = status self,
                dr_request = request self,
                dr_result = result self, dr_error_message = error_message self,
                dr_attempt_count = attempt_count self, dr_max_attempts = max_attempts self,
                dr_claimed_at = claimed_at self, dr_created_at = created_at self,
                dr_updated_at = updated_at self, dr_request_id = request_id\<rparr>
      else Inl ValidationError)"

definition to_summary :: "EvaluationJob \<Rightarrow> exn + EvaluationJobSummary" where
  "to_summary self =
     (if valid_result_opt (result self)
      then Inr \<lparr>sm_job_id = job_id self, sm_tenant_id = tenant_id self,
                sm_project_id = project_id self, sm_status = status self,
                sm_result = result self, sm_error_message = error_message self,
                sm_attempt_count = attempt_count self, sm_max_attempts = max_attempts self,
                sm_claimed_at = claimed_at self, sm_created_at = created_at self,
                sm_updated_at = updated_at self\<rparr>
      else Inl ValidationError)"

subsection \<open>Well-formed jobs\<close>

text \<open>What the repositories keep true of every stored job: its request is valid and belongs to the
  job's tenant and project, a result is there exactly when the job succeeded, a failed job says
  why, the attempts stay within the budget, which is a 32-bit integer, and a queued job is claimed
  by nobody.\<close>

definition wf_job :: "EvaluationJob \<Rightarrow> bool" where
  "wf_job j \<longleftrightarrow>
     valid_EvaluationRequest (request j) \<and>
     rq_tenant_id (request j) = tenant_id j \<and>
     rq_project_id (request j) = project_id j \<and>
     valid_result_opt (result j) \<and>
     (result j \<noteq> None \<longleftrightarrow> status j = SUCCEEDED) \<and>
     (status j = FAILED \<longrightarrow> error_message j \<noteq> None) \<and>
     0 \<le> attempt_count j \<and> attempt_count j \<le> max_attempts j \<and> max_attempts j < 2147483648 \<and>
     (claimed_at j \<noteq> None \<longrightarrow> status j \<noteq> QUEUED \<and> 0 < attempt_count j)"

definition fresh_job :: "EvaluationJob \<Rightarrow> bool" where
  "fresh_job j \<longleftrightarrow> wf_job j \<and> status j = QUEUED \<and> attempt_count j = 0"

subsection \<open>Facts about the models\<close>

lemma JobStatus_of_value [simp]: "JobStatus_of (status_value s) = Inr s"
  by (cases s) (simp_all add: JobStatus_of_def)

lemma JobStatus_of_Inr: "JobStatus_of v = Inr s \<longleftrightarrow> v = status_value s"
  by (cases s) (auto simp: JobStatus_of_def)

lemma status_value_inject [simp]: "status_value s = status_value t \<longleftrightarrow> s = t"
  by (cases s; cases t) simp_all

lemma make_EvaluationRequest_Inr:
  "make_EvaluationRequest r = Inr q \<longleftrightarrow> q = r \<and> valid_EvaluationRequest r"
  by (auto simp: make_EvaluationRequest_def)

lemma to_evaluation_request_Inr:
  assumes "to_evaluation_request p tenant = Inr q"
  shows "valid_EvaluationRequest q" and "rq_tenant_id q = tenant" and "rq_project_id q = sub_project_id p"
  using assms by (auto simp: to_evaluation_request_def make_EvaluationRequest_Inr)

lemma to_evaluation_request_valid:
  assumes "valid_SubmitEvaluationRequest p"
  shows "to_evaluation_request p tenant \<noteq> Inl e \<longleftrightarrow> e \<noteq> ValidationError \<or> len_between 1 128 tenant"
  using assms
  by (auto simp: to_evaluation_request_def make_EvaluationRequest_def valid_EvaluationRequest_def
      valid_SubmitEvaluationRequest_def)

lemma new_EvaluationJob_fresh:
  assumes "valid_EvaluationRequest r"
  shows "fresh_job (fst (new_EvaluationJob i (rq_tenant_id r) (rq_project_id r) QUEUED r c))"
  using assms
  by (simp add: new_EvaluationJob_def now_eq fresh_job_def wf_job_def valid_result_opt_def)

lemma wf_job_responses:
  assumes "wf_job j"
  shows "\<exists>x. to_response j rid = Inr x" and "\<exists>x. to_detail_response j rid = Inr x"
    and "\<exists>x. to_summary j = Inr x"
  using assms by (simp_all add: wf_job_def to_response_def to_detail_response_def to_summary_def)

subsection \<open>A concrete job\<close>

text \<open>Small inputs on which the theorems of the development are evaluated.\<close>

definition demo_request :: EvaluationRequest where
  "demo_request =
     \<lparr>rq_tenant_id = ''acme'', rq_project_id = ''docs'', rq_question = ''What is caching?'',
      rq_answer = ''Caching keeps results.'', rq_rubric = None\<rparr>"

definition demo_result :: EvaluationResult where
  "demo_result = \<lparr>score = 22, justification = ''short'', rubric_used = False\<rparr>"

definition demo_job :: "uuid \<Rightarrow> datetime \<Rightarrow> EvaluationJob" where
  "demo_job i t =
     \<lparr>job_id = i, tenant_id = ''acme'', project_id = ''docs'', status = QUEUED,
      request = demo_request, result = None, error_message = None, attempt_count = 0,
      max_attempts = 3, claimed_at = None, created_at = t, updated_at = t\<rparr>"

lemma demo_request_valid [simp]: "valid_EvaluationRequest demo_request"
  by (simp add: valid_EvaluationRequest_def demo_request_def len_between_def)

lemma demo_result_valid [simp]: "valid_EvaluationResult demo_result"
  by (simp add: valid_EvaluationResult_def demo_result_def)

lemma demo_job_fresh [simp]: "fresh_job (demo_job i t)" and demo_job_id [simp]: "job_id (demo_job i t) = i"
  by (simp_all add: fresh_job_def wf_job_def demo_job_def valid_result_opt_def)
    (simp_all add: demo_request_def)

end
