(* ===== verification/Repository.thy ===== *)
theory Repository
  imports Models
begin

text \<open>
  \<^verbatim>\<open>app/storage/base.py\<close>: the \<open>JobRepository\<close> protocol, and the contract that its two
  implementations promise to the job service and the worker.

  \<^item> \<open>repo_ops\<close> is the protocol: a record with one field per method. A component that holds a
    repository takes such a record, as the Python classes take any object with these methods.
    Methods that read the wall clock take the clock and return the rest of it.
  \<^item> \<open>job_step\<close> is the life cycle of one job, as a step relation; \<open>rank\<close> bounds the steps it
    can still take.
  \<^item> The locale \<open>job_repository\<close> is the contract: \<open>view\<close> is the stored jobs as a map,
    \<open>invar\<close> what the representation keeps true, \<open>fits\<close> the texts it can store, and \<open>settle\<close> what
    the transition to a final state does to \<open>claimed_at\<close> (the two implementations differ in the
    last two).
  \<^item> \<open>exec_cmds\<close> runs a sequence of repository calls, in whatever order API requests, workers
    and recovery make them; the lemmas of the locale show what every such sequence preserves.
\<close>

record 's repo_ops =
  create_op :: "EvaluationJob \<Rightarrow> 's \<Rightarrow> (exn + EvaluationJob) \<times> 's"
  get_op :: "uuid \<Rightarrow> 's \<Rightarrow> exn + EvaluationJob"
  get_for_tenant_op :: "uuid \<Rightarrow> string \<Rightarrow> 's \<Rightarrow> exn + EvaluationJob"
  list_recent_op :: "string \<Rightarrow> string option \<Rightarrow> int \<Rightarrow> 's \<Rightarrow> exn + EvaluationJob list"
  claim_next_queued_op :: "clock \<Rightarrow> 's \<Rightarrow> (exn + EvaluationJob option) \<times> 's \<times> clock"
  recover_stale_running_op :: "datetime \<Rightarrow> clock \<Rightarrow> 's \<Rightarrow> (exn + nat) \<times> 's \<times> clock"
  set_running_op :: "uuid \<Rightarrow> clock \<Rightarrow> 's \<Rightarrow> (exn + EvaluationJob) \<times> 's \<times> clock"
  set_succeeded_op ::
    "uuid \<Rightarrow> EvaluationResult \<Rightarrow> clock \<Rightarrow> 's \<Rightarrow> (exn + EvaluationJob) \<times> 's \<times> clock"
  set_failed_op :: "uuid \<Rightarrow> string \<Rightarrow> clock \<Rightarrow> 's \<Rightarrow> (exn + EvaluationJob) \<times> 's \<times> clock"
  health_check_op :: "'s \<Rightarrow> exn + bool"

type_synonym store = "uuid \<rightharpoonup> EvaluationJob"

subsection \<open>The life cycle of a job\<close>

definition claimable :: "EvaluationJob \<Rightarrow> bool" where
  "claimable j \<longleftrightarrow> status j = QUEUED \<and> attempt_count j < max_attempts j"

definition stale :: "datetime \<Rightarrow> EvaluationJob \<Rightarrow> bool" where
  "stale cutoff j \<longleftrightarrow>
     status j = RUNNING \<and> (case claimed_at j of None \<Rightarrow> False | Some t \<Rightarrow> t < cutoff)"

definition started :: "datetime \<Rightarrow> EvaluationJob \<Rightarrow> EvaluationJob" where
  "started t j = j\<lparr>status := RUNNING, updated_at := t\<rparr>"

definition claimed :: "datetime \<Rightarrow> datetime \<Rightarrow> EvaluationJob \<Rightarrow> EvaluationJob" where
  "claimed t1 t2 j =
     j\<lparr>status := RUNNING, attempt_count := attempt_count j + 1, claimed_at := Some t1,
       updated_at := t2\<rparr>"

definition succeeded ::
    "EvaluationResult \<Rightarrow> datetime option \<Rightarrow> datetime \<Rightarrow> EvaluationJob \<Rightarrow> EvaluationJob" where
  "succeeded r ca t j =
     j\<lparr>status := SUCCEEDED, result := Some r, claimed_at := ca, updated_at := t\<rparr>"

definition failed :: "string \<Rightarrow> datetime option \<Rightarrow> datetime \<Rightarrow> EvaluationJob \<Rightarrow> EvaluationJob" where
  "failed m ca t j =
     j\<lparr>status := FAILED, error_message := Some m, claimed_at := ca, updated_at := t\<rparr>"

definition timed_out_message :: string where
  "timed_out_message = ''Evaluation worker timed out.''"

definition stopped_message :: string where
  "stopped_message = ''Evaluation worker stopped before completing the job.''"

definition recovered :: "datetime \<Rightarrow> EvaluationJob \<Rightarrow> EvaluationJob" where
  "recovered t j =
     (if attempt_count j \<ge> max_attempts j
      then j\<lparr>status := FAILED, error_message := Some timed_out_message,
             claimed_at := None, updated_at := t\<rparr>
      else j\<lparr>status := QUEUED, error_message := Some stopped_message,
             claimed_at := None, updated_at := t\<rparr>)"

lemmas job_updates = started_def claimed_def succeeded_def failed_def

inductive job_step :: "EvaluationJob \<Rightarrow> EvaluationJob \<Rightarrow> bool" where
  start: "status j = QUEUED \<Longrightarrow> job_step j (started t j)"
| claim: "claimable j \<Longrightarrow> job_step j (claimed t1 t2 j)"
| succeed: "status j = RUNNING \<Longrightarrow> valid_EvaluationResult r \<Longrightarrow> ca = claimed_at j \<or> ca = None \<Longrightarrow>
     job_step j (succeeded r ca t j)"
| fail: "status j = QUEUED \<or> status j = RUNNING \<Longrightarrow> ca = claimed_at j \<or> ca = None \<Longrightarrow>
     job_step j (failed m ca t j)"
| recover: "stale cutoff j \<Longrightarrow> job_step j (recovered t j)"

inductive_cases job_stepE: "job_step j j'"

definition identity_of :: "EvaluationJob \<Rightarrow> uuid \<times> string \<times> string \<times> EvaluationRequest \<times> int \<times> datetime" where
  "identity_of j = (job_id j, tenant_id j, project_id j, request j, max_attempts j, created_at j)"

definition final :: "EvaluationJob \<Rightarrow> bool" where
  "final j \<longleftrightarrow> status j = SUCCEEDED \<or> status j = FAILED"

definition rank :: "EvaluationJob \<Rightarrow> nat" where
  "rank j =
     (case status j of
        QUEUED \<Rightarrow> 2 * nat (max_attempts j - attempt_count j) + 2
      | RUNNING \<Rightarrow> (if claimed_at j = None then 1 else 2 * nat (max_attempts j - attempt_count j) + 3)
      | _ \<Rightarrow> 0)"

lemma job_id_updates [simp]:
  "job_id (started t j) = job_id j" "job_id (claimed t1 t2 j) = job_id j"
  "job_id (succeeded r ca t j) = job_id j" "job_id (failed m ca t j) = job_id j"
  "job_id (recovered t j) = job_id j"
  by (simp_all add: job_updates recovered_def)

lemma job_step_wf: "job_step j j' \<Longrightarrow> wf_job j \<Longrightarrow> wf_job j'"
  by (erule job_step.cases)
    (auto simp: wf_job_def job_updates recovered_def claimable_def stale_def valid_result_opt_def
      split: option.splits)

lemma job_step_identity: "job_step j j' \<Longrightarrow> identity_of j' = identity_of j"
  by (erule job_step.cases) (auto simp: identity_of_def job_updates recovered_def)

lemma job_step_not_final: "job_step j j' \<Longrightarrow> \<not> final j"
  by (erule job_step.cases) (auto simp: final_def claimable_def stale_def)

lemma job_step_rank: "job_step j j' \<Longrightarrow> wf_job j \<Longrightarrow> rank j' < rank j"
  by (erule job_step.cases)
    (auto simp: rank_def wf_job_def job_updates recovered_def claimable_def stale_def
      split: option.splits)

lemma job_step_attempts:
  "job_step j j' \<Longrightarrow> attempt_count j \<le> attempt_count j' \<and> attempt_count j' \<le> attempt_count j + 1"
  by (erule job_step.cases) (auto simp: job_updates recovered_def)

subsection \<open>Sequences of repository calls\<close>

datatype repo_cmd =
    CCreate EvaluationJob
  | CSetRunning uuid
  | CSetSucceeded uuid EvaluationResult
  | CSetFailed uuid string
  | CClaim
  | CRecover datetime

fun exec_cmd :: "'s repo_ops \<Rightarrow> repo_cmd \<Rightarrow> 's \<times> clock \<Rightarrow> 's \<times> clock" where
  "exec_cmd ops (CCreate j) (s, c) = (snd (create_op ops j s), c)"
| "exec_cmd ops (CSetRunning i) (s, c) = snd (set_running_op ops i c s)"
| "exec_cmd ops (CSetSucceeded i r) (s, c) = snd (set_succeeded_op ops i r c s)"
| "exec_cmd ops (CSetFailed i m) (s, c) = snd (set_failed_op ops i m c s)"
| "exec_cmd ops CClaim (s, c) = snd (claim_next_queued_op ops c s)"
| "exec_cmd ops (CRecover cutoff) (s, c) = snd (recover_stale_running_op ops cutoff c s)"

fun exec_cmds :: "'s repo_ops \<Rightarrow> repo_cmd list \<Rightarrow> 's \<times> clock \<Rightarrow> 's \<times> clock" where
  "exec_cmds ops [] sc = sc"
| "exec_cmds ops (x # xs) sc = exec_cmds ops xs (exec_cmd ops x sc)"

text \<open>A sequence the service can produce: jobs are created queued, well formed and under a new
  identifier (\<open>uuid4\<close>), and results come validated from the evaluator.\<close>

definition request_fits :: "(string \<Rightarrow> bool) \<Rightarrow> EvaluationRequest \<Rightarrow> bool" where
  "request_fits fits r \<longleftrightarrow>
     fits (rq_tenant_id r) \<and> fits (rq_project_id r) \<and> fits (rq_question r) \<and> fits (rq_answer r) \<and>
     (case rq_rubric r of None \<Rightarrow> True | Some s \<Rightarrow> fits s)"

definition job_fits :: "(string \<Rightarrow> bool) \<Rightarrow> EvaluationJob \<Rightarrow> bool" where
  "job_fits fits j \<longleftrightarrow>
     fits (tenant_id j) \<and> fits (project_id j) \<and> request_fits fits (request j) \<and>
     (case result j of None \<Rightarrow> True | Some r \<Rightarrow> fits (justification r)) \<and>
     (case error_message j of None \<Rightarrow> True | Some m \<Rightarrow> fits m)"

fun cmd_ok :: "(string \<Rightarrow> bool) \<Rightarrow> ('s \<Rightarrow> store) \<Rightarrow> 's \<Rightarrow> repo_cmd \<Rightarrow> bool" where
  "cmd_ok fits view s (CCreate j) \<longleftrightarrow> fresh_job j \<and> job_fits fits j \<and> view s (job_id j) = None"
| "cmd_ok fits view s (CSetSucceeded i r) \<longleftrightarrow> valid_EvaluationResult r \<and> fits (justification r)"
| "cmd_ok fits view s (CSetFailed i m) \<longleftrightarrow> fits m"
| "cmd_ok fits view s x \<longleftrightarrow> True"

fun cmds_ok :: "(string \<Rightarrow> bool) \<Rightarrow> 's repo_ops \<Rightarrow> ('s \<Rightarrow> store) \<Rightarrow> repo_cmd list \<Rightarrow> 's \<times> clock \<Rightarrow> bool" where
  "cmds_ok fits ops view [] sc \<longleftrightarrow> True"
| "cmds_ok fits ops view (x # xs) sc \<longleftrightarrow>
     cmd_ok fits view (fst sc) x \<and> cmds_ok fits ops view xs (exec_cmd ops x sc)"

definition wf_store :: "store \<Rightarrow> bool" where
  "wf_store m \<longleftrightarrow> (\<forall>i j. m i = Some j \<longrightarrow> job_id j = i \<and> wf_job j)"

text \<open>What one call may do to the store: every job stays, changed by at most one step of its life
  cycle, and a job that was not there is a fresh one.\<close>

definition store_step :: "store \<Rightarrow> store \<Rightarrow> bool" where
  "store_step m m' \<longleftrightarrow>
     (\<forall>i. case m i of
            None \<Rightarrow> (case m' i of None \<Rightarrow> True | Some j' \<Rightarrow> fresh_job j' \<and> job_id j' = i)
          | Some j \<Rightarrow> (case m' i of None \<Rightarrow> False | Some j' \<Rightarrow> j' = j \<or> job_step j j'))"

definition moved :: "clock \<Rightarrow> clock \<Rightarrow> datetime \<Rightarrow> bool" where
  "moved c c' t \<longleftrightarrow> (\<exists>n k. n < k \<and> c' = shift k c \<and> t = c n)"

lemma moved_first: "moved c (shift (Suc k) c) (c 0)"
  unfolding moved_def by (rule exI [of _ 0], rule exI [of _ "Suc k"]) simp

lemma moved_second: "moved c (shift 2 c) (c (Suc 0))"
  unfolding moved_def by (rule exI [of _ "Suc 0"], rule exI [of _ 2]) simp

lemma store_step_refl [simp]: "store_step m m"
  by (simp add: store_step_def split: option.split)

lemma store_step_update: "m i = Some j \<Longrightarrow> job_step j j' \<Longrightarrow> store_step m (m(i \<mapsto> j'))"
  by (simp add: store_step_def split: option.split)

lemma store_step_create: "m i = None \<Longrightarrow> fresh_job j \<Longrightarrow> job_id j = i \<Longrightarrow> store_step m (m(i \<mapsto> j))"
  by (simp add: store_step_def split: option.split)

lemma store_step_wf:
  assumes "store_step m m'" and "wf_store m"
  shows "wf_store m'"
  unfolding wf_store_def
proof (intro allI impI)
  fix i j'
  assume j': "m' i = Some j'"
  show "job_id j' = i \<and> wf_job j'"
  proof (cases "m i")
    case None
    with assms(1) j' show ?thesis
      by (auto simp: store_step_def fresh_job_def dest: spec [of _ i])
  next
    case (Some j)
    with assms(2) have "job_id j = i" "wf_job j" by (auto simp: wf_store_def)
    moreover from Some assms(1) j' have "j' = j \<or> job_step j j'"
      by (auto simp: store_step_def dest: spec [of _ i])
    ultimately show ?thesis
      using job_step_identity [of j j'] by (auto simp: identity_of_def dest: job_step_wf)
  qed
qed

text \<open>How often a sequence of calls changes one stored job.\<close>

fun changes :: "'s repo_ops \<Rightarrow> ('s \<Rightarrow> store) \<Rightarrow> uuid \<Rightarrow> repo_cmd list \<Rightarrow> 's \<times> clock \<Rightarrow> nat" where
  "changes ops view i [] sc = 0"
| "changes ops view i (x # xs) sc =
     (if view (fst (exec_cmd ops x sc)) i = view (fst sc) i then 0 else 1)
     + changes ops view i xs (exec_cmd ops x sc)"

definition project_matches :: "string option \<Rightarrow> EvaluationJob \<Rightarrow> bool" where
  "project_matches p j = (case p of None \<Rightarrow> True | Some q \<Rightarrow> project_id j = q)"

subsection \<open>What each call does to the store\<close>

text \<open>The abstract repository: the effect of every call on the stored jobs, without a
  representation. The times are left open, and of several oldest claimable jobs any may be taken.\<close>

inductive spec_cmd ::
    "(datetime option \<Rightarrow> datetime option) \<Rightarrow> repo_cmd \<Rightarrow> store \<Rightarrow> store \<Rightarrow> bool"
  for settle :: "datetime option \<Rightarrow> datetime option" where
  create: "m (job_id j) = None \<Longrightarrow> spec_cmd settle (CCreate j) m (m(job_id j \<mapsto> j))"
| start: "m i = Some j \<Longrightarrow> status j = QUEUED \<Longrightarrow> spec_cmd settle (CSetRunning i) m (m(i \<mapsto> started t j))"
| start_no: "\<forall>j. m i = Some j \<longrightarrow> status j \<noteq> QUEUED \<Longrightarrow> spec_cmd settle (CSetRunning i) m m"
| succeed: "m i = Some j \<Longrightarrow> status j = RUNNING \<Longrightarrow>
    spec_cmd settle (CSetSucceeded i r) m (m(i \<mapsto> succeeded r (settle (claimed_at j)) t j))"
| succeed_no: "\<forall>j. m i = Some j \<longrightarrow> status j \<noteq> RUNNING \<Longrightarrow> spec_cmd settle (CSetSucceeded i r) m m"
| fail: "m i = Some j \<Longrightarrow> \<not> final j \<Longrightarrow>
    spec_cmd settle (CSetFailed i msg) m (m(i \<mapsto> failed msg (settle (claimed_at j)) t j))"
| fail_no: "\<forall>j. m i = Some j \<longrightarrow> final j \<Longrightarrow> spec_cmd settle (CSetFailed i msg) m m"
| claim: "m i = Some j \<Longrightarrow> claimable j \<Longrightarrow> \<forall>j' \<in> ran m. claimable j' \<longrightarrow> created_at j \<le> created_at j' \<Longrightarrow>
    spec_cmd settle CClaim m (m(i \<mapsto> claimed t1 t2 j))"
| claim_no: "\<forall>j \<in> ran m. \<not> claimable j \<Longrightarrow> spec_cmd settle CClaim m m"
| recover: "spec_cmd settle (CRecover cutoff) m
    (\<lambda>i. map_option (\<lambda>j. if stale cutoff j then recovered (ts i) j else j) (m i))"

inductive spec_cmds ::
    "(datetime option \<Rightarrow> datetime option) \<Rightarrow> repo_cmd list \<Rightarrow> store \<Rightarrow> store \<Rightarrow> bool"
  for settle :: "datetime option \<Rightarrow> datetime option" where
  nil: "spec_cmds settle [] m m"
| cons: "spec_cmd settle x m m1 \<Longrightarrow> spec_cmds settle xs m1 m2 \<Longrightarrow> spec_cmds settle (x # xs) m m2"

inductive_cases spec_recoverE: "spec_cmd settle (CRecover cutoff) m m'"
inductive_cases spec_claimE: "spec_cmd settle CClaim m m'"

subsection \<open>The contract\<close>

locale job_repository =
  fixes ops :: "'s repo_ops"
    and view :: "'s \<Rightarrow> store"
    and invar :: "'s \<Rightarrow> bool"
    and fits :: "string \<Rightarrow> bool"
    and settle :: "datetime option \<Rightarrow> datetime option"
  assumes settle_cases: "settle ca = ca \<or> settle ca = None"
    and fits_plain: "CHR 0x00 \<notin> set m \<Longrightarrow> fits m"
    and view_key: "invar s \<Longrightarrow> view s i = Some j \<Longrightarrow> job_id j = i"
    and view_finite: "invar s \<Longrightarrow> finite (dom (view s))"
    and get_law: "invar s \<Longrightarrow>
      get_op ops i s = (case view s i of None \<Rightarrow> Inl raise_NotFound | Some j \<Rightarrow> Inr j)"
    and get_for_tenant_law: "invar s \<Longrightarrow> fits tenant \<Longrightarrow>
      get_for_tenant_op ops i tenant s =
        (case view s i of None \<Rightarrow> Inl raise_NotFound
         | Some j \<Rightarrow> if tenant_id j = tenant then Inr j else Inl raise_NotFound)"
    and get_for_tenant_unfit: "invar s \<Longrightarrow> \<not> fits tenant \<Longrightarrow>
      \<exists>e. get_for_tenant_op ops i tenant s = Inl e"
    and list_recent_law: "invar s \<Longrightarrow> 0 \<le> limit \<Longrightarrow> fits tenant \<Longrightarrow> (\<And>p. proj = Some p \<Longrightarrow> fits p) \<Longrightarrow>
      \<exists>js. list_recent_op ops tenant proj limit s = Inr (take (nat limit) js) \<and> distinct js \<and>
           set js = {j \<in> ran (view s). tenant_id j = tenant \<and> project_matches proj j} \<and>
           sorted_wrt (\<lambda>a b. created_at b \<le> created_at a) js"
    and list_recent_unfit: "invar s \<Longrightarrow> \<not> fits tenant \<or> (\<exists>p. proj = Some p \<and> \<not> fits p) \<Longrightarrow>
      \<exists>e. list_recent_op ops tenant proj limit s = Inl e"
    and create_law: "invar s \<Longrightarrow> wf_job j \<Longrightarrow> job_fits fits j \<Longrightarrow> view s (job_id j) = None \<Longrightarrow>
      \<exists>s'. create_op ops j s = (Inr j, s') \<and> invar s' \<and> view s' = (view s)(job_id j \<mapsto> j)"
    and claim_none_law: "invar s \<Longrightarrow> \<forall>j \<in> ran (view s). \<not> claimable j \<Longrightarrow>
      claim_next_queued_op ops c s = (Inr None, s, c)"
    and claim_some_law: "invar s \<Longrightarrow> \<exists>j \<in> ran (view s). claimable j \<Longrightarrow>
      \<exists>j t1 t2 s' c'. view s (job_id j) = Some j \<and> claimable j \<and>
        (\<forall>j' \<in> ran (view s). claimable j' \<longrightarrow> created_at j \<le> created_at j') \<and>
        claim_next_queued_op ops c s = (Inr (Some (claimed t1 t2 j)), s', c') \<and>
        moved c c' t1 \<and> moved c c' t2 \<and> invar s' \<and>
        view s' = (view s)(job_id j \<mapsto> claimed t1 t2 j)"
    and recover_law: "invar s \<Longrightarrow>
      \<exists>s' k times. recover_stale_running_op ops cutoff c s =
          (Inr (card {i. \<exists>j. view s i = Some j \<and> stale cutoff j}), s', shift k c) \<and> invar s' \<and>
        view s' = (\<lambda>i. map_option (\<lambda>j. if stale cutoff j then recovered (times i) j else j) (view s i))"
    and set_running_missing: "invar s \<Longrightarrow> view s i = None \<Longrightarrow>
      set_running_op ops i c s = (Inl raise_NotFound, s, c)"
    and set_running_rejected: "invar s \<Longrightarrow> view s i = Some j \<Longrightarrow> status j \<noteq> QUEUED \<Longrightarrow>
      set_running_op ops i c s = (Inl raise_InvalidStateTransition, s, c)"
    and set_running_law: "invar s \<Longrightarrow> view s i = Some j \<Longrightarrow> status j = QUEUED \<Longrightarrow>
      \<exists>t s' c'. set_running_op ops i c s = (Inr (started t j), s', c') \<and> moved c c' t \<and> invar s' \<and>
        view s' = (view s)(i \<mapsto> started t j)"
    and set_succeeded_missing: "invar s \<Longrightarrow> view s i = None \<Longrightarrow>
      set_succeeded_op ops i r c s = (Inl raise_NotFound, s, c)"
    and set_succeeded_rejected: "invar s \<Longrightarrow> view s i = Some j \<Longrightarrow> status j \<noteq> RUNNING \<Longrightarrow>
      set_succeeded_op ops i r c s = (Inl raise_InvalidStateTransition, s, c)"
    and set_succeeded_law: "invar s \<Longrightarrow> view s i = Some j \<Longrightarrow> status j = RUNNING \<Longrightarrow>
      valid_EvaluationResult r \<Longrightarrow> fits (justification r) \<Longrightarrow>
      \<exists>t s' c'. set_succeeded_op ops i r c s = (Inr (succeeded r (settle (claimed_at j)) t j), s', c') \<and>
        moved c c' t \<and> invar s' \<and>
        view s' = (view s)(i \<mapsto> succeeded r (settle (claimed_at j)) t j)"
    and set_failed_missing: "invar s \<Longrightarrow> view s i = None \<Longrightarrow>
      set_failed_op ops i m c s = (Inl raise_NotFound, s, c)"
    and set_failed_rejected: "invar s \<Longrightarrow> view s i = Some j \<Longrightarrow> final j \<Longrightarrow>
      set_failed_op ops i m c s = (Inl raise_InvalidStateTransition, s, c)"
    and set_failed_law: "invar s \<Longrightarrow> view s i = Some j \<Longrightarrow> \<not> final j \<Longrightarrow> fits m \<Longrightarrow>
      \<exists>t s' c'. set_failed_op ops i m c s = (Inr (failed m (settle (claimed_at j)) t j), s', c') \<and>
        moved c c' t \<and> invar s' \<and>
        view s' = (view s)(i \<mapsto> failed m (settle (claimed_at j)) t j)"
begin

lemma not_final: "\<not> final j \<longleftrightarrow> status j = QUEUED \<or> status j = RUNNING"
  by (cases "status j") (auto simp: final_def)

lemma step_succeed: "status j = RUNNING \<Longrightarrow> valid_EvaluationResult r \<Longrightarrow>
    job_step j (succeeded r (settle (claimed_at j)) t j)"
  using settle_cases [of "claimed_at j"] by (intro job_step.succeed) auto

lemma step_fail: "\<not> final j \<Longrightarrow> job_step j (failed m (settle (claimed_at j)) t j)"
  using settle_cases [of "claimed_at j"] by (intro job_step.fail) (auto simp: not_final)

lemma set_running_step:
  assumes "invar s"
  shows "invar (fst (snd (set_running_op ops i c s))) \<and>
    store_step (view s) (view (fst (snd (set_running_op ops i c s))))"
proof (cases "view s i")
  case (Some j)
  show ?thesis
  proof (cases "status j = QUEUED")
    case True
    with set_running_law [OF assms Some, of c] show ?thesis
      by (auto simp: Some True intro!: store_step_update job_step.start)
  qed (simp add: assms set_running_rejected [OF assms Some])
qed (simp add: assms set_running_missing)

lemma set_succeeded_step:
  assumes "invar s" and "valid_EvaluationResult r" and "fits (justification r)"
  shows "invar (fst (snd (set_succeeded_op ops i r c s))) \<and>
    store_step (view s) (view (fst (snd (set_succeeded_op ops i r c s))))"
proof (cases "view s i")
  case (Some j)
  show ?thesis
  proof (cases "status j = RUNNING")
    case True
    with set_succeeded_law [OF assms(1) Some True assms(2,3), of c] show ?thesis
      by (auto simp: Some intro!: store_step_update step_succeed assms(2))
  qed (simp add: assms set_succeeded_rejected [OF assms(1) Some])
qed (simp add: assms set_succeeded_missing)

lemma set_failed_step:
  assumes "invar s" and "fits m"
  shows "invar (fst (snd (set_failed_op ops i m c s))) \<and>
    store_step (view s) (view (fst (snd (set_failed_op ops i m c s))))"
proof (cases "view s i")
  case (Some j)
  show ?thesis
  proof (cases "final j")
    case False
    with set_failed_law [OF assms(1) Some _ assms(2), of c] show ?thesis
      by (auto simp: Some intro!: store_step_update step_fail)
  qed (simp add: assms set_failed_rejected [OF assms(1) Some])
qed (simp add: assms set_failed_missing)

lemma claim_step:
  assumes "invar s"
  shows "invar (fst (snd (claim_next_queued_op ops c s))) \<and>
    store_step (view s) (view (fst (snd (claim_next_queued_op ops c s))))"
proof (cases "\<exists>j \<in> ran (view s). claimable j")
  case True
  from claim_some_law [OF assms True, of c] show ?thesis
    by (auto intro!: store_step_update job_step.claim)
next
  case False
  then show ?thesis by (simp add: assms claim_none_law)
qed

lemma recover_step:
  assumes "invar s"
  shows "invar (fst (snd (recover_stale_running_op ops cutoff c s))) \<and>
    store_step (view s) (view (fst (snd (recover_stale_running_op ops cutoff c s))))"
  using recover_law [OF assms, of cutoff c] job_step.recover
  by (fastforce simp: store_step_def split: option.split)

lemma create_step:
  assumes "invar s" and "fresh_job j" and "job_fits fits j" and "view s (job_id j) = None"
  shows "invar (snd (create_op ops j s)) \<and> store_step (view s) (view (snd (create_op ops j s)))"
  using create_law [of s j] assms by (auto simp: fresh_job_def store_step_create)

lemma exec_cmd_step:
  assumes "invar (fst sc)" and "cmd_ok fits view (fst sc) x"
  shows "invar (fst (exec_cmd ops x sc)) \<and> store_step (view (fst sc)) (view (fst (exec_cmd ops x sc)))"
proof -
  obtain s c where sc: "sc = (s, c)" by (cases sc)
  show ?thesis
    using assms unfolding sc
    by (cases x) (simp_all add: set_running_step set_succeeded_step set_failed_step claim_step
        recover_step create_step)
qed

text \<open>Refinement: what a call does to the stored jobs is what the abstract repository does.\<close>

lemma set_running_refines:
  assumes inv: "invar s"
  shows "spec_cmd settle (CSetRunning i) (view s) (view (fst (snd (set_running_op ops i c s))))"
proof (cases "\<exists>j. view s i = Some j \<and> status j = QUEUED")
  case True
  then obtain j where j: "view s i = Some j" "status j = QUEUED" by blast
  from set_running_law [OF inv j, of c] show ?thesis using j by (auto intro!: spec_cmd.start)
next
  case False
  then have "snd (set_running_op ops i c s) = (s, c)"
    using set_running_missing [OF inv, of i c] set_running_rejected [OF inv, of i _ c]
    by (cases "view s i") auto
  with False show ?thesis by (auto intro: spec_cmd.start_no)
qed

lemma set_succeeded_refines:
  assumes inv: "invar s" and "valid_EvaluationResult r" and "fits (justification r)"
  shows "spec_cmd settle (CSetSucceeded i r) (view s) (view (fst (snd (set_succeeded_op ops i r c s))))"
proof (cases "\<exists>j. view s i = Some j \<and> status j = RUNNING")
  case True
  then obtain j where j: "view s i = Some j" "status j = RUNNING" by blast
  from set_succeeded_law [OF inv j assms(2,3), of c] show ?thesis using j by (auto intro!: spec_cmd.succeed)
next
  case False
  then have "snd (set_succeeded_op ops i r c s) = (s, c)"
    using set_succeeded_missing [OF inv, of i r c] set_succeeded_rejected [OF inv, of i _ r c]
    by (cases "view s i") auto
  with False show ?thesis by (auto intro: spec_cmd.succeed_no)
qed

lemma set_failed_refines:
  assumes inv: "invar s" and "fits m"
  shows "spec_cmd settle (CSetFailed i m) (view s) (view (fst (snd (set_failed_op ops i m c s))))"
proof (cases "\<exists>j. view s i = Some j \<and> \<not> final j")
  case True
  then obtain j where j: "view s i = Some j" "\<not> final j" by blast
  from set_failed_law [OF inv j assms(2), of c] show ?thesis using j by (auto intro!: spec_cmd.fail)
next
  case False
  then have "snd (set_failed_op ops i m c s) = (s, c)"
    using set_failed_missing [OF inv, of i m c] set_failed_rejected [OF inv, of i _ m c]
    by (cases "view s i") auto
  with False show ?thesis by (auto intro: spec_cmd.fail_no)
qed

lemma claim_refines:
  assumes inv: "invar s"
  shows "spec_cmd settle CClaim (view s) (view (fst (snd (claim_next_queued_op ops c s))))"
proof (cases "\<exists>j \<in> ran (view s). claimable j")
  case True
  from claim_some_law [OF inv True, of c] obtain j t1 t2 s' c' where
    j: "view s (job_id j) = Some j" "claimable j"
      "\<forall>j' \<in> ran (view s). claimable j' \<longrightarrow> created_at j \<le> created_at j'"
    and cl: "claim_next_queued_op ops c s = (Inr (Some (claimed t1 t2 j)), s', c')"
      "view s' = (view s)(job_id j \<mapsto> claimed t1 t2 j)" by blast
  from spec_cmd.claim [of "view s", OF j] show ?thesis by (simp add: cl)
next
  case False
  then have none: "\<forall>j \<in> ran (view s). \<not> claimable j" by blast
  from spec_cmd.claim_no [OF none] show ?thesis by (simp add: claim_none_law [OF inv none])
qed

lemma exec_cmd_refines:
  assumes "invar (fst sc)" and "cmd_ok fits view (fst sc) x"
  shows "spec_cmd settle x (view (fst sc)) (view (fst (exec_cmd ops x sc)))"
proof -
  obtain s c where sc: "sc = (s, c)" by (cases sc)
  have inv: "invar s" using assms(1) sc by simp
  show ?thesis
  proof (cases x)
    case (CCreate j)
    with assms sc have "wf_job j" "job_fits fits j" "view s (job_id j) = None" by (simp_all add: fresh_job_def)
    with create_law [OF inv, of j] show ?thesis by (auto simp: sc CCreate intro: spec_cmd.create)
  next
    case (CRecover cutoff)
    from recover_law [OF inv, of cutoff c] show ?thesis
      by (auto simp: sc CRecover intro: spec_cmd.recover)
  qed (use assms(2) in \<open>simp_all add: sc inv set_running_refines set_succeeded_refines set_failed_refines claim_refines\<close>)
qed

lemma exec_cmds_refine:
  "cmds_ok fits ops view xs sc \<Longrightarrow> invar (fst sc) \<Longrightarrow>
     invar (fst (exec_cmds ops xs sc)) \<and>
     spec_cmds settle xs (view (fst sc)) (view (fst (exec_cmds ops xs sc)))"
proof (induction xs arbitrary: sc)
  case (Cons x xs)
  from Cons.prems have "invar (fst (exec_cmd ops x sc))"
      and "spec_cmd settle x (view (fst sc)) (view (fst (exec_cmd ops x sc)))"
    using exec_cmd_step [of sc x] exec_cmd_refines [of sc x] by auto
  with Cons.IH [of "exec_cmd ops x sc"] Cons.prems(1) show ?case
    by (auto intro: spec_cmds.cons)
qed (simp add: spec_cmds.nil)

lemma exec_cmds_wf:
  "cmds_ok fits ops view xs sc \<Longrightarrow> invar (fst sc) \<Longrightarrow> wf_store (view (fst sc)) \<Longrightarrow>
     invar (fst (exec_cmds ops xs sc)) \<and> wf_store (view (fst (exec_cmds ops xs sc)))"
proof (induction xs arbitrary: sc)
  case (Cons x xs)
  from Cons.prems have "invar (fst (exec_cmd ops x sc)) \<and> wf_store (view (fst (exec_cmd ops x sc)))"
    using exec_cmd_step [of sc x] store_step_wf by auto
  with Cons.IH [of "exec_cmd ops x sc"] Cons.prems(1) show ?case by simp
qed simp

lemma exec_cmd_job:
  assumes "invar (fst sc)" and "cmd_ok fits view (fst sc) x" and "view (fst sc) i = Some j"
  obtains j' where "view (fst (exec_cmd ops x sc)) i = Some j'" and "j' = j \<or> job_step j j'"
  using exec_cmd_step [OF assms(1,2)] assms(3)
  by (auto simp: store_step_def split: option.splits dest!: spec [of _ i])

lemma exec_cmds_job:
  "cmds_ok fits ops view xs sc \<Longrightarrow> invar (fst sc) \<Longrightarrow> view (fst sc) i = Some j \<Longrightarrow>
     \<exists>j'. view (fst (exec_cmds ops xs sc)) i = Some j' \<and> identity_of j' = identity_of j \<and>
          attempt_count j \<le> attempt_count j' \<and> (final j \<longrightarrow> j' = j)"
proof (induction xs arbitrary: sc j)
  case (Cons x xs)
  from Cons.prems obtain j1 where
      j1: "view (fst (exec_cmd ops x sc)) i = Some j1" "j1 = j \<or> job_step j j1"
    by (auto elim: exec_cmd_job [of sc x i j])
  from Cons.prems exec_cmd_step [of sc x] have "invar (fst (exec_cmd ops x sc))" by simp
  with Cons.IH [of "exec_cmd ops x sc" j1] Cons.prems(1) j1(1) obtain j' where
      j': "view (fst (exec_cmds ops xs (exec_cmd ops x sc))) i = Some j'"
        "identity_of j' = identity_of j1" "attempt_count j1 \<le> attempt_count j'"
        "final j1 \<longrightarrow> j' = j1"
    by auto
  with j1(2) show ?case
    by (auto dest: job_step_identity job_step_not_final job_step_attempts)
qed simp

lemma changes_le_rank:
  "cmds_ok fits ops view xs sc \<Longrightarrow> invar (fst sc) \<Longrightarrow> view (fst sc) i = Some j \<Longrightarrow> wf_job j \<Longrightarrow>
     changes ops view i xs sc \<le> rank j"
proof (induction xs arbitrary: sc j)
  case (Cons x xs)
  from Cons.prems obtain j1 where
      j1: "view (fst (exec_cmd ops x sc)) i = Some j1" "j1 = j \<or> job_step j j1"
    by (auto elim: exec_cmd_job [of sc x i j])
  from Cons.prems exec_cmd_step [of sc x] have "invar (fst (exec_cmd ops x sc))" by simp
  moreover from j1(2) Cons.prems(4) have "wf_job j1" by (auto dest: job_step_wf)
  ultimately have IH: "changes ops view i xs (exec_cmd ops x sc) \<le> rank j1"
    using Cons.IH [of "exec_cmd ops x sc" j1] Cons.prems(1) j1(1) by auto
  show ?case
  proof (cases "j1 = j")
    case True
    with IH j1(1) Cons.prems(3) show ?thesis by simp
  next
    case False
    with j1(2) have "job_step j j1" by simp
    then have "rank j1 < rank j" using Cons.prems(4) by (rule job_step_rank)
    with IH j1(1) Cons.prems(3) show ?thesis by simp
  qed
qed simp

end

subsection \<open>Claiming until the queue is empty\<close>

text \<open>What \<open>n\<close> calls of \<open>claim_next_queued\<close> in a row hand out, whichever workers make them.\<close>

fun claim_n :: "'s repo_ops \<Rightarrow> nat \<Rightarrow> clock \<Rightarrow> 's \<Rightarrow> EvaluationJob list \<times> 's \<times> clock" where
  "claim_n ops 0 c s = ([], s, c)"
| "claim_n ops (Suc n) c s =
     (case claim_next_queued_op ops c s of
        (Inr (Some j), s1, c1) \<Rightarrow> (case claim_n ops n c1 s1 of (js, s2, c2) \<Rightarrow> (j # js, s2, c2))
      | (_, s1, c1) \<Rightarrow> ([], s1, c1))"

definition claimable_ids :: "store \<Rightarrow> uuid set" where
  "claimable_ids m = {i. \<exists>j. m i = Some j \<and> claimable j}"

lemma claimable_ids_claimed:
  "claimable_ids (m(i \<mapsto> claimed t1 t2 j)) = claimable_ids m - {i}"
  by (auto simp: claimable_ids_def claimable_def claimed_def)

lemma created_at_claimed [simp]: "created_at (claimed t1 t2 j) = created_at j"
  by (simp add: claimed_def)

context job_repository
begin

lemma claimable_ids_finite: "invar s \<Longrightarrow> finite (claimable_ids (view s))"
  by (rule finite_subset [OF _ view_finite [of s]]) (auto simp: claimable_ids_def)

lemma claimable_ids_empty:
  "claimable_ids (view s) = {} \<longleftrightarrow> (\<forall>j \<in> ran (view s). \<not> claimable j)"
  by (auto simp: claimable_ids_def ran_def)

lemma claim_n_law:
  "invar s \<Longrightarrow>
   \<exists>js s' c'. claim_n ops n c s = (js, s', c') \<and> invar s' \<and> distinct (map job_id js) \<and>
     (\<forall>j \<in> set js. \<exists>j0. view s (job_id j) = Some j0 \<and> claimable j0 \<and> created_at j = created_at j0) \<and>
     sorted (map created_at js) \<and> length js = min n (card (claimable_ids (view s)))"
proof (induction n arbitrary: c s)
  case (Suc n)
  show ?case
  proof (cases "claimable_ids (view s) = {}")
    case True
    then have "claim_next_queued_op ops c s = (Inr None, s, c)"
      using claim_none_law [OF Suc.prems] by (simp add: claimable_ids_empty)
    with True Suc.prems show ?thesis by simp
  next
    case False
    then have "\<exists>j \<in> ran (view s). claimable j" by (simp add: claimable_ids_empty)
    from claim_some_law [OF Suc.prems this, of c] obtain j t1 t2 s1 c1 where
      j: "view s (job_id j) = Some j" "claimable j"
        "\<forall>j' \<in> ran (view s). claimable j' \<longrightarrow> created_at j \<le> created_at j'"
      and cl: "claim_next_queued_op ops c s = (Inr (Some (claimed t1 t2 j)), s1, c1)"
      and s1: "invar s1" "view s1 = (view s)(job_id j \<mapsto> claimed t1 t2 j)"
      by blast
    from Suc.IH [OF s1(1), of c1] obtain js s2 c2 where
      js: "claim_n ops n c1 s1 = (js, s2, c2)" "invar s2" "distinct (map job_id js)"
        "\<forall>x \<in> set js. \<exists>j0. view s1 (job_id x) = Some j0 \<and> claimable j0 \<and> created_at x = created_at j0"
        "sorted (map created_at js)" "length js = min n (card (claimable_ids (view s1)))"
      by blast
    have rest: "job_id x \<noteq> job_id j \<and>
        (\<exists>j0. view s (job_id x) = Some j0 \<and> claimable j0 \<and> created_at x = created_at j0)"
      if x: "x \<in> set js" for x
      using js(4) [rule_format, OF x] by (auto simp: s1(2) claimable_def claimed_def split: if_splits)
    have "job_id j \<in> claimable_ids (view s)" using j by (auto simp: claimable_ids_def)
    then have "card (claimable_ids (view s)) = Suc (card (claimable_ids (view s1)))"
      using claimable_ids_finite [OF Suc.prems]
      by (simp only: s1(2) claimable_ids_claimed card_Suc_Diff1)
    moreover have "\<forall>x \<in> set js. created_at j \<le> created_at x"
      using rest j(3) by (metis ranI)
    moreover have "job_id j \<notin> job_id ` set js" using rest by force
    ultimately show ?thesis
      using js cl rest j by auto
  qed
qed simp

end

end
