(* ===== verification/Metrics.thy ===== *)
theory Metrics
  imports PyString "HOL-Library.Product_Lexorder"
begin

text \<open>
  \<^verbatim>\<open>app/core/metrics.py\<close>: the metrics registry and its Prometheus text rendering.

  The registry's \<open>_values\<close> is a dictionary from a metric name and a sorted label tuple to a
  number; \<open>_metadata\<close> is a constant. Floats are rationals here, so a sum is exact where the
  program's would be rounded. Python's comparison of strings and tuples is the lexicographic one
  of \<open>List_Lexorder\<close> and \<open>Product_Lexorder\<close>. \<open>format_g\<close> is the format \<open>:g\<close>: six significant
  digits, rounded half to even, trailing zeros dropped, exponent notation outside \<open>[1e-4, 1e6)\<close>.
\<close>

type_synonym label_set = "(string \<times> string) list"
type_synonym metric_key = "string \<times> label_set"

record MetricsRegistry =
  metric_values :: "(metric_key \<times> rat) list"

definition metrics_init :: MetricsRegistry where
  "metrics_init = \<lparr>metric_values = []\<rparr>"

definition metric_metadata :: "(string \<times> string \<times> string) list" where
  "metric_metadata =
     [(''http_requests_total'', ''counter'', ''HTTP requests handled by the API.''),
      (''http_request_duration_seconds_count'', ''counter'',
       ''HTTP request duration observation count.''),
      (''http_request_duration_seconds_sum'', ''counter'',
       ''Total observed HTTP request duration in seconds.''),
      (''evaluation_jobs_total'', ''counter'', ''Evaluation jobs by terminal or queued status.''),
      (''evaluation_scoring_duration_seconds_count'', ''counter'',
       ''Evaluation scoring duration observation count.''),
      (''evaluation_scoring_duration_seconds_sum'', ''counter'',
       ''Total observed evaluation scoring duration in seconds.''),
      (''evaluation_worker_recovered_jobs_total'', ''counter'',
       ''Stale running jobs recovered by workers.''),
      (''evaluation_queue_depth'', ''gauge'',
       ''In-memory evaluation jobs waiting to be processed.'')]"

text \<open>\<open>_label_set\<close>: \<open>None\<close> is the empty tuple, a mapping its items in sorted order.\<close>

definition label_set_of :: "(string \<times> string) list option \<Rightarrow> label_set" where
  "label_set_of labels = (case labels of None \<Rightarrow> [] | Some d \<Rightarrow> sort d)"

definition metric_value :: "MetricsRegistry \<Rightarrow> metric_key \<Rightarrow> rat" where
  "metric_value m k = (case map_of (metric_values m) k of None \<Rightarrow> 0 | Some v \<Rightarrow> v)"

definition increment ::
    "string \<Rightarrow> (string \<times> string) list option \<Rightarrow> rat \<Rightarrow> MetricsRegistry \<Rightarrow> MetricsRegistry" where
  "increment name labels amount m =
     (let k = (name, label_set_of labels)
      in m\<lparr>metric_values := AList.update k (metric_value m k + amount) (metric_values m)\<rparr>)"

definition set_gauge ::
    "string \<Rightarrow> rat \<Rightarrow> (string \<times> string) list option \<Rightarrow> MetricsRegistry \<Rightarrow> MetricsRegistry" where
  "set_gauge name v labels m =
     m\<lparr>metric_values := AList.update (name, label_set_of labels) v (metric_values m)\<rparr>"

definition observe_duration ::
    "string \<Rightarrow> seconds \<Rightarrow> (string \<times> string) list \<Rightarrow> MetricsRegistry \<Rightarrow> MetricsRegistry" where
  "observe_duration name secs labels m =
     increment (name @ ''_sum'') (Some labels) secs
       (increment (name @ ''_count'') (Some labels) 1 m)"

subsection \<open>Recorders\<close>

definition record_http_request ::
    "string \<Rightarrow> string \<Rightarrow> string \<Rightarrow> seconds \<Rightarrow> MetricsRegistry \<Rightarrow> MetricsRegistry" where
  "record_http_request method route status_code_str duration m =
     (let labels = [(''method'', method), (''route'', route), (''status_code'', status_code_str)]
      in observe_duration ''http_request_duration_seconds'' duration labels
           (increment ''http_requests_total'' (Some labels) 1 m))"

definition record_job_status :: "string \<Rightarrow> MetricsRegistry \<Rightarrow> MetricsRegistry" where
  "record_job_status st m = increment ''evaluation_jobs_total'' (Some [(''status'', st)]) 1 m"

definition record_scoring_duration :: "seconds \<Rightarrow> MetricsRegistry \<Rightarrow> MetricsRegistry" where
  "record_scoring_duration d m = observe_duration ''evaluation_scoring_duration_seconds'' d [] m"

definition record_worker_recovered_jobs :: "nat \<Rightarrow> MetricsRegistry \<Rightarrow> MetricsRegistry" where
  "record_worker_recovered_jobs n m =
     increment ''evaluation_worker_recovered_jobs_total'' None (of_nat n) m"

definition record_queue_depth :: "int \<Rightarrow> MetricsRegistry \<Rightarrow> MetricsRegistry" where
  "record_queue_depth depth m =
     set_gauge ''evaluation_queue_depth'' (of_int (max depth 0)) None m"

subsection \<open>Rendering\<close>

text \<open>\<open>_escape_label\<close>: backslash first, then newline, then the double quote.\<close>

definition escape_label :: "string \<Rightarrow> string" where
  "escape_label v =
     replace_char (CHR 0x22) [CHR 0x5C, CHR 0x22]
       (replace_char (CHR 0x0A) [CHR 0x5C, CHR ''n'']
         (replace_char (CHR 0x5C) [CHR 0x5C, CHR 0x5C] v))"

definition format_labels :: "label_set \<Rightarrow> string" where
  "format_labels labels =
     (if labels = [] then []
      else ''{'' @ join '','' (map (\<lambda>(k, v). k @ ''='' @ [CHR 0x22] @ escape_label v @ [CHR 0x22]) labels)
           @ ''}'')"

text \<open>The decimal digits of a number that is not negative.\<close>

function dec_digits :: "int \<Rightarrow> string" where
  "dec_digits n = (if n < 10 then [char_of (48 + n)] else dec_digits (n div 10) @ [char_of (48 + n mod 10)])"
  by pat_completeness auto
termination
  by (relation "measure nat") auto

declare dec_digits.simps [simp del]

text \<open>The decimal exponent of a positive number: \<open>10 ^ e \<le> x < 10 ^ (e + 1)\<close>. Below 1 the search
  ends at the number of digits of the denominator.\<close>

definition pow10 :: "int \<Rightarrow> rat" where
  "pow10 e = (if 0 \<le> e then 10 ^ nat e else 1 / 10 ^ nat (- e))"

definition decimal_exponent :: "rat \<Rightarrow> int" where
  "decimal_exponent x =
     (if 1 \<le> x then int (length (dec_digits \<lfloor>x\<rfloor>)) - 1
      else (case find (\<lambda>k. 1 \<le> x * 10 ^ k) [0 ..< Suc (length (dec_digits (snd (quotient_of x))))] of
              None \<Rightarrow> 0 | Some k \<Rightarrow> - int k))"

definition drop_zeros :: "string \<Rightarrow> string" where
  "drop_zeros s = rev (dropWhile (\<lambda>c. c = CHR ''0'') (rev s))"

definition with_fraction :: "string \<Rightarrow> string \<Rightarrow> string" where
  "with_fraction whole decimals =
     (let f = drop_zeros decimals in if f = [] then whole else whole @ ''.'' @ f)"

definition format_exponent :: "int \<Rightarrow> string" where
  "format_exponent e =
     (let d = dec_digits \<bar>e\<bar>
      in ''e'' @ (if e < 0 then ''-'' else ''+'') @ (if length d < 2 then ''0'' @ d else d))"

definition format_g_pos :: "rat \<Rightarrow> string" where
  "format_g_pos x =
     (let e0 = decimal_exponent x;
          n0 = round_half_even (x * pow10 (5 - e0));
          (n, e) = (if n0 = 1000000 then (100000, e0 + 1) else (n0, e0));
          ds = dec_digits n
      in if - 4 \<le> e \<and> e < 6
         then (if 0 \<le> e then with_fraction (take (nat e + 1) ds) (drop (nat e + 1) ds)
               else with_fraction ''0'' (replicate (nat (- e) - 1) (CHR ''0'') @ ds))
         else with_fraction (take 1 ds) (drop 1 ds) @ format_exponent e)"

definition format_g :: "rat \<Rightarrow> string" where
  "format_g x =
     (if x = 0 then ''0'' else if x < 0 then ''-'' @ format_g_pos (- x) else format_g_pos x)"

definition metric_lines :: "((string \<times> label_set) \<times> rat) list \<Rightarrow> string \<Rightarrow> string list" where
  "metric_lines vs name =
     (let (metric_type, help_text) =
            (case map_of metric_metadata name of None \<Rightarrow> (''gauge'', name) | Some x \<Rightarrow> x)
      in [''# HELP '' @ name @ '' '' @ help_text, ''# TYPE '' @ name @ '' '' @ metric_type]
         @ map (\<lambda>((metric_name, labels), v). name @ format_labels labels @ '' '' @ format_g v)
             (filter (\<lambda>((metric_name, labels), v). metric_name = name) (sort vs)))"

definition render_prometheus :: "MetricsRegistry \<Rightarrow> string" where
  "render_prometheus m =
     (let vs = metric_values m;
          names = sorted_list_of_set (set (map (\<lambda>((name, labels), v). name) vs))
      in join [CHR 0x0A] (concat (map (metric_lines vs) names) @ [[]]))"

subsection \<open>Series\<close>

lemma metric_value_init [simp]: "metric_value metrics_init k = 0"
  by (simp add: metric_value_def metrics_init_def)

lemma metric_value_increment [view_simps]:
  "metric_value (increment name labels a m) k =
     metric_value m k + (if k = (name, label_set_of labels) then a else 0)"
  by (simp add: metric_value_def increment_def Let_def update_conv')

lemma metric_value_set_gauge [view_simps]:
  "metric_value (set_gauge name v labels m) k =
     (if k = (name, label_set_of labels) then v else metric_value m k)"
  by (simp add: metric_value_def set_gauge_def update_conv')

definition status_key :: "string \<Rightarrow> metric_key" where
  "status_key st = (''evaluation_jobs_total'', [(''status'', st)])"

lemma record_job_status_value [view_simps]:
  "metric_value (record_job_status st m) k = metric_value m k + (if k = status_key st then 1 else 0)"
  by (simp add: record_job_status_def view_simps status_key_def label_set_of_def)

definition queue_depth_key :: metric_key where
  "queue_depth_key = (''evaluation_queue_depth'', [])"

lemma record_queue_depth_value [view_simps]:
  "metric_value (record_queue_depth d m) k =
     (if k = queue_depth_key then of_int (max d 0) else metric_value m k)"
  by (simp add: record_queue_depth_def view_simps queue_depth_key_def label_set_of_def)

lemma record_scoring_duration_value [view_simps]:
  "fst k \<noteq> ''evaluation_scoring_duration_seconds_sum'' \<Longrightarrow>
   fst k \<noteq> ''evaluation_scoring_duration_seconds_count'' \<Longrightarrow>
     metric_value (record_scoring_duration d m) k = metric_value m k"
  by (auto simp: record_scoring_duration_def observe_duration_def view_simps)

lemma status_key_neq [simp]: "status_key st \<noteq> queue_depth_key" "queue_depth_key \<noteq> status_key st"
  "status_key a = status_key b \<longleftrightarrow> a = b"
  by (auto simp: status_key_def queue_depth_key_def)

subsection \<open>Label escaping\<close>

text \<open>The escape of one character, and the reader of a quoted label value of the Prometheus text
  format, which undoes it.\<close>

definition escape_char :: "char \<Rightarrow> string" where
  "escape_char c =
     (if c = CHR 0x5C then [CHR 0x5C, CHR 0x5C]
      else if c = CHR 0x0A then [CHR 0x5C, CHR ''n'']
      else if c = CHR 0x22 then [CHR 0x5C, CHR 0x22]
      else [c])"

fun unescape_label :: "string \<Rightarrow> string option" where
  "unescape_label [] = Some []"
| "unescape_label [c] = (if c \<in> {CHR 0x5C, CHR 0x0A, CHR 0x22} then None else Some [c])"
| "unescape_label (c # d # cs) =
     (if c = CHR 0x5C
      then map_option (Cons (if d = CHR ''n'' then CHR 0x0A else d)) (unescape_label cs)
      else if c = CHR 0x0A \<or> c = CHR 0x22 then None
      else map_option (Cons c) (unescape_label (d # cs)))"

lemma replace_char_append [simp]:
  "replace_char a new [] = []" "replace_char a new (s @ t) = replace_char a new s @ replace_char a new t"
  by (simp_all add: replace_char_def)

lemma replace_char_Cons:
  "replace_char a new (c # s) = (if c = a then new else [c]) @ replace_char a new s"
  by (simp add: replace_char_def)

lemma escape_label_chars: "escape_label v = concat (map escape_char v)"
proof (induction v)
  case Nil
  show ?case by (simp add: escape_label_def)
next
  case (Cons c v)
  have "escape_label (c # v) = escape_char c @ escape_label v"
    by (simp add: escape_label_def escape_char_def replace_char_Cons)
  with Cons show ?case by simp
qed

lemma unescape_escape_char:
  "unescape_label (escape_char c @ s) = map_option (Cons c) (unescape_label s)"
  by (cases s) (auto simp: escape_char_def)

text \<open>Label values survive the rendering: the three successive replacements of
  \<open>_escape_label\<close> escape each character on its own (backslash first is the order that does), and
  reading the escaped text back as a quoted Prometheus label value gives the original value, for
  every value, so distinct label values never render alike and none can break out of its quotes.\<close>

lemma escape_label_roundtrip:
  "escape_label v = concat (map escape_char v) \<and> unescape_label (escape_label v) = Some v"
proof -
  have "unescape_label (concat (map escape_char v)) = Some v"
    by (induction v) (simp_all add: unescape_escape_char)
  then show ?thesis by (simp add: escape_label_chars)
qed

end
