(* ===== verification/Runtime.thy ===== *)
theory Runtime
  imports Repository Metrics
begin

text \<open>
  The state a process of the service works on, and the small components that every operation
  touches: the audit recorder (\<^verbatim>\<open>app/core/audit.py\<close>), spans (\<open>traced_span\<close> of
  \<^verbatim>\<open>app/core/tracing.py\<close>), log calls, and the in-memory job queue's data.

  \<open>world\<close> is polymorphic in the repository's state. It holds the repository, the queue, the
  recorded audit events, the process-wide metrics registry, the spans started and the log calls
  made so far, the wall clock, and the readings that \<open>time.perf_counter\<close> will give. The
  operations of the service are functions on it.
\<close>

datatype attribute_value = AStr string | ABool bool

type_synonym span = "string \<times> (string \<times> attribute_value) list"

record AuditEvent =
  event_type :: string
  ev_tenant_id :: string
  ev_project_id :: string
  ev_job_id :: string
  ev_created_at :: datetime
  ev_metadata :: "(string \<times> json) list"

text \<open>The values of a log call's \<open>extra\<close>: strings, counts, and \<open>repr\<close> of an exception.\<close>

datatype extra_value = LStr string | LInt int | LRepr exn

record log_call =
  log_level :: string
  log_message :: string
  log_extra :: "(string \<times> extra_value) list"
  log_exc_info :: "exn option"

text \<open>\<open>asyncio.Task | None\<close> of the queue's consumer: no task yet, one about to check the loop
  condition, one waiting in \<open>get\<close> on the empty queue, one running the handler on a job, one that
  is done. \<open>queue_unfinished\<close> is the counter of \<open>asyncio.Queue\<close> that \<open>put\<close> raises and \<open>task_done\<close>
  lowers, and that \<open>join\<close> waits for.\<close>

datatype task_state = NoTask | TaskLooping | TaskWaiting | TaskHandling uuid | TaskDone

record InMemoryJobQueue =
  queue_items :: "uuid option list"
  queue_unfinished :: int
  queue_task :: task_state
  queue_stopping :: bool

definition queue_init :: InMemoryJobQueue where
  "queue_init =
     \<lparr>queue_items = [], queue_unfinished = 0, queue_task = NoTask, queue_stopping = False\<rparr>"

record 's world =
  repository :: 's
  queue :: InMemoryJobQueue
  audit_events :: "AuditEvent list"
  metrics :: MetricsRegistry
  spans :: "span list"
  logs :: "log_call list"
  wall :: clock
  perf :: "nat \<Rightarrow> seconds"

definition world_init :: "'s \<Rightarrow> clock \<Rightarrow> (nat \<Rightarrow> seconds) \<Rightarrow> 's world" where
  "world_init s c p =
     \<lparr>repository = s, queue = queue_init, audit_events = [], metrics = metrics_init, spans = [],
      logs = [], wall = c, perf = p\<rparr>"

text \<open>A call of a repository method that reads the clock.\<close>

definition call :: "(clock \<Rightarrow> 's \<Rightarrow> 'a \<times> 's \<times> clock) \<Rightarrow> 's world \<Rightarrow> 'a \<times> 's world" where
  "call f w = (case f (wall w) (repository w) of (r, s, c) \<Rightarrow> (r, w\<lparr>repository := s, wall := c\<rparr>))"

definition with_metrics :: "(MetricsRegistry \<Rightarrow> MetricsRegistry) \<Rightarrow> 's world \<Rightarrow> 's world" where
  "with_metrics f w = w\<lparr>metrics := f (metrics w)\<rparr>"

definition emit_log :: "string \<Rightarrow> string \<Rightarrow> (string \<times> extra_value) list \<Rightarrow> exn option \<Rightarrow> 's world \<Rightarrow> 's world" where
  "emit_log level msg extra exc w =
     w\<lparr>logs := logs w @ [\<lparr>log_level = level, log_message = msg, log_extra = extra,
                           log_exc_info = exc\<rparr>]\<rparr>"

text \<open>\<open>traced_span\<close>: starts a span and sets the attributes that are not \<open>None\<close>.\<close>

definition traced_span :: "string \<Rightarrow> (string \<times> attribute_value option) list \<Rightarrow> 's world \<Rightarrow> 's world" where
  "traced_span name attributes w =
     w\<lparr>spans := spans w @
         [(name, map (\<lambda>(k, v). (k, the v)) (filter (\<lambda>(k, v). v \<noteq> None) attributes))]\<rparr>"

text \<open>\<open>AuditRecorder.record\<close>.\<close>

definition audit_record ::
    "string \<Rightarrow> string \<Rightarrow> string \<Rightarrow> string \<Rightarrow> (string \<times> json) list \<Rightarrow> 's world \<Rightarrow> 's world" where
  "audit_record etype tenant project jid metadata w =
     (let (t, c) = now (wall w);
          event = \<lparr>event_type = etype, ev_tenant_id = tenant, ev_project_id = project,
                   ev_job_id = jid, ev_created_at = t, ev_metadata = metadata\<rparr>;
          w1 = w\<lparr>wall := c, audit_events := audit_events w @ [event]\<rparr>
      in emit_log ''INFO'' ''audit event recorded''
           [(''event_type'', LStr etype), (''tenant_id'', LStr tenant),
            (''project_id'', LStr project), (''job_id'', LStr jid)] None w1)"

text \<open>\<open>asyncio.Queue.put\<close> on an unbounded queue never waits.\<close>

definition queue_put :: "uuid option \<Rightarrow> 's world \<Rightarrow> 's world" where
  "queue_put x w =
     w\<lparr>queue := (queue w)\<lparr>queue_items := queue_items (queue w) @ [x],
                          queue_unfinished := queue_unfinished (queue w) + 1\<rparr>\<rparr>"

definition qsize :: "'s world \<Rightarrow> int" where
  "qsize w = int (length (queue_items (queue w)))"

definition enqueue :: "uuid \<Rightarrow> 's world \<Rightarrow> 's world" where
  "enqueue i w =
     (let w1 = queue_put (Some i) w in with_metrics (record_queue_depth (qsize w1)) w1)"

subsection \<open>What each of them leaves alone\<close>

lemma repository_frame [simp]:
  "repository (with_metrics f w) = repository w" "repository (emit_log lv ms ex er w) = repository w"
  "repository (traced_span n a w) = repository w" "repository (audit_record et tn pj ji md w) = repository w"
  "repository (queue_put x w) = repository w" "repository (enqueue i w) = repository w"
  by (simp_all add: with_metrics_def emit_log_def traced_span_def audit_record_def queue_put_def
      enqueue_def Let_def now_eq)

lemma queue_frame [simp]:
  "queue (with_metrics f w) = queue w" "queue (emit_log lv ms ex er w) = queue w"
  "queue (traced_span n a w) = queue w" "queue (audit_record et tn pj ji md w) = queue w"
  by (simp_all add: with_metrics_def emit_log_def traced_span_def audit_record_def Let_def now_eq)

lemma metrics_frame [simp]:
  "metrics (with_metrics f w) = f (metrics w)" "metrics (emit_log lv ms ex er w) = metrics w"
  "metrics (traced_span n a w) = metrics w" "metrics (audit_record et tn pj ji md w) = metrics w"
  "metrics (queue_put x w) = metrics w"
  by (simp_all add: with_metrics_def emit_log_def traced_span_def audit_record_def queue_put_def
      Let_def now_eq)

lemma audit_frame [simp]:
  "audit_events (with_metrics f w) = audit_events w" "audit_events (emit_log lv ms ex er w) = audit_events w"
  "audit_events (traced_span n a w) = audit_events w" "audit_events (queue_put x w) = audit_events w"
  "audit_events (enqueue i w) = audit_events w"
  by (simp_all add: with_metrics_def emit_log_def traced_span_def queue_put_def enqueue_def Let_def)

lemma wall_frame [simp]:
  "wall (with_metrics f w) = wall w" "wall (emit_log lv ms ex er w) = wall w"
  "wall (traced_span n a w) = wall w" "wall (queue_put x w) = wall w" "wall (enqueue i w) = wall w"
  "wall (audit_record et tn pj ji md w) = shift 1 (wall w)"
  by (simp_all add: with_metrics_def emit_log_def traced_span_def queue_put_def enqueue_def
      audit_record_def Let_def now_eq)

lemma audit_events_record [simp]:
  "audit_events (audit_record etype tenant project jid md w) =
     audit_events w @
     [\<lparr>event_type = etype, ev_tenant_id = tenant, ev_project_id = project, ev_job_id = jid,
       ev_created_at = wall w 0, ev_metadata = md\<rparr>]"
  by (simp add: audit_record_def emit_log_def Let_def now_eq)

lemma queue_put_items [simp]:
  "queue_items (queue (queue_put x w)) = queue_items (queue w) @ [x]"
  "queue_items (queue (enqueue i w)) = queue_items (queue w) @ [Some i]"
  by (simp_all add: queue_put_def enqueue_def Let_def with_metrics_def)

lemma queue_put_frame [simp]:
  "queue_unfinished (queue (queue_put x w)) = queue_unfinished (queue w) + 1"
  "queue_task (queue (queue_put x w)) = queue_task (queue w)"
  "queue_stopping (queue (queue_put x w)) = queue_stopping (queue w)"
  "queue (enqueue i w) = queue (queue_put (Some i) w)"
  by (simp_all add: queue_put_def enqueue_def Let_def with_metrics_def)

lemma metrics_enqueue [view_simps]:
  "metrics (enqueue i w) = record_queue_depth (qsize w + 1) (metrics w)"
  by (simp add: enqueue_def Let_def qsize_def add.commute)

lemma call_frame [simp]:
  "queue (snd (call f w)) = queue w" "audit_events (snd (call f w)) = audit_events w"
  "metrics (snd (call f w)) = metrics w"
  by (simp_all add: call_def split: prod.split)

lemma call_eq: "f (wall w) (repository w) = (r, s, c) \<Longrightarrow> call f w = (r, w\<lparr>repository := s, wall := c\<rparr>)"
  by (simp add: call_def)

end
