(* ===== verification/JobService.thy ===== *)
theory JobService
  imports Runtime
begin

text \<open>
  \<^verbatim>\<open>app/services/job_service.py\<close>: submitting, reading and processing evaluation jobs.

  The service is built around a repository and an evaluator it is given. Here they are arguments:
  \<open>R\<close> is the repository's record of operations, and \<open>sc\<close> is \<open>self.evaluator.score\<close>, any
  function that takes a request and the world and returns a result or an exception and the new
  world. Awaiting the evaluator is the one point where \<open>process\<close> and \<open>process_claimed\<close> let
  other tasks run, so whatever those do meanwhile to the repository, the queue or the metrics is
  part of \<open>sc\<close>'s effect on the world.

  The lemmas about the service are proved once, in the locale \<open>job_service\<close>, for every repository
  that meets the contract of \<open>job_repository\<close>.
\<close>

type_synonym 's scorer = "EvaluationRequest \<Rightarrow> 's world \<Rightarrow> (exn + EvaluationResult) \<times> 's world"

definition job_attributes :: "string \<Rightarrow> string \<Rightarrow> uuid \<Rightarrow> (string \<times> attribute_value option) list" where
  "job_attributes tenant project i =
     [(''tenant_id'', Some (AStr tenant)), (''project_id'', Some (AStr project)),
      (''job_id'', Some (AStr (uuid_str i)))]"

definition submit ::
    "'s repo_ops \<Rightarrow> uuid \<Rightarrow> EvaluationRequest \<Rightarrow> 's world \<Rightarrow> (exn + EvaluationJob) \<times> 's world" where
  "submit R new_id req w =
     (let (job, c) = new_EvaluationJob new_id (rq_tenant_id req) (rq_project_id req) QUEUED req (wall w);
          w1 = traced_span ''job.create'' (job_attributes (rq_tenant_id req) (rq_project_id req) (job_id job))
                 (w\<lparr>wall := c\<rparr>)
      in case create_op R job (repository w1) of
           (Inl e, s) \<Rightarrow> (Inl e, w1\<lparr>repository := s\<rparr>)
         | (Inr _, s) \<Rightarrow>
             (let w2 = enqueue (job_id job) (w1\<lparr>repository := s\<rparr>);
                  w3 = audit_record ''evaluation.job_queued'' (tenant_id job) (project_id job)
                         (uuid_str (job_id job)) [] w2
              in (Inr job, with_metrics (record_job_status (status_value QUEUED)) w3)))"

definition service_get :: "'s repo_ops \<Rightarrow> uuid \<Rightarrow> 's world \<Rightarrow> exn + EvaluationJob" where
  "service_get R i w = get_op R i (repository w)"

definition service_get_for_tenant ::
    "'s repo_ops \<Rightarrow> uuid \<Rightarrow> string \<Rightarrow> 's world \<Rightarrow> exn + EvaluationJob" where
  "service_get_for_tenant R i tenant w = get_for_tenant_op R i tenant (repository w)"

definition service_list_recent ::
    "'s repo_ops \<Rightarrow> string \<Rightarrow> string option \<Rightarrow> int \<Rightarrow> 's world \<Rightarrow> exn + EvaluationJob list" where
  "service_list_recent R tenant project limit w =
     list_recent_op R tenant project limit (repository w)"

text \<open>\<open>_record_failure\<close> never raises: a failing \<open>set_failed\<close> is logged and swallowed.\<close>

definition record_failure ::
    "'s repo_ops \<Rightarrow> EvaluationJob \<Rightarrow> string \<Rightarrow> exn \<Rightarrow> 's world \<Rightarrow> 's world" where
  "record_failure R job message original_error w =
     (case call (set_failed_op R (job_id job) message) w of
        (Inl e, w1) \<Rightarrow>
          emit_log ''ERROR'' ''failed to persist evaluation job failure''
            [(''job_id'', LStr (uuid_str (job_id job))), (''original_error'', LRepr original_error)]
            (Some e) w1
      | (Inr _, w1) \<Rightarrow>
          with_metrics (record_job_status (status_value FAILED))
            (audit_record ''evaluation.job_failed'' (tenant_id job) (project_id job)
               (uuid_str (job_id job)) [] w1))"

text \<open>The part of the \<open>try\<close> body that \<open>process\<close> and \<open>process_claimed\<close> share: the audit event
  for the running job, scoring, storing the result, the audit event for the success, the log entry
  and the status counter.\<close>

definition score_and_store ::
    "'s repo_ops \<Rightarrow> 's scorer \<Rightarrow> uuid \<Rightarrow> EvaluationJob \<Rightarrow> 's world \<Rightarrow> (exn + unit) \<times> 's world" where
  "score_and_store R sc i job w =
     (let w1 = audit_record ''evaluation.job_running'' (tenant_id job) (project_id job) (uuid_str i) [] w
      in case sc (request job) w1 of
           (Inl e, w2) \<Rightarrow> (Inl e, w2)
         | (Inr res, w2) \<Rightarrow>
             (case call (set_succeeded_op R i res) w2 of
                (Inl e, w3) \<Rightarrow> (Inl e, w3)
              | (Inr updated, w3) \<Rightarrow>
                  (let w4 = audit_record ''evaluation.job_succeeded'' (tenant_id updated)
                              (project_id updated) (uuid_str i) [(''score'', JInt (score res))] w3;
                       w5 = emit_log ''INFO'' ''evaluation job succeeded''
                              [(''tenant_id'', LStr (tenant_id updated)),
                               (''project_id'', LStr (project_id updated)),
                               (''job_id'', LStr (uuid_str i))] None w4
                   in (Inr (), with_metrics (record_job_status (status_value SUCCEEDED)) w5))))"

text \<open>The \<open>except Exception\<close> clause: record the failure, log it, raise again.\<close>

definition reraise_failure ::
    "'s repo_ops \<Rightarrow> uuid \<Rightarrow> EvaluationJob \<Rightarrow> exn \<Rightarrow> 's world \<Rightarrow> (exn + unit) \<times> 's world" where
  "reraise_failure R i job e w =
     (Inl e, emit_log ''ERROR'' ''evaluation job failed'' [(''job_id'', LStr (uuid_str i))] (Some e)
               (record_failure R job ''Evaluation failed.'' e w))"

definition process :: "'s repo_ops \<Rightarrow> 's scorer \<Rightarrow> uuid \<Rightarrow> 's world \<Rightarrow> (exn + unit) \<times> 's world" where
  "process R sc i w =
     (case get_op R i (repository w) of
        Inl e \<Rightarrow> (Inl e, w)
      | Inr job \<Rightarrow>
          (let w1 = traced_span ''job.process'' (job_attributes (tenant_id job) (project_id job) i) w
           in case call (set_running_op R i) w1 of
                (Inl e, w2) \<Rightarrow> reraise_failure R i job e w2
              | (Inr _, w2) \<Rightarrow>
                  (case score_and_store R sc i job w2 of
                     (Inl e, w3) \<Rightarrow> reraise_failure R i job e w3
                   | (Inr u, w3) \<Rightarrow> (Inr u, w3))))"

definition process_claimed ::
    "'s repo_ops \<Rightarrow> 's scorer \<Rightarrow> EvaluationJob \<Rightarrow> 's world \<Rightarrow> (exn + unit) \<times> 's world" where
  "process_claimed R sc job w =
     (let w1 = traced_span ''job.process'' (job_attributes (tenant_id job) (project_id job) (job_id job)) w
      in case score_and_store R sc (job_id job) job w1 of
           (Inl e, w2) \<Rightarrow> reraise_failure R (job_id job) job e w2
         | (Inr u, w2) \<Rightarrow> (Inr u, w2))"

subsection \<open>Event types\<close>

definition events_of :: "uuid \<Rightarrow> 's world \<Rightarrow> string list" where
  "events_of i w = map event_type (filter (\<lambda>e. ev_job_id e = uuid_str i) (audit_events w))"

lemma events_of_frame [simp]:
  "events_of i (with_metrics f w) = events_of i w" "events_of i (emit_log lv ms ex er w) = events_of i w"
  "events_of i (traced_span n a w) = events_of i w" "events_of i (enqueue k w) = events_of i w"
  "events_of i (snd (call g w)) = events_of i w"
  "events_of i (w\<lparr>repository := s, wall := c\<rparr>) = events_of i w"
  by (simp_all add: events_of_def)

lemma events_of_record [simp]:
  "events_of i (audit_record et tn pj ji md w) =
     events_of i w @ (if ji = uuid_str i then [et] else [])"
  by (simp add: events_of_def)

lemma events_of_call: "call g w = (r, w') \<Longrightarrow> events_of i w' = events_of i w"
  using events_of_frame(5) [of i g w] by simp

lemma metrics_call: "call g w = (r, w') \<Longrightarrow> metrics w' = metrics w"
  using call_frame(3) [of g w] by simp

subsection \<open>Processing, for every repository that meets the contract\<close>

text \<open>An evaluator call that leaves the stored job \<open>i\<close> and the representation invariant alone,
  whatever else happens while it is awaited.\<close>

definition undisturbed ::
    "('s \<Rightarrow> store) \<Rightarrow> ('s \<Rightarrow> bool) \<Rightarrow> uuid \<Rightarrow> EvaluationRequest \<Rightarrow> 's scorer \<Rightarrow> bool" where
  "undisturbed view invar i req sc \<longleftrightarrow>
     (\<forall>w r w'. sc req w = (r, w') \<longrightarrow> invar (repository w) \<longrightarrow>
        invar (repository w') \<and> view (repository w') i = view (repository w) i \<and>
        events_of i w' = events_of i w)"

text \<open>The service on any repository that meets the contract.\<close>

locale job_service = job_repository ops view invar fits settle
  for ops :: "'s repo_ops" and view :: "'s \<Rightarrow> store" and invar :: "'s \<Rightarrow> bool"
    and fits :: "string \<Rightarrow> bool" and settle :: "datetime option \<Rightarrow> datetime option"
begin

lemma submit_law:
  assumes "invar (repository w)" and "valid_EvaluationRequest req"
    and "view (repository w) new_id = None" and "request_fits fits req"
  shows "\<exists>job w'. submit ops new_id req w = (Inr job, w') \<and> fresh_job job \<and> job_id job = new_id \<and>
      request job = req \<and> invar (repository w') \<and>
      view (repository w') = (view (repository w))(new_id \<mapsto> job) \<and>
      queue_items (queue w') = queue_items (queue w) @ [Some new_id] \<and>
      events_of new_id w' = events_of new_id w @ [''evaluation.job_queued''] \<and>
      metrics w' = record_job_status ''queued'' (record_queue_depth (qsize w + 1) (metrics w))"
proof -
  obtain job c where new: "new_EvaluationJob new_id (rq_tenant_id req) (rq_project_id req) QUEUED req
      (wall w) = (job, c)"
    by (cases "new_EvaluationJob new_id (rq_tenant_id req) (rq_project_id req) QUEUED req (wall w)")
  have fresh: "fresh_job job" and id: "job_id job = new_id" and rq: "request job = req"
    using new_EvaluationJob_fresh [OF assms(2), of new_id "wall w"] new
    by (auto simp: new_EvaluationJob_def now_eq)
  moreover have "job_fits fits job"
    using new assms(4) by (auto simp: job_fits_def request_fits_def new_EvaluationJob_def now_eq)
  ultimately obtain s' where s': "create_op ops job (repository w) = (Inr job, s')" "invar s'"
      "view s' = (view (repository w))(new_id \<mapsto> job)"
    using create_law [OF assms(1), of job] assms(3) by (auto simp: fresh_job_def)
  show ?thesis
    using fresh id rq s' by (simp add: submit_def new Let_def view_simps qsize_def events_of_def)
qed

lemma undisturbedD:
  assumes "undisturbed view invar i req sc" and "sc req w = (r, w')" and "invar (repository w)"
  shows "invar (repository w')" and "view (repository w') i = view (repository w) i"
    and "events_of i w' = events_of i w"
  using assms by (auto simp: undisturbed_def)

lemma failure_message_fits [simp]: "fits ''Evaluation failed.''"
  by (rule fits_plain) simp

lemma record_failure_law:
  assumes "invar (repository w)" and "view (repository w) (job_id job) = Some j" and "\<not> final j"
    and "fits m"
  shows "\<exists>t. invar (repository (record_failure ops job m e w)) \<and>
      view (repository (record_failure ops job m e w)) =
        (view (repository w))(job_id job \<mapsto> failed m (settle (claimed_at j)) t j) \<and>
      events_of (job_id job) (record_failure ops job m e w) =
        events_of (job_id job) w @ [''evaluation.job_failed''] \<and>
      metrics (record_failure ops job m e w) = record_job_status ''failed'' (metrics w)"
proof -
  from set_failed_law [OF assms, of "wall w"] obtain t s' c' where
    "set_failed_op ops (job_id job) m (wall w) (repository w) =
       (Inr (failed m (settle (claimed_at j)) t j), s', c')" "invar s'"
    "view s' = (view (repository w))(job_id job \<mapsto> failed m (settle (claimed_at j)) t j)"
    by blast
  then show ?thesis
    by (auto simp: record_failure_def call_eq events_of_def)
qed

lemma record_failure_final:
  assumes "invar (repository w)" and "view (repository w) (job_id job) = Some j" and "final j"
  shows "repository (record_failure ops job m e w) = repository w"
    and "events_of k (record_failure ops job m e w) = events_of k w"
    and "metrics (record_failure ops job m e w) = metrics w"
  using set_failed_rejected [OF assms, of m "wall w"]
  by (simp_all add: record_failure_def call_eq events_of_def)

lemma score_and_store_law:
  assumes inv: "invar (repository w)" and v: "view (repository w) i = Some j" and run: "status j = RUNNING"
    and und: "undisturbed view invar i (request job) sc"
    and res: "\<And>w. fst (sc (request job) w) = Inr res" and val: "valid_EvaluationResult res" "fits (justification res)"
  shows "\<exists>w' t. score_and_store ops sc i job w = (Inr (), w') \<and> invar (repository w') \<and>
      view (repository w') i = Some (succeeded res (settle (claimed_at j)) t j) \<and>
      events_of i w' = events_of i w @ [''evaluation.job_running'', ''evaluation.job_succeeded'']"
proof -
  define w1 where "w1 = audit_record ''evaluation.job_running'' (tenant_id job) (project_id job)
    (uuid_str i) [] w"
  obtain w2 where sc: "sc (request job) w1 = (Inr res, w2)"
    using res [of w1] by (cases "sc (request job) w1") auto
  have w1: "invar (repository w1)" "view (repository w1) i = Some j"
    using inv v by (simp_all add: w1_def)
  note w2 = undisturbedD [OF und sc w1(1)]
  from set_succeeded_law [OF w2(1), of i j res "wall w2"] w1(2) w2(2) run val obtain t s' c' where
    "set_succeeded_op ops i res (wall w2) (repository w2) =
       (Inr (succeeded res (settle (claimed_at j)) t j), s', c')" "invar s'"
    "view s' = (view (repository w2))(i \<mapsto> succeeded res (settle (claimed_at j)) t j)"
    by auto
  moreover have "events_of i w2 = events_of i w @ [''evaluation.job_running'']"
    using w2(3) by (simp add: w1_def)
  ultimately show ?thesis
    using sc by (simp add: score_and_store_def w1_def [symmetric] call_eq Let_def) blast
qed

lemma score_and_store_raise:
  assumes inv: "invar (repository w)"
    and und: "undisturbed view invar i (request job) sc"
    and res: "\<And>w. fst (sc (request job) w) = Inl e"
  shows "\<exists>w'. score_and_store ops sc i job w = (Inl e, w') \<and> invar (repository w') \<and>
      view (repository w') i = view (repository w) i \<and>
      events_of i w' = events_of i w @ [''evaluation.job_running'']"
proof -
  define w1 where "w1 = audit_record ''evaluation.job_running'' (tenant_id job) (project_id job)
    (uuid_str i) [] w"
  obtain w2 where sc: "sc (request job) w1 = (Inl e, w2)"
    using res [of w1] by (cases "sc (request job) w1") auto
  have "invar (repository w1)" using inv by (simp add: w1_def)
  note w2 = undisturbedD [OF und sc this]
  with sc show ?thesis
    by (simp add: score_and_store_def w1_def [symmetric] Let_def) (simp add: w1_def)
qed

lemma set_running_call:
  assumes "invar (repository w)" and "view (repository w) i = Some j" and "status j = QUEUED"
  shows "\<exists>t w'. call (set_running_op ops i) w = (Inr (started t j), w') \<and> invar (repository w') \<and>
      view (repository w') = (view (repository w))(i \<mapsto> started t j) \<and> events_of k w' = events_of k w"
proof -
  from set_running_law [OF assms, of "wall w"] obtain t s' c' where
    "set_running_op ops i (wall w) (repository w) = (Inr (started t j), s', c')" "invar s'"
    "view s' = (view (repository w))(i \<mapsto> started t j)"
    by blast
  then show ?thesis by (simp add: call_eq) blast
qed

lemma process_missing:
  assumes "invar (repository w)" and "view (repository w) i = None"
  shows "process ops sc i w = (Inl raise_NotFound, w)"
  using assms by (simp add: process_def get_law)

lemma process_succeeds:
  assumes inv: "invar (repository w)" and v: "view (repository w) i = Some j" and q: "status j = QUEUED"
    and und: "undisturbed view invar i (request j) sc"
    and res: "\<And>w. fst (sc (request j) w) = Inr res" and val: "valid_EvaluationResult res" "fits (justification res)"
  shows "\<exists>w' t0 t. process ops sc i w = (Inr (), w') \<and> invar (repository w') \<and>
      view (repository w') i = Some (succeeded res (settle (claimed_at j)) t (started t0 j)) \<and>
      events_of i w' = events_of i w @ [''evaluation.job_running'', ''evaluation.job_succeeded'']"
proof -
  define w1 where "w1 = traced_span ''job.process'' (job_attributes (tenant_id j) (project_id j) i) w"
  have w1: "invar (repository w1)" "view (repository w1) i = Some j" "events_of i w1 = events_of i w"
    using inv v by (simp_all add: w1_def)
  from set_running_call [OF w1(1,2) q, of i] obtain t0 w2 where
    w2: "call (set_running_op ops i) w1 = (Inr (started t0 j), w2)" "invar (repository w2)"
      "view (repository w2) i = Some (started t0 j)" "events_of i w2 = events_of i w"
    using w1(3) by auto
  have st: "status (started t0 j) = RUNNING" "claimed_at (started t0 j) = claimed_at j"
    by (simp_all add: started_def)
  from score_and_store_law [OF w2(2,3) st(1) und res val] obtain w3 t where
    "score_and_store ops sc i j w2 = (Inr (), w3)" "invar (repository w3)"
    "view (repository w3) i = Some (succeeded res (settle (claimed_at j)) t (started t0 j))"
    "events_of i w3 = events_of i w2 @ [''evaluation.job_running'', ''evaluation.job_succeeded'']"
    by (auto simp: st)
  with w2 v inv show ?thesis
    by (simp add: process_def get_law w1_def [symmetric] Let_def) blast
qed

lemma process_evaluator_fails:
  assumes inv: "invar (repository w)" and v: "view (repository w) i = Some j" and q: "status j = QUEUED"
    and und: "undisturbed view invar i (request j) sc"
    and res: "\<And>w. fst (sc (request j) w) = Inl e"
  shows "\<exists>w' t0 t. process ops sc i w = (Inl e, w') \<and> invar (repository w') \<and>
      view (repository w') i = Some (failed ''Evaluation failed.'' (settle (claimed_at j)) t (started t0 j)) \<and>
      events_of i w' = events_of i w @ [''evaluation.job_running'', ''evaluation.job_failed'']"
proof -
  define w1 where "w1 = traced_span ''job.process'' (job_attributes (tenant_id j) (project_id j) i) w"
  have w1: "invar (repository w1)" "view (repository w1) i = Some j" "events_of i w1 = events_of i w"
    using inv v by (simp_all add: w1_def)
  from set_running_call [OF w1(1,2) q, of i] obtain t0 w2 where
    w2: "call (set_running_op ops i) w1 = (Inr (started t0 j), w2)" "invar (repository w2)"
      "view (repository w2) i = Some (started t0 j)" "events_of i w2 = events_of i w"
    using w1(3) by auto
  from score_and_store_raise [OF w2(2) und res] obtain w3 where
    w3: "score_and_store ops sc i j w2 = (Inl e, w3)" "invar (repository w3)"
      "view (repository w3) i = Some (started t0 j)"
      "events_of i w3 = events_of i w2 @ [''evaluation.job_running'']"
    using w2(3) by auto
  have id: "job_id j = i" using inv v by (rule view_key)
  have nf: "\<not> final (started t0 j)" by (simp add: final_def started_def)
  have ca: "claimed_at (started t0 j) = claimed_at j" by (simp add: started_def)
  from record_failure_law [of w3 j "started t0 j" "''Evaluation failed.''" e] w3 nf id ca obtain t where
    "invar (repository (record_failure ops j ''Evaluation failed.'' e w3))"
    "view (repository (record_failure ops j ''Evaluation failed.'' e w3)) i =
       Some (failed ''Evaluation failed.'' (settle (claimed_at j)) t (started t0 j))"
    "events_of i (record_failure ops j ''Evaluation failed.'' e w3) =
       events_of i w3 @ [''evaluation.job_failed'']"
    by auto
  then show ?thesis
    using w2 v inv w3
    by (simp add: process_def get_law w1_def [symmetric] Let_def reraise_failure_def) blast
qed

lemma process_not_queued:
  assumes inv: "invar (repository w)" and v: "view (repository w) i = Some j" and q: "status j \<noteq> QUEUED"
  shows "\<exists>w' t. process ops sc i w = (Inl raise_InvalidStateTransition, w') \<and> invar (repository w') \<and>
      view (repository w') =
        (if final j then view (repository w)
         else (view (repository w))(i \<mapsto> failed ''Evaluation failed.'' (settle (claimed_at j)) t j))"
proof -
  define w1 where "w1 = traced_span ''job.process'' (job_attributes (tenant_id j) (project_id j) i) w"
  have w1: "invar (repository w1)" "view (repository w1) i = Some j" "repository w1 = repository w"
    using inv v by (simp_all add: w1_def)
  have id: "job_id j = i" using inv v by (rule view_key)
  have c: "call (set_running_op ops i) w1 = (Inl raise_InvalidStateTransition, w1)"
    using set_running_rejected [OF w1(1,2) q] by (simp add: call_eq)
  have p: "process ops sc i w = reraise_failure ops i j raise_InvalidStateTransition w1"
    using inv v c by (simp add: process_def get_law w1_def [symmetric] Let_def)
  show ?thesis
  proof (cases "final j")
    case True
    with record_failure_final(1) [of w1 j j] w1 id show ?thesis
      by (simp add: p reraise_failure_def)
  next
    case False
    with record_failure_law [of w1 j j "''Evaluation failed.''" raise_InvalidStateTransition] w1 id
    show ?thesis by (auto simp: p reraise_failure_def)
  qed
qed

lemma process_claimed_succeeds:
  assumes inv: "invar (repository w)" and v: "view (repository w) (job_id job) = Some j"
    and run: "status j = RUNNING"
    and und: "undisturbed view invar (job_id job) (request job) sc"
    and res: "\<And>w. fst (sc (request job) w) = Inr res" and val: "valid_EvaluationResult res" "fits (justification res)"
  shows "\<exists>w' t. process_claimed ops sc job w = (Inr (), w') \<and> invar (repository w') \<and>
      view (repository w') (job_id job) = Some (succeeded res (settle (claimed_at j)) t j) \<and>
      events_of (job_id job) w' =
        events_of (job_id job) w @ [''evaluation.job_running'', ''evaluation.job_succeeded'']"
proof -
  define w1 where "w1 = traced_span ''job.process''
    (job_attributes (tenant_id job) (project_id job) (job_id job)) w"
  have "invar (repository w1)" "view (repository w1) (job_id job) = Some j"
    using inv v by (simp_all add: w1_def)
  from score_and_store_law [OF this run und res val] show ?thesis
    by (auto simp: process_claimed_def w1_def [symmetric] Let_def) (auto simp: w1_def)
qed

lemma process_claimed_fails:
  assumes inv: "invar (repository w)" and v: "view (repository w) (job_id job) = Some j"
    and nf: "\<not> final j"
    and und: "undisturbed view invar (job_id job) (request job) sc"
    and res: "\<And>w. fst (sc (request job) w) = Inl e"
  shows "\<exists>w' t. process_claimed ops sc job w = (Inl e, w') \<and> invar (repository w') \<and>
      view (repository w') (job_id job) =
        Some (failed ''Evaluation failed.'' (settle (claimed_at j)) t j)"
proof -
  define w1 where "w1 = traced_span ''job.process''
    (job_attributes (tenant_id job) (project_id job) (job_id job)) w"
  have "invar (repository w1)" and v1: "view (repository w1) (job_id job) = Some j"
    using inv v by (simp_all add: w1_def)
  from score_and_store_raise [OF this(1) und res] v1 obtain w2 where
    w2: "score_and_store ops sc (job_id job) job w1 = (Inl e, w2)" "invar (repository w2)"
      "view (repository w2) (job_id job) = Some j"
    by auto
  from record_failure_law [OF w2(2,3) nf, of "''Evaluation failed.''" e] w2(1) show ?thesis
    by (auto simp: process_claimed_def w1_def [symmetric] Let_def reraise_failure_def)
qed

end

end
