(* ===== verification/Routes.thy ===== *)
theory Routes
  imports Auth RateLimit JobService
begin

text \<open>
  \<^verbatim>\<open>app/api/routes.py\<close>, \<^verbatim>\<open>app/api/health.py\<close> and \<^verbatim>\<open>app/api/metrics.py\<close>: the
  request handlers.

  \<open>app_state\<close> is what a handler reaches through \<open>request.app.state\<close>: the service's world, the
  rate limiter, and the readings that \<open>time.monotonic\<close> will give. A \<open>route_request\<close> is what the
  handlers read of a request. FastAPI has validated the body and the query parameters against their
  declared constraints before a handler runs (\<open>valid_SubmitEvaluationRequest\<close>, \<open>valid_query\<close>) and
  has called \<open>get_request_context\<close>, whose result the handlers take as \<open>context\<close>; the endpoints
  put the two together. An exception that leaves a handler becomes a response in
  \<open>handle_exception\<close>.
\<close>

record 's app_state =
  app_world :: "'s world"
  rate_limiter :: InMemoryRateLimiter
  monotonic :: "nat \<Rightarrow> seconds"

record route_request =
  rr_client :: http_client
  rr_request_id :: string
  rr_authorization :: "string option"

definition check_rate_limit ::
    "Settings \<Rightarrow> route_request \<Rightarrow> string \<Rightarrow> int \<Rightarrow> string option \<Rightarrow> 's app_state \<Rightarrow> (exn + unit) \<times> 's app_state" where
  "check_rate_limit settings rq route_name limit tenant st =
     (if \<not> rate_limit_enabled settings then (Inr (), st)
      else
        (let t = monotonic st 0;
             (r, lim) = check (client_key (rr_client rq) route_name tenant) limit t (rate_limiter st)
         in (r, st\<lparr>rate_limiter := lim, monotonic := (\<lambda>n. monotonic st (Suc n))\<rparr>)))"

definition tenant_from_context_or_request :: "RequestContext option \<Rightarrow> string option \<Rightarrow> exn + string" where
  "tenant_from_context_or_request context tenant =
     (case context of
        Some ctx \<Rightarrow> Inr (ctx_tenant_id ctx)
      | None \<Rightarrow>
          (case tenant of
             None \<Rightarrow> Inl (App BadRequestError (Some ''tenant_id is required.''))
           | Some t \<Rightarrow> Inr t))"

text \<open>The part every handler starts with: resolve the tenant, then take a slot of the rate limit.\<close>

definition admit ::
    "Settings \<Rightarrow> route_request \<Rightarrow> string \<Rightarrow> int \<Rightarrow> RequestContext option \<Rightarrow> string option \<Rightarrow>
       's app_state \<Rightarrow> (exn + string) \<times> 's app_state" where
  "admit settings rq route_name limit context tenant st =
     (case tenant_from_context_or_request context tenant of
        Inl e \<Rightarrow> (Inl e, st)
      | Inr resolved \<Rightarrow>
          (case check_rate_limit settings rq route_name limit (Some resolved) st of
             (Inl e, st1) \<Rightarrow> (Inl e, st1)
           | (Inr _, st1) \<Rightarrow> (Inr resolved, st1)))"

definition submit_evaluation ::
    "'s repo_ops \<Rightarrow> Settings \<Rightarrow> uuid \<Rightarrow> SubmitEvaluationRequest \<Rightarrow> route_request \<Rightarrow> RequestContext option \<Rightarrow>
       's app_state \<Rightarrow> (exn + SubmitEvaluationResponse) \<times> 's app_state" where
  "submit_evaluation R settings new_id payload rq context st =
     (case admit settings rq ''submit_evaluation'' (rate_limit_submit_per_minute settings) context
             (sub_tenant_id payload) st of
        (Inl e, st1) \<Rightarrow> (Inl e, st1)
      | (Inr tenant, st1) \<Rightarrow>
          (case to_evaluation_request payload tenant of
             Inl e \<Rightarrow> (Inl e, st1)
           | Inr req \<Rightarrow>
               (case submit R new_id req (app_world st1) of
                  (Inl e, w) \<Rightarrow> (Inl e, st1\<lparr>app_world := w\<rparr>)
                | (Inr job, w) \<Rightarrow>
                    (Inr \<lparr>sr_job_id = job_id job, sr_status = status job,
                          sr_request_id = rr_request_id rq\<rparr>, st1\<lparr>app_world := w\<rparr>))))"

definition list_evaluations ::
    "'s repo_ops \<Rightarrow> Settings \<Rightarrow> route_request \<Rightarrow> string option \<Rightarrow> string option \<Rightarrow> int \<Rightarrow>
       RequestContext option \<Rightarrow> 's app_state \<Rightarrow> (exn + EvaluationListResponse) \<times> 's app_state" where
  "list_evaluations R settings rq tenant project limit context st =
     (case admit settings rq ''list_evaluations'' (rate_limit_list_per_minute settings) context tenant st of
        (Inl e, st1) \<Rightarrow> (Inl e, st1)
      | (Inr resolved, st1) \<Rightarrow>
          (case service_list_recent R resolved project limit (app_world st1) of
             Inl e \<Rightarrow> (Inl e, st1)
           | Inr jobs \<Rightarrow>
               (map_sum id (\<lambda>js. \<lparr>lr_jobs = js, lr_request_id = rr_request_id rq\<rparr>)
                  (collect (map to_summary jobs)), st1)))"

definition get_evaluation_details ::
    "'s repo_ops \<Rightarrow> Settings \<Rightarrow> uuid \<Rightarrow> route_request \<Rightarrow> string option \<Rightarrow> RequestContext option \<Rightarrow>
       's app_state \<Rightarrow> (exn + EvaluationJobDetailResponse) \<times> 's app_state" where
  "get_evaluation_details R settings i rq tenant context st =
     (case admit settings rq ''get_evaluation_details'' (rate_limit_read_per_minute settings) context tenant st of
        (Inl e, st1) \<Rightarrow> (Inl e, st1)
      | (Inr resolved, st1) \<Rightarrow>
          (case service_get_for_tenant R i resolved (app_world st1) of
             Inl e \<Rightarrow> (Inl e, st1)
           | Inr job \<Rightarrow> (to_detail_response job (rr_request_id rq), st1)))"

definition get_evaluation ::
    "'s repo_ops \<Rightarrow> Settings \<Rightarrow> uuid \<Rightarrow> route_request \<Rightarrow> string option \<Rightarrow> RequestContext option \<Rightarrow>
       's app_state \<Rightarrow> (exn + EvaluationJobResponse) \<times> 's app_state" where
  "get_evaluation R settings i rq tenant context st =
     (case admit settings rq ''get_evaluation'' (rate_limit_read_per_minute settings) context tenant st of
        (Inl e, st1) \<Rightarrow> (Inl e, st1)
      | (Inr resolved, st1) \<Rightarrow>
          (case service_get_for_tenant R i resolved (app_world st1) of
             Inl e \<Rightarrow> (Inl e, st1)
           | Inr job \<Rightarrow> (to_response job (rr_request_id rq), st1)))"

text \<open>\<open>Depends(get_request_context)\<close> around a handler.\<close>

definition authenticated ::
    "jwt_codec \<Rightarrow> Settings \<Rightarrow> datetime \<Rightarrow> route_request \<Rightarrow>
       (RequestContext option \<Rightarrow> 's app_state \<Rightarrow> (exn + 'r) \<times> 's app_state) \<Rightarrow>
       's app_state \<Rightarrow> (exn + 'r) \<times> 's app_state" where
  "authenticated k settings t rq handler st =
     (case get_request_context k settings t (rr_authorization rq) of
        Inl e \<Rightarrow> (Inl e, st)
      | Inr context \<Rightarrow> handler context st)"

definition valid_query :: "string option \<Rightarrow> string option \<Rightarrow> int \<Rightarrow> bool" where
  "valid_query tenant project limit \<longleftrightarrow>
     (case tenant of None \<Rightarrow> True | Some s \<Rightarrow> len_between 1 128 s) \<and>
     (case project of None \<Rightarrow> True | Some s \<Rightarrow> len_between 1 128 s) \<and> 1 \<le> limit \<and> limit \<le> 100"

subsection \<open>Health and metrics\<close>

definition live :: JSONResponse where
  "live = \<lparr>resp_status_code = 200, resp_content = JObj [(''status'', JStr ''ok'')]\<rparr>"

text \<open>\<open>request.app.state\<close> has no repository before start-up has finished.\<close>

definition ready :: "('s repo_ops \<times> 's) option \<Rightarrow> exn + JSONResponse" where
  "ready repo =
     (let ok = \<lparr>resp_status_code = 200, resp_content = JObj [(''status'', JStr ''ready'')]\<rparr>
      in case repo of
           None \<Rightarrow> Inr ok
         | Some (R, s) \<Rightarrow>
             (case health_check_op R s of
                Inl e \<Rightarrow> Inl e
              | Inr healthy \<Rightarrow>
                  if \<not> healthy
                  then Inr \<lparr>resp_status_code = 503, resp_content = JObj [(''status'', JStr ''not_ready'')]\<rparr>
                  else Inr ok))"

definition get_metrics :: "'s world \<Rightarrow> string" where
  "get_metrics w = render_prometheus (metrics w)"

subsection \<open>Admission\<close>

lemma check_rate_limit_world [simp]:
  "app_world (snd (check_rate_limit settings rq name limit tenant st)) = app_world st"
  by (simp add: check_rate_limit_def Let_def split: prod.split)

lemma check_rate_limit_eqD:
  "check_rate_limit settings rq name limit tenant st = (r, st1) \<Longrightarrow> app_world st1 = app_world st"
  using check_rate_limit_world [of settings rq name limit tenant st] by simp

lemma map_sum_Inr: "map_sum id f x = Inr y \<longleftrightarrow> (\<exists>z. x = Inr z \<and> y = f z)"
  by (cases x) auto

lemma admit_world:
  "admit settings rq name limit ctx tenant st = (r, st1) \<Longrightarrow> app_world st1 = app_world st"
  by (auto simp: admit_def split: sum.splits prod.splits dest: check_rate_limit_eqD)

lemma admit_resolved:
  "admit settings rq name limit ctx tenant st = (Inr resolved, st1) \<Longrightarrow>
     tenant_from_context_or_request ctx tenant = Inr resolved"
  by (auto simp: admit_def split: sum.splits prod.splits)

lemma admit_error:
  assumes "admit settings rq name limit ctx tenant st = (Inl e, st1)"
  shows "e = App RateLimitExceededError None \<or> e = App BadRequestError (Some ''tenant_id is required.'')"
  using assms
  by (auto simp: admit_def tenant_from_context_or_request_def check_rate_limit_def check_def Let_def
      split: sum.splits prod.splits option.splits if_splits)

lemma admit_new_client:
  assumes "tenant_from_context_or_request ctx tenant = Inr t"
    and "map_of (counters (rate_limiter st)) (client_key (rr_client rq) name (Some t)) = None"
  shows "\<exists>st1. admit settings rq name limit ctx tenant st = (Inr t, st1)"
  using assms by (auto simp: admit_def check_rate_limit_def check_def Let_def)

subsection \<open>The handlers on any repository that meets the contract\<close>

locale evaluation_api = job_service ops view invar fits settle
  for ops :: "'s repo_ops" and view :: "'s \<Rightarrow> store" and invar :: "'s \<Rightarrow> bool"
    and fits :: "string \<Rightarrow> bool" and settle :: "datetime option \<Rightarrow> datetime option"
begin

lemma service_get_for_tenant_Inr:
  assumes "invar (repository w)"
  shows "service_get_for_tenant ops i tenant w = Inr j \<longleftrightarrow>
    fits tenant \<and> view (repository w) i = Some j \<and> tenant_id j = tenant"
  using assms get_for_tenant_unfit [OF assms, of tenant i]
  by (cases "fits tenant") (auto simp: service_get_for_tenant_def get_for_tenant_law split: option.splits)

lemma get_for_tenant_hidden:
  assumes "invar (repository w)" and "fits tenant" and "\<forall>j. view (repository w) i = Some j \<longrightarrow> tenant_id j \<noteq> tenant"
  shows "service_get_for_tenant ops i tenant w = Inl raise_NotFound"
  using assms by (auto simp: service_get_for_tenant_def get_for_tenant_law split: option.splits)

lemma get_evaluation_Inr:
  assumes inv: "invar (repository (app_world st))"
    and r: "get_evaluation ops settings i rq tenant ctx st = (Inr r, st1)"
  shows "app_world st1 = app_world st \<and>
    (\<exists>j resolved. view (repository (app_world st)) i = Some j \<and>
       tenant_from_context_or_request ctx tenant = Inr resolved \<and> tenant_id j = resolved \<and>
       to_response j (rr_request_id rq) = Inr r)"
proof -
  from r obtain resolved where a: "admit settings rq ''get_evaluation'' (rate_limit_read_per_minute settings)
      ctx tenant st = (Inr resolved, st1)"
    and g: "\<exists>job. service_get_for_tenant ops i resolved (app_world st1) = Inr job \<and>
      to_response job (rr_request_id rq) = Inr r"
    by (auto simp: get_evaluation_def split: prod.splits sum.splits)
  with admit_world [OF a] admit_resolved [OF a] inv show ?thesis
    by (auto simp: service_get_for_tenant_Inr)
qed

text \<open>A stored job that is asked for by its own tenant is found, unless the rate limit says no.\<close>

lemma get_evaluation_found:
  assumes inv: "invar (repository (app_world st))" and v: "view (repository (app_world st)) i = Some j"
    and t: "tenant_from_context_or_request ctx tenant = Inr (tenant_id j)"
    and ok: "valid_result_opt (result j)" and fits: "fits (tenant_id j)"
  shows "case fst (get_evaluation ops settings i rq tenant ctx st) of
      Inl e \<Rightarrow> e = App RateLimitExceededError None
    | Inr x \<Rightarrow> to_response j (rr_request_id rq) = Inr x"
proof (cases "admit settings rq ''get_evaluation'' (rate_limit_read_per_minute settings) ctx tenant st")
  case (Pair a st1)
  show ?thesis
  proof (cases a)
    case (Inl e)
    then have "e = App RateLimitExceededError None"
      using Pair t by (auto simp: admit_def check_rate_limit_def check_def Let_def
          split: prod.splits sum.splits if_splits option.splits)
    with Pair Inl show ?thesis by (simp add: get_evaluation_def)
  next
    case (Inr res)
    have "res = tenant_id j" using admit_resolved [OF Pair [unfolded Inr]] t by simp
    then have "service_get_for_tenant ops i res (app_world st1) = Inr j"
      using admit_world [OF Pair] inv v fits by (simp add: service_get_for_tenant_Inr)
    with Pair Inr ok show ?thesis
      by (simp add: get_evaluation_def to_response_def)
  qed
qed

lemma get_details_Inr:
  assumes inv: "invar (repository (app_world st))"
    and r: "get_evaluation_details ops settings i rq tenant ctx st = (Inr r, st1)"
  shows "app_world st1 = app_world st \<and>
    (\<exists>j resolved. view (repository (app_world st)) i = Some j \<and>
       tenant_from_context_or_request ctx tenant = Inr resolved \<and> tenant_id j = resolved \<and>
       to_detail_response j (rr_request_id rq) = Inr r)"
proof -
  from r obtain resolved where a: "admit settings rq ''get_evaluation_details''
      (rate_limit_read_per_minute settings) ctx tenant st = (Inr resolved, st1)"
    and g: "\<exists>job. service_get_for_tenant ops i resolved (app_world st1) = Inr job \<and>
      to_detail_response job (rr_request_id rq) = Inr r"
    by (auto simp: get_evaluation_details_def split: prod.splits sum.splits)
  with admit_world [OF a] admit_resolved [OF a] inv show ?thesis
    by (auto simp: service_get_for_tenant_Inr)
qed

lemma list_evaluations_Inr:
  assumes inv: "invar (repository (app_world st))" and limit: "0 \<le> limit"
    and r: "list_evaluations ops settings rq tenant project limit ctx st = (Inr r, st1)"
  shows "app_world st1 = app_world st \<and> int (length (lr_jobs r)) \<le> limit \<and>
    (\<exists>resolved. tenant_from_context_or_request ctx tenant = Inr resolved \<and>
       (\<forall>s \<in> set (lr_jobs r). \<exists>j \<in> ran (view (repository (app_world st))).
          to_summary j = Inr s \<and> tenant_id j = resolved \<and> project_matches project j))"
proof -
  from r obtain resolved jobs where a: "admit settings rq ''list_evaluations''
      (rate_limit_list_per_minute settings) ctx tenant st = (Inr resolved, st1)"
    and l: "service_list_recent ops resolved project limit (app_world st1) = Inr jobs"
    and c: "collect (map to_summary jobs) = Inr (lr_jobs r)"
    by (fastforce simp: list_evaluations_def map_sum_Inr split: prod.splits sum.splits)
  have w: "app_world st1 = app_world st" by (rule admit_world [OF a])
  have fit: "fits resolved" "\<And>p. project = Some p \<Longrightarrow> fits p"
    using list_recent_unfit [OF inv, of resolved project limit] l by (auto simp: service_list_recent_def w)
  obtain js where js: "jobs = take (nat limit) js"
      "set js = {j \<in> ran (view (repository (app_world st))). tenant_id j = resolved \<and> project_matches project j}"
    using list_recent_law [OF inv limit fit(1), of project] fit(2) l
    by (auto simp: service_list_recent_def w)
  have eq: "map to_summary jobs = map Inr (lr_jobs r)" by (rule collect_Inr [OF c])
  then have "length (lr_jobs r) = length jobs" by (metis length_map)
  then have len: "int (length (lr_jobs r)) \<le> limit" using js(1) limit by simp
  have "\<exists>j \<in> ran (view (repository (app_world st))). to_summary j = Inr s \<and> tenant_id j = resolved \<and>
      project_matches project j" if "s \<in> set (lr_jobs r)" for s
  proof -
    from that have "Inr s \<in> set (map to_summary jobs)" unfolding eq by simp
    then obtain j where "j \<in> set jobs" "to_summary j = Inr s" by auto
    with js in_set_takeD [of j "nat limit" js] show ?thesis by blast
  qed
  with w len admit_resolved [OF a] show ?thesis by blast
qed

end

end
