(* ===== verification/Scoring.thy ===== *)
theory Scoring
  imports Models
begin

text \<open>
  \<^verbatim>\<open>app/domain/evaluation.py\<close>: the deterministic mock scoring that stands in for a model
  provider. The lemmas show that the score is total and in range (so building the
  \<open>EvaluationResult\<close> never raises), that the final clamp never changes it, what a rubric can add,
  and that neither letter case nor surrounding white space matters.
\<close>

definition stop_words :: "string list" where
  "stop_words = [''the'', ''a'', ''an'', ''and'', ''or'', ''of'', ''to'', ''in'', ''is'', ''it'',
                 ''for'', ''on'', ''with'']"

text \<open>The characters of \<^verbatim>\<open>strip(".,!?;:()[]{}\"'")\<close>; the two quotes are written by code.\<close>

definition punctuation :: string where
  "punctuation = ''.,!?;:()[]{}'' @ [CHR 0x22, CHR 0x27]"

definition significant_terms :: "string \<Rightarrow> string set" where
  "significant_terms text =
     set (map (\<lambda>token. strip_chars punctuation (lower token))
            (filter (\<lambda>token. 3 < length token) (split_ws text)))
     - set stop_words"

definition has_any_overlap :: "string \<Rightarrow> string \<Rightarrow> bool" where
  "has_any_overlap left right \<longleftrightarrow> significant_terms left \<inter> significant_terms right \<noteq> {}"

definition mock_justification :: string where
  "mock_justification =
     ''Mock evaluation score based on answer length, question-term overlap, '' @
     ''basic clarity signals, and optional rubric overlap.''"

definition score_mock_response :: "EvaluationRequest \<Rightarrow> exn + EvaluationResult" where
  "score_mock_response r =
     (let answer = strip (rq_answer r);
          question_terms = significant_terms (rq_question r);
          answer_terms = significant_terms answer;
          length_score = min (int (length answer) div 8) 40;
          overlap_score = min (int (card (question_terms \<inter> answer_terms)) * 10) 40;
          rubric_bonus =
            (case rq_rubric r of
               None \<Rightarrow> 0
             | Some rubric \<Rightarrow> if rubric \<noteq> [] \<and> has_any_overlap rubric answer then 10 else 0);
          clarity_bonus = (if CHR ''.'' \<in> set answer \<or> CHR 0x0A \<in> set answer then 10 else 0);
          total = max 0 (min 100 (length_score + overlap_score + rubric_bonus + clarity_bonus))
      in make_EvaluationResult
           \<lparr>score = total, justification = mock_justification,
            rubric_used = (rq_rubric r \<noteq> None)\<rparr>)"

subsection \<open>The parts of the score\<close>

definition length_part :: "string \<Rightarrow> int" where
  "length_part a = min (int (length (strip a)) div 8) 40"

definition overlap_part :: "string \<Rightarrow> string \<Rightarrow> int" where
  "overlap_part q a = min (int (card (significant_terms q \<inter> significant_terms (strip a))) * 10) 40"

definition rubric_part :: "string option \<Rightarrow> string \<Rightarrow> int" where
  "rubric_part rub a =
     (case rub of None \<Rightarrow> 0
      | Some s \<Rightarrow> if s \<noteq> [] \<and> has_any_overlap s (strip a) then 10 else 0)"

definition clarity_part :: "string \<Rightarrow> int" where
  "clarity_part a = (if CHR ''.'' \<in> set (strip a) \<or> CHR 0x0A \<in> set (strip a) then 10 else 0)"

lemmas part_defs = length_part_def overlap_part_def rubric_part_def clarity_part_def

lemma part_bounds:
  "0 \<le> length_part a" "length_part a \<le> 40"
  "0 \<le> overlap_part q a" "overlap_part q a \<le> 40"
  "0 \<le> rubric_part rub a" "rubric_part rub a \<le> 10"
  "0 \<le> clarity_part a" "clarity_part a \<le> 10"
  by (auto simp: part_defs split: option.split)

lemma score_mock_response_parts:
  "score_mock_response r =
     Inr \<lparr>score = length_part (rq_answer r) + overlap_part (rq_question r) (rq_answer r)
                  + rubric_part (rq_rubric r) (rq_answer r) + clarity_part (rq_answer r),
          justification = mock_justification, rubric_used = (rq_rubric r \<noteq> None)\<rparr>"
proof -
  let ?s = "length_part (rq_answer r) + overlap_part (rq_question r) (rq_answer r)
              + rubric_part (rq_rubric r) (rq_answer r) + clarity_part (rq_answer r)"
  have s: "0 \<le> ?s" "?s \<le> 100"
    using part_bounds(1,2,7,8) [of "rq_answer r"] part_bounds(3,4) [of "rq_question r" "rq_answer r"]
      part_bounds(5,6) [of "rq_rubric r" "rq_answer r"] by linarith+
  have "score_mock_response r =
      make_EvaluationResult \<lparr>score = max 0 (min 100 ?s), justification = mock_justification,
        rubric_used = (rq_rubric r \<noteq> None)\<rparr>"
    unfolding score_mock_response_def Let_def part_defs ..
  moreover have "max 0 (min 100 ?s) = ?s" using s by (simp only: min_absorb2 max_absorb2)
  ultimately show ?thesis
    using s by (simp only: make_EvaluationResult_def valid_EvaluationResult_def
        EvaluationResult.select_convs if_True simp_thms)
qed

subsection \<open>Letter case\<close>

lemma is_space_lower [simp]: "is_space (lower_char c) = is_space c"
  by (auto simp: is_space_def lower_char_def Let_def)

lemma lower_lower_char [simp]: "lower_char (lower_char c) = lower_char c"
  by (auto simp: lower_char_def Let_def)

lemma lower_lower [simp]: "lower (lower s) = lower s"
  by (simp add: lower_def)

lemma length_lower [simp]: "length (lower s) = length s"
  by (simp add: lower_def)

lemma lower_eq_Nil [simp]: "lower s = [] \<longleftrightarrow> s = []"
  by (simp add: lower_def)

lemma dropWhile_space_lower: "dropWhile is_space (lower s) = lower (dropWhile is_space s)"
  by (induction s) (auto simp: lower_def)

lemma dropWhile_word_lower:
  "dropWhile (\<lambda>x. \<not> is_space x) (lower s) = lower (dropWhile (\<lambda>x. \<not> is_space x) s)"
  by (induction s) (auto simp: lower_def)

lemma takeWhile_word_lower:
  "takeWhile (\<lambda>x. \<not> is_space x) (lower s) = lower (takeWhile (\<lambda>x. \<not> is_space x) s)"
  by (induction s) (auto simp: lower_def)

lemma rev_lower: "rev (lower s) = lower (rev s)"
  by (simp add: lower_def rev_map)

lemma strip_lower: "strip (lower s) = lower (strip s)"
  by (simp add: strip_def strip_by_def dropWhile_space_lower rev_lower)

lemma lower_Cons: "lower (c # cs) = lower_char c # lower cs"
  by (simp add: lower_def)

lemma split_ws_lower: "split_ws (lower s) = map lower (split_ws s)"
proof (induction s rule: split_ws.induct)
  case (1 s)
  show ?case
  proof (cases "dropWhile is_space s")
    case Nil
    then have "dropWhile is_space (lower s) = []"
      by (simp only: dropWhile_space_lower) (simp add: lower_def)
    with Nil show ?thesis by (simp only: split_ws_Nil list.map)
  next
    case (Cons c cs)
    then have "dropWhile is_space (lower s) = lower_char c # lower cs"
      by (simp add: dropWhile_space_lower lower_Cons)
    then have "split_ws (lower s) =
        takeWhile (\<lambda>x. \<not> is_space x) (lower (c # cs)) #
        split_ws (dropWhile (\<lambda>x. \<not> is_space x) (lower cs))"
      by (simp add: split_ws_Cons lower_Cons)
    also have "\<dots> = map lower (split_ws s)"
      by (simp only: takeWhile_word_lower dropWhile_word_lower "1.IH" [OF Cons] split_ws_Cons [OF Cons]
          list.map)
    finally show ?thesis .
  qed
qed

lemma significant_terms_lower: "significant_terms (lower s) = significant_terms s"
  by (simp add: significant_terms_def split_ws_lower filter_map o_def)

lemma lower_char_eq_iff:
  assumes "of_char d < (65 :: nat)"
  shows "lower_char c = d \<longleftrightarrow> c = d"
proof -
  have "of_char (lower_char c) = (of_char d :: nat) \<longleftrightarrow> of_char c = (of_char d :: nat)"
    using assms by (auto simp: lower_char_def Let_def)
  then show ?thesis by simp
qed

lemma clarity_lower: "clarity_part (lower a) = clarity_part a"
proof -
  have "d \<in> set (lower s) \<longleftrightarrow> d \<in> set s" if "of_char d < (65 :: nat)" for d s
    using lower_char_eq_iff [OF that] by (auto simp: lower_def image_iff eq_commute [of d])
  then show ?thesis
    by (simp add: clarity_part_def strip_lower)
qed

lemma parts_lower:
  "length_part (lower a) = length_part a"
  "overlap_part (lower q) (lower a) = overlap_part q a"
  "rubric_part (map_option lower rub) (lower a) = rubric_part rub a"
  by (auto simp: length_part_def overlap_part_def rubric_part_def strip_lower significant_terms_lower
      has_any_overlap_def split: option.split)

lemma strip_idem: "strip (strip a) = strip a"
  by (simp add: strip_def)

lemma parts_strip:
  "length_part (strip a) = length_part a" "overlap_part q (strip a) = overlap_part q a"
  "rubric_part rub (strip a) = rubric_part rub a" "clarity_part (strip a) = clarity_part a"
  by (simp_all add: part_defs strip_idem cong: option.case_cong)

lemma strip_by_eq_Nil: "strip_by P s = [] \<longleftrightarrow> (\<forall>c \<in> set s. P c)"
proof
  assume "strip_by P s = []"
  then have d: "\<forall>c \<in> set (dropWhile P s). P c"
    by (simp add: strip_by_def)
  have "set s = set (takeWhile P s) \<union> set (dropWhile P s)"
    by (metis set_append takeWhile_dropWhile_id)
  with d show "\<forall>c \<in> set s. P c"
    by (auto dest: set_takeWhileD)
next
  assume "\<forall>c \<in> set s. P c"
  then have "dropWhile P s = []" by simp
  then show "strip_by P s = []" by (simp only: strip_by_def rev.simps dropWhile.simps)
qed

subsection \<open>Properties of the scoring\<close>

text \<open>C35. Scoring is total and in range: for every request the mock scoring returns a result
  (building the validated \<open>EvaluationResult\<close> never raises), its score lies between 0 and 100 and
  is exactly the sum of the four parts (the final clamp to 0..100 never changes it), the rubric
  accounts for 0 or 10 points and the answer's length for at most 40, and \<open>rubric_used\<close> says
  whether a rubric was given.\<close>

theorem score_total_in_range:
  "\<exists>x. score_mock_response r = Inr x \<and> valid_EvaluationResult x \<and>
       score x = length_part (rq_answer r) + overlap_part (rq_question r) (rq_answer r)
                 + rubric_part (rq_rubric r) (rq_answer r) + clarity_part (rq_answer r) \<and>
       rubric_part (rq_rubric r) (rq_answer r) \<in> {0, 10} \<and>
       length_part (rq_answer r) \<le> 40 \<and>
       rubric_used x = (rq_rubric r \<noteq> None)"
proof -
  have r: "rubric_part (rq_rubric r) (rq_answer r) \<in> {0, 10}"
    by (auto simp: rubric_part_def split: option.split)
  have "0 \<le> s \<and> s \<le> 100"
    if "s = length_part (rq_answer r) + overlap_part (rq_question r) (rq_answer r)
            + rubric_part (rq_rubric r) (rq_answer r) + clarity_part (rq_answer r)" for s
    using part_bounds(1,2,7,8) [of "rq_answer r"] part_bounds(3,4) [of "rq_question r" "rq_answer r"]
      part_bounds(5,6) [of "rq_rubric r" "rq_answer r"] that by linarith
  with r part_bounds(2) show ?thesis
    by (simp add: score_mock_response_parts valid_EvaluationResult_def)
qed

text \<open>The score is insensitive to letter case and to white space around the answer: lower-casing
  the question, the answer and the rubric and stripping the answer gives the same result.\<close>

lemma score_case_and_space_insensitive:
  "score_mock_response
     (r\<lparr>rq_question := lower (rq_question r), rq_answer := strip (lower (rq_answer r)),
        rq_rubric := map_option lower (rq_rubric r)\<rparr>)
   = score_mock_response r"
  by (simp add: score_mock_response_parts parts_strip parts_lower clarity_lower)

text \<open>The empty string is a significant term of every text with a token of at least four
  characters that are all punctuation (and of no other text): such tokens in two texts count as
  an overlap although neither has a word in it.\<close>

lemma empty_term_significant:
  "[] \<in> significant_terms text \<longleftrightarrow>
     (\<exists>token \<in> set (split_ws text). 3 < length token \<and> set (lower token) \<subseteq> set punctuation)"
proof -
  have "[] \<notin> set stop_words" by (simp add: stop_words_def)
  then show ?thesis
    by (auto simp: significant_terms_def strip_chars_def strip_by_eq_Nil image_iff
        eq_commute [of "[]"])
qed

end
