(* ===== verification/Evaluator.thy ===== *)
theory Evaluator
  imports Runtime Scoring
begin

text \<open>
  \<^verbatim>\<open>app/core/resilience.py\<close> (\<open>with_timeout\<close>, \<open>retry_async\<close>) and
  \<^verbatim>\<open>app/services/evaluator.py\<close> (\<open>Evaluator.score\<close>).

  Awaiting hands control to the event loop. How long a task is suspended and what other tasks do
  meanwhile are inputs of the program: \<open>sleep d\<close> is any function that takes the state in which
  \<open>asyncio.sleep(d)\<close> is awaited and returns the seconds until the task is resumed and the state
  it then finds. \<open>asyncio.wait_for\<close> gives the operation's outcome when it is there before the
  timeout and raises \<open>TimeoutError\<close> otherwise.
\<close>

type_synonym 'st sleep = "seconds \<Rightarrow> 'st \<Rightarrow> seconds \<times> 'st"

subsection \<open>Timeout and retry\<close>

text \<open>An awaitable is run from a state: how long it takes, what it yields, and the state after it.\<close>

definition with_timeout :: "('st \<Rightarrow> seconds \<times> (exn + 'a) \<times> 'st) \<Rightarrow> seconds \<Rightarrow> 'st \<Rightarrow> (exn + 'a) \<times> 'st" where
  "with_timeout operation timeout_seconds st =
     (let (elapsed, r, st1) = operation st
      in if elapsed < timeout_seconds then (r, st1) else (Inl TimeoutError, st1))"

fun retry_loop ::
    "'st sleep \<Rightarrow> ('st \<Rightarrow> (exn + 'a) \<times> 'st) \<Rightarrow> int \<Rightarrow> seconds \<Rightarrow> nat list \<Rightarrow> exn option \<Rightarrow> 'st \<Rightarrow>
       (exn + 'a) \<times> 'st" where
  "retry_loop sleep operation attempts delay [] last_error st =
     (case last_error of None \<Rightarrow> (Inl AssertionError, st) | Some e \<Rightarrow> (Inl e, st))"
| "retry_loop sleep operation attempts delay (attempt # rest) last_error st =
     (case operation st of
        (Inr x, st1) \<Rightarrow> (Inr x, st1)
      | (Inl e, st1) \<Rightarrow>
          retry_loop sleep operation attempts delay rest (Some e)
            (if int attempt < attempts - 1 then snd (sleep (delay * 2 ^ attempt) st1) else st1))"

definition retry_async ::
    "'st sleep \<Rightarrow> ('st \<Rightarrow> (exn + 'a) \<times> 'st) \<Rightarrow> int \<Rightarrow> seconds \<Rightarrow> 'st \<Rightarrow> (exn + 'a) \<times> 'st" where
  "retry_async sleep operation attempts initial_delay_seconds st =
     retry_loop sleep operation attempts initial_delay_seconds [0..<nat attempts] None st"

subsection \<open>The evaluator\<close>

definition perf_counter :: "'s world \<Rightarrow> seconds \<times> 's world" where
  "perf_counter w = (perf w 0, w\<lparr>perf := (\<lambda>n. perf w (Suc n))\<rparr>)"

definition score_operation ::
    "'s world sleep \<Rightarrow> EvaluationRequest \<Rightarrow> 's world \<Rightarrow> seconds \<times> (exn + EvaluationResult) \<times> 's world" where
  "score_operation sleep req w =
     (let (elapsed, w1) = sleep (1 / 100) w in (elapsed, score_mock_response req, w1))"

definition scoring_attributes :: "EvaluationRequest \<Rightarrow> (string \<times> attribute_value option) list" where
  "scoring_attributes req =
     [(''tenant_id'', Some (AStr (rq_tenant_id req))),
      (''project_id'', Some (AStr (rq_project_id req))),
      (''rubric_present'', Some (ABool (rq_rubric req \<noteq> None)))]"

definition evaluator_score ::
    "'s world sleep \<Rightarrow> seconds \<Rightarrow> EvaluationRequest \<Rightarrow> 's world \<Rightarrow> (exn + EvaluationResult) \<times> 's world" where
  "evaluator_score sleep timeout_seconds req w =
     (let w1 = traced_span ''evaluation.scoring'' (scoring_attributes req) w;
          (started_at, w2) = perf_counter w1;
          (r, w3) =
            retry_async sleep (with_timeout (score_operation sleep req) timeout_seconds) 2 (1 / 20) w2;
          (finished_at, w4) = perf_counter w3
      in (r, with_metrics (record_scoring_duration (finished_at - started_at)) w4))"

subsection \<open>What a retried operation can return\<close>

lemma retry_loop_preserves:
  assumes "P st" and "\<And>st r st'. P st \<Longrightarrow> operation st = (r, st') \<Longrightarrow> P st'"
    and "\<And>d st. P st \<Longrightarrow> P (snd (sleep d st))"
  shows "P (snd (retry_loop sleep operation attempts delay idx le st))"
  using assms(1)
proof (induction idx arbitrary: le st)
  case Nil
  then show ?case by (simp split: option.split)
next
  case (Cons attempt rest)
  obtain r st1 where op: "operation st = (r, st1)" by (cases "operation st")
  with Cons.prems assms(2) have "P st1" by blast
  then show ?case using Cons.IH assms(3) by (cases r) (simp_all add: op)
qed

lemma retry_async_two:
  "retry_async sleep operation 2 delay st =
     (case operation st of
        (Inr x, st1) \<Rightarrow> (Inr x, st1)
      | (Inl _, st1) \<Rightarrow> operation (snd (sleep delay st1)))"
  by (auto simp: retry_async_def numeral_2_eq_2 upt_rec split: prod.split sum.split)

text \<open>An operation that follows a script of outcomes, in a state that also logs the delays slept.\<close>

fun scripted :: "(exn + 'a) list \<times> seconds list \<Rightarrow> (exn + 'a) \<times> (exn + 'a) list \<times> seconds list" where
  "scripted ([], ds) = (Inl (OtherError ''end of script''), [], ds)"
| "scripted (x # xs, ds) = (x, xs, ds)"

definition log_sleep :: "('b \<times> seconds list) sleep" where
  "log_sleep d st = (d, fst st, snd st @ [d])"

lemma retry_loop_scripted:
  "p < length outs \<Longrightarrow>
   retry_loop log_sleep scripted (int (m + Suc p)) delay [m..<m + Suc p] le (outs, ds) =
     (let k = length (takeWhile isl (take (Suc p) outs)) in
      (outs ! min k p, drop (min (Suc k) (Suc p)) outs,
       ds @ map (\<lambda>i. delay * 2 ^ (m + i)) [0..<min k p]))"
proof (induction p arbitrary: m outs ds le)
  case 0
  then obtain x xs where outs: "outs = x # xs" by (cases outs) auto
  show ?case by (cases x) (simp_all add: outs)
next
  case (Suc p)
  then obtain x xs where outs: "outs = x # xs" and p: "p < length xs" by (cases outs) auto
  have idx: "[m..<m + Suc (Suc p)] = m # [Suc m..<Suc m + Suc p]" by (simp add: upt_rec)
  show ?case
  proof (cases x)
    case (Inl e)
    have map: "map (\<lambda>i. delay * 2 ^ (m + i)) [0..<Suc q] =
        (delay * 2 ^ m) # map (\<lambda>i. delay * 2 ^ (Suc m + i)) [0..<q]" for q
      by (simp add: upt_conv_Cons map_Suc_upt [symmetric] del: upt_Suc)
    have "retry_loop log_sleep scripted (int (m + Suc (Suc p))) delay [m..<m + Suc (Suc p)] le (outs, ds) =
        retry_loop log_sleep scripted (int (Suc m + Suc p)) delay [Suc m..<Suc m + Suc p] (Some e)
          (xs, ds @ [delay * 2 ^ m])"
      unfolding idx outs Inl by (simp add: log_sleep_def del: upt_Suc)
    also note Suc.IH [OF p]
    finally show ?thesis
      by (simp add: outs Inl Let_def map del: upt_Suc)
  next
    case (Inr b)
    show ?thesis unfolding idx outs Inr by (simp add: Let_def)
  qed
qed

lemma sum_delays: "sum_list (map (\<lambda>i. delay * 2 ^ i) [0..<k]) = (delay :: seconds) * (2 ^ k - 1)"
  by (induction k) (simp_all add: algebra_simps)

text \<open>C34. \<open>retry_async\<close> with \<open>n\<close> attempts runs the operation until it first succeeds, at most \<open>n\<close>
  times, and not once more: it returns the first success, or else raises the error of the last
  attempt. Between two attempts it sleeps, doubling the delay each time, and never after the last
  one, so \<open>k\<close> failed attempts that are retried cost \<open>delay * (2 ^ k - 1)\<close> seconds of waiting.\<close>

theorem retry_async_outcome:
  assumes "0 < n" and "n \<le> length outs" and "k = length (takeWhile isl (take n outs))"
  shows "retry_async log_sleep scripted (int n) delay (outs, []) =
           (outs ! min k (n - 1), drop (min (k + 1) n) outs,
            map (\<lambda>i. delay * 2 ^ i) [0..<min k (n - 1)]) \<and>
         sum_list (snd (snd (retry_async log_sleep scripted (int n) delay (outs, [])))) =
           delay * (2 ^ min k (n - 1) - 1)"
proof -
  obtain p where n: "n = Suc p" using assms(1) by (cases n) auto
  have "retry_async log_sleep scripted (int n) delay (outs, []) =
      (outs ! min k p, drop (min (Suc k) (Suc p)) outs, map (\<lambda>i. delay * 2 ^ i) [0..<min k p])"
    using retry_loop_scripted [of p outs 0 delay None "[]"] assms(2,3)
    by (simp only: retry_async_def n Let_def nat_int add_0 append_Nil Suc_le_eq)
  then show ?thesis by (simp add: n sum_delays)
qed

theorem retry_async_outcome_witness:
  "retry_async log_sleep scripted 3 (1 / 20)
     ([Inl TimeoutError, Inl TimeoutError, Inr (7 :: int), Inr 8], []) =
   (Inr 7, [Inr 8], [1 / 20, 1 / 10])"
  using retry_async_outcome [of 3 "[Inl TimeoutError, Inl TimeoutError, Inr (7 :: int), Inr 8]" 2 "1 / 20"]
  by (simp add: upt_rec numeral_3_eq_3)

text \<open>The evaluator makes at most two attempts, each cut off by the timeout, and returns the mock
  score of the request as soon as one of them is finished in time; only when both time out does it
  raise, and then \<open>TimeoutError\<close>. It never returns anything but the score of the request it was
  given, whatever other tasks do while it waits.\<close>

lemma evaluator_score_outcome:
  "fst (evaluator_score sleep timeout req w) =
     (let w1 = snd (perf_counter (traced_span ''evaluation.scoring'' (scoring_attributes req) w));
          (first, w2) = sleep (1 / 100) w1;
          (second, _) = sleep (1 / 100) (snd (sleep (1 / 20) w2))
      in if first < timeout \<or> second < timeout then score_mock_response req else Inl TimeoutError)"
  by (auto simp: evaluator_score_def Let_def retry_async_two with_timeout_def score_operation_def
      score_mock_response_parts split: prod.split)

lemma evaluator_score_in_time:
  assumes "\<And>w. fst (sleep (1 / 100) w) < timeout"
  shows "fst (evaluator_score sleep timeout req w) = score_mock_response req"
  using assms by (auto simp: evaluator_score_def Let_def retry_async_two with_timeout_def
      score_operation_def score_mock_response_parts split: prod.split) (metis fst_conv)+

lemma evaluator_score_late:
  assumes "\<And>w. timeout \<le> fst (sleep (1 / 100) w)"
  shows "fst (evaluator_score sleep timeout req w) = Inl TimeoutError"
  using assms by (auto simp: evaluator_score_def Let_def retry_async_two with_timeout_def
      score_operation_def split: prod.split) (metis fst_conv leD)+

lemma score_operation_preserves:
  assumes "P w" and "\<And>d w. P w \<Longrightarrow> P (snd (sleep d w))"
    and "with_timeout (score_operation sleep req) timeout w = (r, w')"
  shows "P w'"
  using assms(3) assms(2) [OF assms(1), of "1 / 100"]
  by (auto simp: with_timeout_def score_operation_def Let_def split: prod.splits if_splits)

lemma evaluator_score_preserves:
  assumes "evaluator_score sleep timeout req w = (r, w')" and "P w"
    and "\<And>d w. P w \<Longrightarrow> P (snd (sleep d w))"
    and "\<And>n a w. P w \<Longrightarrow> P (traced_span n a w)" and "\<And>f w. P w \<Longrightarrow> P (with_metrics f w)"
    and "\<And>p w. P w \<Longrightarrow> P (w\<lparr>perf := p\<rparr>)"
  shows "P w'"
proof -
  let ?op = "with_timeout (score_operation sleep req) timeout"
  let ?w = "snd (perf_counter (traced_span ''evaluation.scoring'' (scoring_attributes req) w))"
  have "P ?w" using assms(2,4,6) by (simp add: perf_counter_def)
  then have "P (snd (retry_async sleep ?op 2 (1 / 20) ?w))"
    unfolding retry_async_def
    by (rule retry_loop_preserves) (auto intro: score_operation_preserves assms(3))
  then show ?thesis
    using assms(1,5,6)
    by (auto simp: evaluator_score_def Let_def perf_counter_def split: prod.splits)
qed

end
