(* ===== verification/Worker.thy ===== *)
theory Worker
  imports JobService Evaluator
begin

text \<open>
  \<^verbatim>\<open>app/services/worker.py\<close>: the worker that polls the repository for jobs.

  \<open>worker_iteration\<close> is one pass through the loop of \<open>run\<close>. The stop event is set by another
  task at a moment of its own, so \<open>run\<close> takes the values that the successive checks of the event
  will find; a list that ends before the loop does leaves the worker running. An exception is not
  caught by \<open>run\<close>: it ends the task, after the final log entry.
\<close>

datatype worker_end = WorkerRunning | WorkerStopped | WorkerCrashed exn

record EvaluationWorker =
  poll_seconds :: seconds
  stale_job_seconds :: seconds
  worker_task :: "worker_end option"
  worker_stopping :: bool

definition worker_start :: "EvaluationWorker \<Rightarrow> EvaluationWorker" where
  "worker_start k =
     (if worker_task k = Some WorkerRunning then k
      else k\<lparr>worker_stopping := False, worker_task := Some WorkerRunning\<rparr>)"

text \<open>\<open>stop\<close>: \<open>ended\<close> is how the awaited task ends; awaiting a task that was ended by an exception
  raises it again.\<close>

definition worker_stop :: "worker_end \<Rightarrow> EvaluationWorker \<Rightarrow> (exn + unit) \<times> EvaluationWorker" where
  "worker_stop ended k =
     (let k1 = k\<lparr>worker_stopping := True\<rparr>
      in case worker_task k1 of
           None \<Rightarrow> (Inr (), k1)
         | Some _ \<Rightarrow>
             ((case ended of WorkerCrashed e \<Rightarrow> Inl e | _ \<Rightarrow> Inr ()), k1\<lparr>worker_task := Some ended\<rparr>))"

definition worker_iteration ::
    "'s repo_ops \<Rightarrow> 's scorer \<Rightarrow> 's world sleep \<Rightarrow> EvaluationWorker \<Rightarrow> 's world \<Rightarrow> (exn + unit) \<times> 's world" where
  "worker_iteration R sc sleep k w =
     (let (t, c) = now (wall w);
          cutoff = t - timedelta_seconds (stale_job_seconds k)
      in case call (recover_stale_running_op R cutoff) (w\<lparr>wall := c\<rparr>) of
           (Inl e, w1) \<Rightarrow> (Inl e, w1)
         | (Inr n, w1) \<Rightarrow>
             (let w2 =
                    (if n \<noteq> 0
                     then emit_log ''WARNING'' ''recovered stale running jobs'' [(''job_count'', LInt (int n))]
                            None (with_metrics (record_worker_recovered_jobs n) w1)
                     else w1)
              in case call (claim_next_queued_op R) w2 of
                   (Inl e, w3) \<Rightarrow> (Inl e, w3)
                 | (Inr None, w3) \<Rightarrow> (Inr (), snd (sleep (poll_seconds k) w3))
                 | (Inr (Some job), w3) \<Rightarrow> process_claimed R sc job w3))"

fun worker_loop ::
    "'s repo_ops \<Rightarrow> 's scorer \<Rightarrow> 's world sleep \<Rightarrow> EvaluationWorker \<Rightarrow> bool list \<Rightarrow> 's world \<Rightarrow>
       worker_end \<times> 's world" where
  "worker_loop R sc sleep k [] w = (WorkerRunning, w)"
| "worker_loop R sc sleep k (stopping # flags) w =
     (if stopping then (WorkerStopped, w)
      else case worker_iteration R sc sleep k w of
             (Inl e, w1) \<Rightarrow> (WorkerCrashed e, w1)
           | (Inr _, w1) \<Rightarrow> worker_loop R sc sleep k flags w1)"

definition worker_run ::
    "'s repo_ops \<Rightarrow> 's scorer \<Rightarrow> 's world sleep \<Rightarrow> EvaluationWorker \<Rightarrow> bool list \<Rightarrow> 's world \<Rightarrow>
       worker_end \<times> 's world" where
  "worker_run R sc sleep k flags w =
     (case worker_loop R sc sleep k flags (emit_log ''INFO'' ''evaluation worker started'' [] None w) of
        (WorkerRunning, w1) \<Rightarrow> (WorkerRunning, w1)
      | (r, w1) \<Rightarrow> (r, emit_log ''INFO'' ''evaluation worker stopped'' [] None w1))"

subsection \<open>One pass of the loop\<close>

text \<open>Scoring and sleeping that leave the repository alone: no other task works on it meanwhile.\<close>

definition quiet_scorer :: "'s scorer \<Rightarrow> bool" where
  "quiet_scorer sc \<longleftrightarrow> (\<forall>req w. repository (snd (sc req w)) = repository w)"

definition quiet_sleep :: "'s world sleep \<Rightarrow> bool" where
  "quiet_sleep sleep \<longleftrightarrow> (\<forall>d w. repository (snd (sleep d w)) = repository w)"

definition requeued :: "datetime \<Rightarrow> (uuid \<Rightarrow> datetime) \<Rightarrow> store \<Rightarrow> store" where
  "requeued cutoff tm m =
     (\<lambda>i. map_option (\<lambda>j. if stale cutoff j then recovered (tm i) j else j) (m i))"

text \<open>Jobs a worker may still have to process: claimable ones and claimed ones with attempts left.\<close>

definition open_job :: "EvaluationJob \<Rightarrow> bool" where
  "open_job j \<longleftrightarrow> (status j = QUEUED \<or> status j = RUNNING) \<and> attempt_count j < max_attempts j"

definition open_ids :: "store \<Rightarrow> uuid set" where
  "open_ids m = {i. \<exists>j. m i = Some j \<and> open_job j}"

lemma open_job_recovered: "open_job (recovered t j) \<Longrightarrow> stale cutoff j \<Longrightarrow> open_job j"
  by (simp add: open_job_def recovered_def stale_def split: if_splits)

lemma claimable_recovered:
  "stale cutoff j \<Longrightarrow> attempt_count j < max_attempts j \<Longrightarrow> claimable (recovered t j)"
  by (simp add: claimable_def recovered_def)

lemma claimable_not_stale: "claimable j \<Longrightarrow> \<not> stale cutoff j"
  by (simp add: claimable_def stale_def)

lemma claimable_open_job: "claimable j \<Longrightarrow> open_job j"
  by (simp add: claimable_def open_job_def)

lemma requeued_Some:
  "requeued cutoff tm m i = Some j' \<longleftrightarrow>
     (\<exists>j. m i = Some j \<and> j' = (if stale cutoff j then recovered (tm i) j else j))"
  unfolding requeued_def map_option_eq_Some by blast

lemma open_ids_requeued: "open_ids (requeued cutoff tm m) \<subseteq> open_ids m"
  unfolding open_ids_def requeued_Some by (auto dest: open_job_recovered split: if_splits)

lemma claimable_open: "claimable_ids m \<subseteq> open_ids m"
  by (auto simp: claimable_ids_def open_ids_def dest: claimable_open_job)

lemma succeeded_not_open [simp]: "\<not> open_job (succeeded r ca t j)" "\<not> claimable (succeeded r ca t j)"
  "status (succeeded r ca t j) = SUCCEEDED"
  by (simp_all add: open_job_def claimable_def succeeded_def)

lemma open_ids_succeeded: "open_ids (m(i \<mapsto> succeeded r ca t j)) = open_ids m - {i}"
  by (auto simp: open_ids_def)

lemma claimed_running [simp]: "status (claimed t1 t2 j) = RUNNING" "request (claimed t1 t2 j) = request j"
  "claimed_at (claimed t1 t2 j) = Some t1"
  by (simp_all add: claimed_def)

text \<open>What one pass does to the store: stale jobs go back to the queue, then the oldest claimable
  job, if there is one, is claimed and succeeds.\<close>

definition pass_result :: "(EvaluationRequest \<Rightarrow> EvaluationResult) \<Rightarrow> store \<Rightarrow> store \<Rightarrow> bool" where
  "pass_result res m m' \<longleftrightarrow>
     (if claimable_ids m = {} then m' = m
      else \<exists>j ca t t1 t2. m (job_id j) = Some j \<and> claimable j \<and>
             (\<forall>j' \<in> ran m. claimable j' \<longrightarrow> created_at j \<le> created_at j') \<and>
             m' = m(job_id j \<mapsto> succeeded (res (request j)) ca t (claimed t1 t2 j)))"

text \<open>A job is followed under its owner, which no step changes. A job that has succeeded with the
  right result, and one that has or is still claimable; a store in which a set of jobs, given with
  their owners, is so.\<close>

type_synonym owner = "string \<times> EvaluationRequest"

definition owner_of :: "EvaluationJob \<Rightarrow> owner" where
  "owner_of j = (tenant_id j, request j)"

lemma owner_of_updates [simp]:
  "owner_of (claimed t1 t2 j) = owner_of j" "owner_of (succeeded r ca t j) = owner_of j"
  "owner_of (recovered t j) = owner_of j"
  by (simp_all add: owner_of_def claimed_def succeeded_def recovered_def)

lemma request_owner: "request j = snd (owner_of j)"
  by (simp add: owner_of_def)

definition done_job :: "(EvaluationRequest \<Rightarrow> EvaluationResult) \<Rightarrow> owner \<Rightarrow> EvaluationJob \<Rightarrow> bool" where
  "done_job res rq j \<longleftrightarrow> owner_of j = rq \<and> status j = SUCCEEDED \<and> result j = Some (res (snd rq))"

definition track_job :: "(EvaluationRequest \<Rightarrow> EvaluationResult) \<Rightarrow> owner \<Rightarrow> EvaluationJob \<Rightarrow> bool" where
  "track_job res rq j \<longleftrightarrow> done_job res rq j \<or> owner_of j = rq \<and> claimable j"

definition all_jobs :: "(owner \<Rightarrow> EvaluationJob \<Rightarrow> bool) \<Rightarrow> (uuid \<times> owner) set \<Rightarrow> store \<Rightarrow> bool" where
  "all_jobs P J m \<longleftrightarrow> (\<forall>i rq. (i, rq) \<in> J \<longrightarrow> (\<exists>j. m i = Some j \<and> P rq j))"

lemma on_track_all_done:
  assumes "all_jobs (track_job res) J m" and "claimable_ids m = {}"
  shows "all_jobs (done_job res) J m"
  using assms unfolding all_jobs_def track_job_def claimable_ids_def by blast

lemma requeued_same: "m i = Some j \<Longrightarrow> \<not> stale cutoff j \<Longrightarrow> requeued cutoff tm m i = Some j"
  by (simp add: requeued_def)

lemma all_jobs_requeued:
  assumes "all_jobs P J m" and "\<And>rq j. P rq j \<Longrightarrow> \<not> stale cutoff j"
  shows "all_jobs P J (requeued cutoff tm m)"
  using assms unfolding all_jobs_def by (blast intro: requeued_same)

lemma all_jobs_pass:
  assumes "pass_result res m m'" and "all_jobs P J m"
    and "\<And>rq j ca t t1 t2. P rq j \<Longrightarrow> P rq (succeeded (res (request j)) ca t (claimed t1 t2 j))"
  shows "all_jobs P J m'"
proof (cases "claimable_ids m = {}")
  case False
  with assms(1) obtain j ca t t1 t2 where j: "m (job_id j) = Some j" and
      m': "m' = m(job_id j \<mapsto> succeeded (res (request j)) ca t (claimed t1 t2 j))"
    unfolding pass_result_def by (simp only: if_False) blast
  show ?thesis
    unfolding all_jobs_def
  proof (intro allI impI)
    fix i rq assume "(i, rq) \<in> J"
    with assms(2) obtain x where x: "m i = Some x" "P rq x" unfolding all_jobs_def by blast
    then show "\<exists>y. m' i = Some y \<and> P rq y"
      using j assms(3) by (cases "i = job_id j") (auto simp: m')
  qed
qed (use assms in \<open>simp add: pass_result_def\<close>)

lemma done_job_not_stale: "done_job res rq j \<Longrightarrow> \<not> stale cutoff j"
  by (simp add: done_job_def stale_def)

lemma track_job_not_stale: "track_job res rq j \<Longrightarrow> \<not> stale cutoff j"
  by (auto simp: track_job_def dest: done_job_not_stale claimable_not_stale)

lemma on_done_requeued:
  "all_jobs (done_job res) J m \<Longrightarrow> all_jobs (done_job res) J (requeued cutoff tm m)"
  by (erule all_jobs_requeued) (rule done_job_not_stale)

lemma on_track_requeued:
  "all_jobs (track_job res) J m \<Longrightarrow> all_jobs (track_job res) J (requeued cutoff tm m)"
  by (erule all_jobs_requeued) (rule track_job_not_stale)

lemma done_job_succeeded:
  "owner_of j = rq \<Longrightarrow> done_job res rq (succeeded (res (request j)) ca t (claimed t1 t2 j))"
  by (simp add: done_job_def request_owner [of j]) (simp add: succeeded_def)

lemma done_job_pass:
  "done_job res rq j \<Longrightarrow> done_job res rq (succeeded (res (request j)) ca t (claimed t1 t2 j))"
  by (rule done_job_succeeded) (simp add: done_job_def)

lemma track_job_pass:
  "track_job res rq j \<Longrightarrow> track_job res rq (succeeded (res (request j)) ca t (claimed t1 t2 j))"
  unfolding track_job_def by (blast intro: done_job_succeeded done_job_pass)

lemma pass_open_ids:
  assumes "pass_result res m m'" and "claimable_ids m \<noteq> {}" and "finite (dom m)"
  shows "Suc (card (open_ids m')) = card (open_ids m)"
proof -
  from assms obtain j ca t t1 t2 where j: "m (job_id j) = Some j" "claimable j" and
      m': "m' = m(job_id j \<mapsto> succeeded (res (request j)) ca t (claimed t1 t2 j))"
    unfolding pass_result_def by (simp only: if_False) blast
  have "finite (open_ids m)"
    by (rule finite_subset [OF _ assms(3)]) (auto simp: open_ids_def)
  moreover have "job_id j \<in> open_ids m" using j by (auto simp: open_ids_def dest: claimable_open_job)
  ultimately show ?thesis
    by (simp only: m' open_ids_succeeded card_Suc_Diff1)
qed

lemma dom_requeued: "dom (requeued cutoff tm m) = dom m"
  by (auto simp: requeued_def)

text \<open>Jobs that the next pass finds claimable: those that are, and stale ones with attempts left.\<close>

definition due :: "datetime \<Rightarrow> EvaluationJob \<Rightarrow> bool" where
  "due cutoff j \<longleftrightarrow> claimable j \<or> stale cutoff j \<and> attempt_count j < max_attempts j"

lemma due_open: "due cutoff j \<Longrightarrow> open_job j"
  by (auto simp: due_def stale_def open_job_def claimable_def)

lemma request_recovered [simp]: "request (recovered t j) = request j"
  by (simp add: recovered_def)

lemma requeued_on_track:
  assumes "all_jobs (\<lambda>rq j. owner_of j = rq \<and> due cutoff j) J m"
  shows "all_jobs (track_job res) J (requeued cutoff tm m)"
  unfolding all_jobs_def
proof (intro allI impI)
  fix i rq assume "(i, rq) \<in> J"
  then obtain j where j: "m i = Some j" "owner_of j = rq" "due cutoff j"
    using assms unfolding all_jobs_def by blast
  define j' where "j' = (if stale cutoff j then recovered (tm i) j else j)"
  have "requeued cutoff tm m i = Some j'" by (simp add: requeued_def j(1) j'_def)
  moreover have "claimable j'" "owner_of j' = rq"
    using j(2,3) claimable_recovered [of cutoff j "tm i"]
    by (auto simp: j'_def due_def dest: claimable_not_stale)
  ultimately show "\<exists>j. requeued cutoff tm m i = Some j \<and> track_job res rq j"
    unfolding track_job_def by blast
qed

locale evaluation_worker = job_service ops view invar fits settle
  for ops :: "'s repo_ops" and view :: "'s \<Rightarrow> store" and invar :: "'s \<Rightarrow> bool"
    and fits :: "string \<Rightarrow> bool" and settle :: "datetime option \<Rightarrow> datetime option"
begin

lemma process_claimed_quiet:
  assumes inv: "invar (repository w)" and v: "view (repository w) (job_id job) = Some j"
    and run: "status j = RUNNING" and quiet: "quiet_scorer sc"
    and res: "\<And>w. fst (sc (request job) w) = Inr res"
    and val: "valid_EvaluationResult res" "fits (justification res)"
  shows "\<exists>w' t. process_claimed ops sc job w = (Inr (), w') \<and> invar (repository w') \<and>
      view (repository w') =
        (view (repository w))(job_id job \<mapsto> succeeded res (settle (claimed_at j)) t j)"
proof -
  define w1 where "w1 = audit_record ''evaluation.job_running'' (tenant_id job) (project_id job)
    (uuid_str (job_id job)) [] (traced_span ''job.process''
      (job_attributes (tenant_id job) (project_id job) (job_id job)) w)"
  obtain w2 where sc: "sc (request job) w1 = (Inr res, w2)"
    using res [of w1] by (cases "sc (request job) w1") auto
  have w2: "repository w2 = repository w"
    using quiet [unfolded quiet_scorer_def, rule_format, of "request job" w1] sc by (simp add: w1_def)
  from set_succeeded_law [of "repository w" "job_id job" j res "wall w2"] inv v run val obtain t s' c' where
    "set_succeeded_op ops (job_id job) res (wall w2) (repository w2) =
       (Inr (succeeded res (settle (claimed_at j)) t j), s', c')" "invar s'"
    "view s' = (view (repository w))(job_id job \<mapsto> succeeded res (settle (claimed_at j)) t j)"
    by (auto simp: w2)
  then show ?thesis
    using sc by (simp add: process_claimed_def score_and_store_def w1_def [symmetric] call_eq Let_def) blast
qed

lemma iteration_recovers:
  assumes inv: "invar (repository w)"
    and cutoff: "cutoff = wall w 0 - timedelta_seconds (stale_job_seconds k)"
  shows "\<exists>w2 tm. invar (repository w2) \<and> view (repository w2) = requeued cutoff tm (view (repository w)) \<and>
    worker_iteration ops sc sleep k w =
      (case call (claim_next_queued_op ops) w2 of
         (Inl e, w3) \<Rightarrow> (Inl e, w3)
       | (Inr None, w3) \<Rightarrow> (Inr (), snd (sleep (poll_seconds k) w3))
       | (Inr (Some job), w3) \<Rightarrow> process_claimed ops sc job w3)"
proof -
  obtain s' n tm where rec: "recover_stale_running_op ops cutoff (shift 1 (wall w)) (repository w) =
      (Inr (card {i. \<exists>j. view (repository w) i = Some j \<and> stale cutoff j}), s', shift n (shift 1 (wall w)))"
    and s': "invar s'" "view s' = requeued cutoff tm (view (repository w))"
    using recover_law [OF inv, of cutoff "shift 1 (wall w)"] unfolding requeued_def by blast
  let ?n = "card {i. \<exists>j. view (repository w) i = Some j \<and> stale cutoff j}"
  let ?w1 = "w\<lparr>wall := shift 1 (wall w), repository := s', wall := shift n (shift 1 (wall w))\<rparr>"
  let ?w2 = "if ?n \<noteq> 0 then emit_log ''WARNING'' ''recovered stale running jobs''
      [(''job_count'', LInt (int ?n))] None (with_metrics (record_worker_recovered_jobs ?n) ?w1) else ?w1"
  have c: "call (recover_stale_running_op ops cutoff) (w\<lparr>wall := shift 1 (wall w)\<rparr>) = (Inr ?n, ?w1)"
    using rec by (simp add: call_def)
  have "repository ?w2 = s'" by simp
  with s' show ?thesis
    by (intro exI [of _ ?w2] exI [of _ tm])
      (simp only: worker_iteration_def now_eq Let_def prod.case cutoff [symmetric] c sum.case simp_thms)
qed

lemma iteration_law:
  assumes inv: "invar (repository w)" and quiet: "quiet_scorer sc" "quiet_sleep sleep"
    and res: "\<And>req w. fst (sc req w) = Inr (res req)" and val: "\<And>req. valid_EvaluationResult (res req)" "\<And>req. fits (justification (res req))"
    and cutoff: "cutoff = wall w 0 - timedelta_seconds (stale_job_seconds k)"
  shows "\<exists>w' tm. worker_iteration ops sc sleep k w = (Inr (), w') \<and> invar (repository w') \<and>
    pass_result res (requeued cutoff tm (view (repository w))) (view (repository w'))"
proof -
  obtain w2 tm where w2: "invar (repository w2)"
      "view (repository w2) = requeued cutoff tm (view (repository w))" and it:
    "worker_iteration ops sc sleep k w =
      (case call (claim_next_queued_op ops) w2 of
         (Inl e, w3) \<Rightarrow> (Inl e, w3)
       | (Inr None, w3) \<Rightarrow> (Inr (), snd (sleep (poll_seconds k) w3))
       | (Inr (Some job), w3) \<Rightarrow> process_claimed ops sc job w3)"
    using iteration_recovers [OF inv cutoff] by blast
  show ?thesis
  proof (cases "claimable_ids (view (repository w2)) = {}")
    case True
    then have "call (claim_next_queued_op ops) w2 = (Inr None, w2)"
      using claim_none_law [OF w2(1)] by (simp add: call_eq claimable_ids_empty)
    with True w2 quiet(2) show ?thesis
      by (auto simp: it pass_result_def quiet_sleep_def)
  next
    case False
    then have "\<exists>j \<in> ran (view (repository w2)). claimable j" by (simp add: claimable_ids_empty)
    from claim_some_law [OF w2(1) this, of "wall w2"] obtain j t1 t2 s3 c3 where
      j: "view (repository w2) (job_id j) = Some j" "claimable j"
        "\<forall>j' \<in> ran (view (repository w2)). claimable j' \<longrightarrow> created_at j \<le> created_at j'"
      and cl: "claim_next_queued_op ops (wall w2) (repository w2) = (Inr (Some (claimed t1 t2 j)), s3, c3)"
      and s3: "invar s3" "view s3 = (view (repository w2))(job_id j \<mapsto> claimed t1 t2 j)"
      by blast
    let ?w3 = "w2\<lparr>repository := s3, wall := c3\<rparr>"
    have v: "view (repository ?w3) (job_id (claimed t1 t2 j)) = Some (claimed t1 t2 j)"
      by (simp add: s3(2))
    obtain w' t where w': "process_claimed ops sc (claimed t1 t2 j) ?w3 = (Inr (), w')" "invar (repository w')"
        "view (repository w') = (view (repository w2))
           (job_id j \<mapsto> succeeded (res (request j)) (settle (Some t1)) t (claimed t1 t2 j))"
      using process_claimed_quiet [OF _ v _ quiet(1) _ val] s3 res by fastforce
    have "pass_result res (view (repository w2)) (view (repository w'))"
      using False j w'(3) unfolding pass_result_def by (simp only: if_False) blast
    with w'(1,2) w2(2) cl show ?thesis
      by (auto simp: it call_eq)
  qed
qed

lemma one_pass:
  assumes inv: "invar (repository w)" and quiet: "quiet_scorer sc" "quiet_sleep sleep"
    and res: "\<And>req w. fst (sc req w) = Inr (res req)" and val: "\<And>req. valid_EvaluationResult (res req)" "\<And>req. fits (justification (res req))"
    and track: "\<And>tm. all_jobs (track_job res) J (requeued (wall w 0 - timedelta_seconds (stale_job_seconds k)) tm
      (view (repository w)))"
  shows "\<exists>w'. worker_iteration ops sc sleep k w = (Inr (), w') \<and> invar (repository w') \<and>
    all_jobs (track_job res) J (view (repository w')) \<and>
    (all_jobs (done_job res) J (view (repository w)) \<longrightarrow> all_jobs (done_job res) J (view (repository w'))) \<and>
    (all_jobs (done_job res) J (view (repository w')) \<or>
     card (open_ids (view (repository w'))) < card (open_ids (view (repository w))))"
proof -
  obtain w' tm where it: "worker_iteration ops sc sleep k w = (Inr (), w')" "invar (repository w')" and
    pass: "pass_result res (requeued (wall w 0 - timedelta_seconds (stale_job_seconds k)) tm
      (view (repository w))) (view (repository w'))" (is "pass_result res ?m1 ?m'")
    using iteration_law [OF inv quiet res val refl] by blast
  have fin: "finite (dom (view (repository w)))" by (rule view_finite [OF inv])
  have sub: "card (open_ids ?m1) \<le> card (open_ids (view (repository w)))"
    by (rule card_mono [OF finite_subset [OF _ fin] open_ids_requeued]) (auto simp: open_ids_def)
  have "all_jobs (done_job res) J ?m' \<or> card (open_ids ?m') < card (open_ids (view (repository w)))"
  proof (cases "claimable_ids ?m1 = {}")
    case True
    with pass track [of tm] show ?thesis by (simp add: pass_result_def on_track_all_done)
  next
    case False
    with pass_open_ids [OF pass] fin sub show ?thesis by (simp add: dom_requeued)
  qed
  moreover have "all_jobs (track_job res) J ?m'"
    using pass track by (rule all_jobs_pass) (rule track_job_pass)
  moreover have "all_jobs (done_job res) J ?m'" if "all_jobs (done_job res) J (view (repository w))"
    using pass on_done_requeued [OF that] by (rule all_jobs_pass) (rule done_job_pass)
  ultimately show ?thesis using it by blast
qed

lemma loop_finishes:
  assumes quiet: "quiet_scorer sc" "quiet_sleep sleep"
    and res: "\<And>req w. fst (sc req w) = Inr (res req)" and val: "\<And>req. valid_EvaluationResult (res req)" "\<And>req. fits (justification (res req))"
  shows "invar (repository w) \<Longrightarrow> all_jobs (track_job res) J (view (repository w)) \<Longrightarrow>
    all_jobs (done_job res) J (view (repository w)) \<or> card (open_ids (view (repository w))) \<le> n \<Longrightarrow>
    \<exists>w'. worker_loop ops sc sleep k (replicate n False) w = (WorkerRunning, w') \<and>
         invar (repository w') \<and> all_jobs (done_job res) J (view (repository w'))"
proof (induction n arbitrary: w)
  case 0
  have "finite (open_ids (view (repository w)))"
    by (rule finite_subset [OF _ view_finite [OF 0(1)]]) (auto simp: open_ids_def)
  with 0(3) have "all_jobs (done_job res) J (view (repository w)) \<or> open_ids (view (repository w)) = {}" by auto
  with 0(1,2) claimable_open [of "view (repository w)"] show ?case
    by (auto intro: on_track_all_done)
next
  case (Suc n)
  from one_pass [OF Suc.prems(1) quiet res val on_track_requeued [OF Suc.prems(2)]] obtain w' where
    w': "worker_iteration ops sc sleep k w = (Inr (), w')" "invar (repository w')"
      "all_jobs (track_job res) J (view (repository w'))"
      "all_jobs (done_job res) J (view (repository w)) \<longrightarrow> all_jobs (done_job res) J (view (repository w'))"
      "all_jobs (done_job res) J (view (repository w')) \<or>
       card (open_ids (view (repository w'))) < card (open_ids (view (repository w)))"
    by blast
  with Suc.prems(3) have "all_jobs (done_job res) J (view (repository w')) \<or> card (open_ids (view (repository w'))) \<le> n"
    by auto
  from Suc.IH [OF w'(2,3) this] w'(1) show ?case by simp
qed

lemma worker_finishes:
  assumes inv: "invar (repository w)" and quiet: "quiet_scorer sc" "quiet_sleep sleep"
    and res: "\<And>req w. fst (sc req w) = Inr (res req)" and val: "\<And>req. valid_EvaluationResult (res req)" "\<And>req. fits (justification (res req))"
    and J: "all_jobs (\<lambda>rq j. owner_of j = rq \<and>
      due (wall w 0 - timedelta_seconds (stale_job_seconds k)) j) J (view (repository w))"
    and n: "card (open_ids (view (repository w))) \<le> n"
  shows "\<exists>w'. worker_loop ops sc sleep k (replicate n False) w = (WorkerRunning, w') \<and>
         invar (repository w') \<and> all_jobs (done_job res) J (view (repository w'))"
proof (cases n)
  case 0
  have "finite (open_ids (view (repository w)))"
    by (rule finite_subset [OF _ view_finite [OF inv]]) (auto simp: open_ids_def)
  with n 0 have none: "open_ids (view (repository w)) = {}" by simp
  have "(i, rq) \<notin> J" for i rq
  proof
    assume "(i, rq) \<in> J"
    with J have "i \<in> open_ids (view (repository w))"
      unfolding open_ids_def all_jobs_def by (blast intro: due_open)
    with none show False by simp
  qed
  then have "J = {}" by auto
  with 0 inv show ?thesis by (simp add: all_jobs_def)
next
  case (Suc n')
  from one_pass [OF inv quiet res val requeued_on_track [OF J]] obtain w' where
    w': "worker_iteration ops sc sleep k w = (Inr (), w')" "invar (repository w')"
      "all_jobs (track_job res) J (view (repository w'))"
      "all_jobs (done_job res) J (view (repository w')) \<or>
       card (open_ids (view (repository w'))) < card (open_ids (view (repository w)))"
    by blast
  with n Suc have "all_jobs (done_job res) J (view (repository w')) \<or> card (open_ids (view (repository w'))) \<le> n'"
    by auto
  from loop_finishes [OF quiet res val w'(2,3) this] w'(1) Suc show ?thesis by simp
qed

lemma process_claimed_quiet_fails:
  assumes inv: "invar (repository w)" and v: "view (repository w) (job_id job) = Some j"
    and nf: "\<not> final j" and quiet: "quiet_scorer sc"
    and res: "\<And>w. fst (sc (request job) w) = Inl e"
  shows "\<exists>w' t. process_claimed ops sc job w = (Inl e, w') \<and> invar (repository w') \<and>
      view (repository w') = (view (repository w))
        (job_id job \<mapsto> failed ''Evaluation failed.'' (settle (claimed_at j)) t j)"
proof -
  define w1 where "w1 = audit_record ''evaluation.job_running'' (tenant_id job) (project_id job)
    (uuid_str (job_id job)) [] (traced_span ''job.process''
      (job_attributes (tenant_id job) (project_id job) (job_id job)) w)"
  obtain w2 where sc: "sc (request job) w1 = (Inl e, w2)"
    using res [of w1] by (cases "sc (request job) w1") auto
  have w2: "repository w2 = repository w"
    using quiet [unfolded quiet_scorer_def, rule_format, of "request job" w1] sc by (simp add: w1_def)
  obtain t where "invar (repository (record_failure ops job ''Evaluation failed.'' e w2))"
    "view (repository (record_failure ops job ''Evaluation failed.'' e w2)) = (view (repository w))
        (job_id job \<mapsto> failed ''Evaluation failed.'' (settle (claimed_at j)) t j)"
    using record_failure_law [of w2 job j "''Evaluation failed.''" e] inv v nf by (auto simp: w2)
  then show ?thesis
    using sc by (auto simp: process_claimed_def score_and_store_def w1_def [symmetric] Let_def
        reraise_failure_def)
qed

lemma iteration_crashes:
  assumes inv: "invar (repository w)" and quiet: "quiet_scorer sc"
    and cutoff: "cutoff = wall w 0 - timedelta_seconds (stale_job_seconds k)"
    and j0: "view (repository w) i0 = Some j0" "due cutoff j0"
    and fails: "\<And>req w. fst (sc req w) = Inl e"
  shows "\<exists>w' tm j t t1 t2. worker_iteration ops sc sleep k w = (Inl e, w') \<and> invar (repository w') \<and>
    requeued cutoff tm (view (repository w)) (job_id j) = Some j \<and> claimable j \<and>
    view (repository w') = (requeued cutoff tm (view (repository w)))
      (job_id j \<mapsto> failed ''Evaluation failed.'' (settle (Some t1)) t (claimed t1 t2 j))"
proof -
  obtain w2 tm where w2: "invar (repository w2)"
      "view (repository w2) = requeued cutoff tm (view (repository w))" and it:
    "worker_iteration ops sc sleep k w =
      (case call (claim_next_queued_op ops) w2 of
         (Inl e, w3) \<Rightarrow> (Inl e, w3)
       | (Inr None, w3) \<Rightarrow> (Inr (), snd (sleep (poll_seconds k) w3))
       | (Inr (Some job), w3) \<Rightarrow> process_claimed ops sc job w3)"
    using iteration_recovers [OF inv cutoff] by blast
  define j1 where "j1 = (if stale cutoff j0 then recovered (tm i0) j0 else j0)"
  have "view (repository w2) i0 = Some j1" by (simp add: w2(2) requeued_def j0(1) j1_def)
  moreover have "claimable j1"
    using j0(2) claimable_recovered [of cutoff j0 "tm i0"]
    by (auto simp: j1_def due_def dest: claimable_not_stale)
  ultimately have "\<exists>j \<in> ran (view (repository w2)). claimable j" by (blast intro: ranI)
  from claim_some_law [OF w2(1) this, of "wall w2"] obtain j t1 t2 s3 c3 where
    j: "view (repository w2) (job_id j) = Some j" "claimable j"
    and cl: "claim_next_queued_op ops (wall w2) (repository w2) = (Inr (Some (claimed t1 t2 j)), s3, c3)"
    and s3: "invar s3" "view s3 = (view (repository w2))(job_id j \<mapsto> claimed t1 t2 j)"
    by blast
  let ?w3 = "w2\<lparr>repository := s3, wall := c3\<rparr>"
  have v: "view (repository ?w3) (job_id (claimed t1 t2 j)) = Some (claimed t1 t2 j)"
    by (simp add: s3(2))
  have nf: "\<not> final (claimed t1 t2 j)" by (simp add: final_def)
  obtain w' t where w': "process_claimed ops sc (claimed t1 t2 j) ?w3 = (Inl e, w')" "invar (repository w')"
      "view (repository w') = (view (repository w2))
         (job_id j \<mapsto> failed ''Evaluation failed.'' (settle (Some t1)) t (claimed t1 t2 j))"
    using process_claimed_quiet_fails [OF _ v nf quiet fails] s3 by fastforce
  have "worker_iteration ops sc sleep k w = (Inl e, w')"
    using cl w'(1) by (simp add: it call_eq)
  with w'(2,3) j show ?thesis unfolding w2(2) by blast
qed

end

subsection \<open>The evaluator as the worker's and the service's scorer\<close>

text \<open>A sleep during which other tasks leave job \<open>i\<close> alone: its stored state, its audit events and
  the repository's invariant are as before, whatever happens to other jobs.\<close>

definition considerate :: "('s \<Rightarrow> store) \<Rightarrow> ('s \<Rightarrow> bool) \<Rightarrow> uuid \<Rightarrow> 's world sleep \<Rightarrow> bool" where
  "considerate view invar i sleep \<longleftrightarrow>
     (\<forall>d w. invar (repository w) \<longrightarrow>
        invar (repository (snd (sleep d w))) \<and>
        view (repository (snd (sleep d w))) i = view (repository w) i \<and>
        events_of i (snd (sleep d w)) = events_of i w)"

lemma evaluator_undisturbed:
  assumes "considerate view invar i sleep"
  shows "undisturbed view invar i req (evaluator_score sleep timeout)"
  unfolding undisturbed_def
proof (intro allI impI)
  fix w r w'
  assume run: "evaluator_score sleep timeout req w = (r, w')" and inv: "invar (repository w)"
  let ?P = "\<lambda>x. invar (repository x) \<and> view (repository x) i = view (repository w) i \<and>
    events_of i x = events_of i w"
  show "?P w'"
    by (rule evaluator_score_preserves [OF run, where P = ?P])
      (use inv assms in \<open>auto simp: considerate_def events_of_def\<close>)
qed

lemma evaluator_quiet:
  assumes "quiet_sleep sleep"
  shows "quiet_scorer (evaluator_score sleep timeout)"
  unfolding quiet_scorer_def
proof (intro allI)
  fix req w
  show "repository (snd (evaluator_score sleep timeout req w)) = repository w"
    by (rule evaluator_score_preserves [OF surjective_pairing, where P = "\<lambda>x. repository x = repository w"])
      (use assms in \<open>auto simp: quiet_sleep_def\<close>)
qed

definition mock_result :: "EvaluationRequest \<Rightarrow> EvaluationResult" where
  "mock_result req = projr (score_mock_response req)"

lemma mock_result: "score_mock_response req = Inr (mock_result req)"
  by (simp add: mock_result_def score_mock_response_parts)

lemma mock_result_justification [simp]: "justification (mock_result req) = mock_justification"
  by (simp add: mock_result_def score_mock_response_parts)

lemma mock_justification_plain [simp]: "CHR 0x00 \<notin> set mock_justification"
  by (simp add: mock_justification_def)

lemma mock_result_valid: "valid_EvaluationResult (mock_result req)"
  using part_bounds(1,2,7,8) [of "rq_answer req"] part_bounds(3,4) [of "rq_question req" "rq_answer req"]
    part_bounds(5,6) [of "rq_rubric req" "rq_answer req"]
  by (simp add: mock_result_def score_mock_response_parts valid_EvaluationResult_def)

context evaluation_worker
begin

lemma finishes_due:
  assumes "invar (repository w)" and "quiet_sleep sleep" and "\<And>w. fst (sleep (1 / 100) w) < timeout"
    and "card (open_ids (view (repository w))) \<le> n"
    and "cutoff = wall w 0 - timedelta_seconds (stale_job_seconds k)"
  shows "\<exists>w'. worker_loop ops (evaluator_score sleep timeout) sleep k (replicate n False) w =
        (WorkerRunning, w') \<and> invar (repository w') \<and>
      (\<forall>i j. view (repository w) i = Some j \<and> due cutoff j \<longrightarrow>
         (\<exists>j'. view (repository w') i = Some j' \<and> owner_of j' = owner_of j \<and> status j' = SUCCEEDED \<and>
               (\<exists>x. score_mock_response (request j) = Inr x \<and> result j' = Some x)))"
proof -
  let ?J = "{(i, owner_of j) |i j. view (repository w) i = Some j \<and> due cutoff j}"
  have ok: "fst (evaluator_score sleep timeout req w) = Inr (mock_result req)" for req w
    using evaluator_score_in_time [of sleep timeout req w] assms(3) by (simp add: mock_result)
  have plain: "fits (justification (mock_result req))" for req by (rule fits_plain) simp
  have "all_jobs (\<lambda>rq j. owner_of j = rq \<and> due cutoff j) ?J (view (repository w))"
    unfolding all_jobs_def by blast
  from worker_finishes [OF assms(1) evaluator_quiet [OF assms(2)] assms(2) ok mock_result_valid
      plain this [unfolded assms(5)] assms(4)]
  obtain w' where w': "worker_loop ops (evaluator_score sleep timeout) sleep k (replicate n False) w =
        (WorkerRunning, w')" "invar (repository w')"
      "all_jobs (done_job mock_result) ?J (view (repository w'))"
    unfolding assms(5) by blast
  have "\<exists>j'. view (repository w') i = Some j' \<and> owner_of j' = owner_of j \<and> status j' = SUCCEEDED \<and>
      (\<exists>x. score_mock_response (request j) = Inr x \<and> result j' = Some x)"
    if "view (repository w) i = Some j" "due cutoff j" for i j
  proof -
    from that w'(3) obtain j' where "view (repository w') i = Some j'" "done_job mock_result (owner_of j) j'"
      unfolding all_jobs_def by blast
    then show ?thesis by (simp add: done_job_def mock_result request_owner)
  qed
  with w'(1,2) show ?thesis by blast
qed

text \<open>A pass on which the evaluator raises ends the loop.\<close>

lemma loop_crashes:
  assumes "invar (repository w)" and "quiet_scorer sc" and "\<And>req w. fst (sc req w) = Inl e"
    and "cutoff = wall w 0 - timedelta_seconds (stale_job_seconds k)"
    and "view (repository w) i0 = Some j0" and "due cutoff j0"
  shows "\<exists>w' tm j t t1 t2.
      worker_loop ops sc sleep k (False # flags) w = (WorkerCrashed e, w') \<and>
      claimable j \<and> requeued cutoff tm (view (repository w)) (job_id j) = Some j \<and>
      view (repository w') = (requeued cutoff tm (view (repository w)))
        (job_id j \<mapsto> failed ''Evaluation failed.'' (settle (Some t1)) t (claimed t1 t2 j))"
proof -
  from iteration_crashes [OF assms(1,2,4-6,3)] obtain w' tm j t t1 t2 where
    "worker_iteration ops sc sleep k w = (Inl e, w')"
    "requeued cutoff tm (view (repository w)) (job_id j) = Some j" "claimable j"
    "view (repository w') = (requeued cutoff tm (view (repository w)))
        (job_id j \<mapsto> failed ''Evaluation failed.'' (settle (Some t1)) t (claimed t1 t2 j))"
    by blast
  then show ?thesis
    by (intro exI [of _ w'] exI [of _ tm] exI [of _ j] exI [of _ t] exI [of _ t1] exI [of _ t2]) simp
qed

end

lemma worker_loop_append:
  "worker_loop R sc sleep k (fs @ gs) w =
     (case worker_loop R sc sleep k fs w of
        (WorkerRunning, w1) \<Rightarrow> worker_loop R sc sleep k gs w1
      | x \<Rightarrow> x)"
  by (induction fs arbitrary: w) (auto split: prod.split sum.split)

end
