(* ===== verification/JobQueue.thy ===== *)
theory JobQueue
  imports Runtime
begin

text \<open>
  \<^verbatim>\<open>app/services/queue.py\<close>: the in-memory queue and its single consumer task.

  The handler is an argument: any function from a job identifier and the world to an outcome and
  the world it leaves behind, which includes what other tasks did while the handler was awaited.
  \<open>_run\<close> is cut at the points where it can be suspended: \<open>queue_step\<close> advances the consumer
  from one such point to the next, and gives \<open>None\<close> when it has to wait (or when there is no live
  consumer), so \<open>queue_run\<close> is any number of such advances. \<open>await self._queue.get()\<close> on a
  queue with an item does not suspend, so the check of the loop condition and the removal of the
  item are one advance.
\<close>

type_synonym 's handler = "uuid \<Rightarrow> 's world \<Rightarrow> (exn + unit) \<times> 's world"

definition set_task :: "task_state \<Rightarrow> 's world \<Rightarrow> 's world" where
  "set_task t w = w\<lparr>queue := (queue w)\<lparr>queue_task := t\<rparr>\<rparr>"

definition queue_start :: "'s world \<Rightarrow> 's world" where
  "queue_start w =
     (if queue_task (queue w) = NoTask \<or> queue_task (queue w) = TaskDone
      then w\<lparr>queue := (queue w)\<lparr>queue_stopping := False, queue_task := TaskLooping\<rparr>\<rparr>
      else w)"

text \<open>\<open>stop\<close> up to \<open>await self._task\<close>, which is \<open>queue_run\<close> until the task is done.\<close>

definition queue_stop :: "'s world \<Rightarrow> 's world" where
  "queue_stop w =
     (let w1 = w\<lparr>queue := (queue w)\<lparr>queue_stopping := True\<rparr>\<rparr>
      in if queue_task (queue w1) \<noteq> NoTask then queue_put None w1 else w1)"

definition pop_item :: "'s world \<Rightarrow> 's world" where
  "pop_item w = w\<lparr>queue := (queue w)\<lparr>queue_items := tl (queue_items (queue w))\<rparr>\<rparr>"

text \<open>The \<open>finally\<close> clause: \<open>task_done\<close> and the depth gauge.\<close>

definition finish_item :: "'s world \<Rightarrow> 's world" where
  "finish_item w =
     (let w1 = w\<lparr>queue := (queue w)\<lparr>queue_unfinished := queue_unfinished (queue w) - 1\<rparr>\<rparr>
      in with_metrics (record_queue_depth (qsize w1)) w1)"

definition take_item :: "'s world \<Rightarrow> 's world option" where
  "take_item w =
     (case queue_items (queue w) of
        [] \<Rightarrow> None
      | None # _ \<Rightarrow> Some (set_task TaskDone (finish_item (pop_item w)))
      | Some i # _ \<Rightarrow> Some (set_task (TaskHandling i) (pop_item w)))"

text \<open>The body of the loop once an identifier is there: an exception of the handler is logged and
  swallowed.\<close>

definition handle_item :: "'s handler \<Rightarrow> uuid \<Rightarrow> 's world \<Rightarrow> 's world" where
  "handle_item handler i w =
     finish_item
       (case handler i w of
          (Inl e, w1) \<Rightarrow>
            emit_log ''ERROR'' ''background job handler failed'' [(''job_id'', LStr (uuid_str i))] (Some e) w1
        | (Inr _, w1) \<Rightarrow> w1)"

definition queue_step :: "'s handler \<Rightarrow> 's world \<Rightarrow> 's world option" where
  "queue_step handler w =
     (case queue_task (queue w) of
        TaskLooping \<Rightarrow>
          if queue_stopping (queue w) then Some (set_task TaskDone w)
          else (case take_item w of None \<Rightarrow> Some (set_task TaskWaiting w) | Some w1 \<Rightarrow> Some w1)
      | TaskWaiting \<Rightarrow> take_item w
      | TaskHandling i \<Rightarrow> Some (set_task TaskLooping (handle_item handler i w))
      | _ \<Rightarrow> None)"

fun queue_run :: "'s handler \<Rightarrow> nat \<Rightarrow> 's world \<Rightarrow> 's world" where
  "queue_run handler 0 w = w"
| "queue_run handler (Suc n) w =
     (case queue_step handler w of None \<Rightarrow> w | Some w1 \<Rightarrow> queue_run handler n w1)"

text \<open>\<open>join\<close> returns once no item is unfinished.\<close>

definition join_ready :: "'s world \<Rightarrow> bool" where
  "join_ready w \<longleftrightarrow> queue_unfinished (queue w) = 0"

subsection \<open>The counter of unfinished items\<close>

definition in_progress :: "'s world \<Rightarrow> int" where
  "in_progress w = (case queue_task (queue w) of TaskHandling _ \<Rightarrow> 1 | _ \<Rightarrow> 0)"

definition queue_inv :: "'s world \<Rightarrow> bool" where
  "queue_inv w \<longleftrightarrow> queue_unfinished (queue w) = qsize w + in_progress w"

text \<open>A handler that uses the queue only through \<open>enqueue\<close> and \<open>stop\<close>: it leaves the consumer's
  position alone, takes nothing out, and what it adds is counted.\<close>

definition queue_user :: "'s handler \<Rightarrow> bool" where
  "queue_user handler \<longleftrightarrow>
     (\<forall>i w. let w' = snd (handler i w) in
        queue_task (queue w') = queue_task (queue w) \<and>
        (\<exists>xs. queue_items (queue w') = queue_items (queue w) @ xs \<and>
              queue_unfinished (queue w') = queue_unfinished (queue w) + int (length xs)))"

lemma handle_item_queue:
  "queue (handle_item handler i w) =
     (queue (snd (handler i w)))\<lparr>queue_unfinished := queue_unfinished (queue (snd (handler i w))) - 1\<rparr>"
  by (cases "handler i w"; cases "fst (handler i w)")
    (auto simp: handle_item_def finish_item_def Let_def)

lemma queue_userD:
  assumes "queue_user handler"
  obtains xs where "queue_task (queue (snd (handler i w))) = queue_task (queue w)"
    and "queue_items (queue (snd (handler i w))) = queue_items (queue w) @ xs"
    and "queue_unfinished (queue (snd (handler i w))) = queue_unfinished (queue w) + int (length xs)"
  using assms by (fastforce simp: queue_user_def Let_def)

lemma queue_step_inv:
  assumes "queue_user handler" and "queue_inv w" and "queue_step handler w = Some w'"
  shows "queue_inv w'"
proof (cases "queue_task (queue w)")
  case (TaskHandling i)
  obtain xs where "queue_items (queue (snd (handler i w))) = queue_items (queue w) @ xs"
    "queue_unfinished (queue (snd (handler i w))) = queue_unfinished (queue w) + int (length xs)"
    using queue_userD [OF assms(1), of i w] by metis
  moreover have "w' = set_task TaskLooping (handle_item handler i w)"
    using assms(3) TaskHandling by (simp add: queue_step_def)
  ultimately show ?thesis
    using assms(2) TaskHandling
    by (simp add: queue_inv_def in_progress_def qsize_def set_task_def handle_item_queue)
qed (use assms in \<open>auto simp: queue_step_def queue_inv_def in_progress_def qsize_def take_item_def
    set_task_def pop_item_def finish_item_def Let_def with_metrics_def
    split: if_splits list.splits option.splits\<close>)

subsection \<open>Interleavings of producers and the consumer\<close>

datatype queue_cmd = QEnqueue uuid | QStart | QStop | QStep

fun queue_exec :: "'s handler \<Rightarrow> queue_cmd \<Rightarrow> 's world \<Rightarrow> 's world" where
  "queue_exec handler (QEnqueue i) w = enqueue i w"
| "queue_exec handler QStart w = queue_start w"
| "queue_exec handler QStop w = queue_stop w"
| "queue_exec handler QStep w = (case queue_step handler w of None \<Rightarrow> w | Some w1 \<Rightarrow> w1)"

definition queue_execs :: "'s handler \<Rightarrow> queue_cmd list \<Rightarrow> 's world \<Rightarrow> 's world" where
  "queue_execs handler cmds w = fold (queue_exec handler) cmds w"

text \<open>The identifiers still in the queue, those a sequence of commands puts in, and those it hands
  to the handler.\<close>

definition pending :: "'s world \<Rightarrow> uuid list" where
  "pending w = map the (filter (\<lambda>x. x \<noteq> None) (queue_items (queue w)))"

fun enqueued :: "queue_cmd list \<Rightarrow> uuid list" where
  "enqueued [] = []"
| "enqueued (QEnqueue i # cmds) = i # enqueued cmds"
| "enqueued (_ # cmds) = enqueued cmds"

definition handed_now :: "'s world \<Rightarrow> 's world \<Rightarrow> uuid list" where
  "handed_now w w' =
     (case queue_task (queue w') of
        TaskHandling i \<Rightarrow> (case queue_task (queue w) of TaskHandling _ \<Rightarrow> [] | _ \<Rightarrow> [i])
      | _ \<Rightarrow> [])"

fun handed :: "'s handler \<Rightarrow> queue_cmd list \<Rightarrow> 's world \<Rightarrow> uuid list" where
  "handed handler [] w = []"
| "handed handler (x # xs) w =
     handed_now w (queue_exec handler x w) @ handed handler xs (queue_exec handler x w)"

lemma queue_exec_inv:
  assumes "queue_user handler" and "queue_inv w"
  shows "queue_inv (queue_exec handler x w)"
proof (cases x)
  case QStep
  then show ?thesis using assms by (auto intro: queue_step_inv split: option.split)
qed (use assms(2) in \<open>auto simp: queue_inv_def qsize_def in_progress_def queue_start_def queue_stop_def
      Let_def queue_put_def split: task_state.splits\<close>)

lemma queue_execs_inv:
  "queue_user handler \<Longrightarrow> queue_inv w \<Longrightarrow> queue_inv (queue_execs handler cmds w)"
  unfolding queue_execs_def
  by (induction cmds arbitrary: w) (simp_all add: queue_exec_inv)

lemma queue_exec_fifo:
  assumes "\<And>i w. queue (snd (handler i w)) = queue w"
  shows "handed_now w (queue_exec handler x w) @ pending (queue_exec handler x w) =
    pending w @ enqueued [x]"
proof (cases x)
  case QStep
  then show ?thesis
    by (auto simp: queue_step_def take_item_def pending_def handed_now_def set_task_def pop_item_def
        finish_item_def Let_def handle_item_queue assms with_metrics_def
        split: task_state.splits list.splits option.splits)
qed (auto simp: pending_def handed_now_def queue_start_def queue_stop_def Let_def queue_put_def
      split: task_state.splits)

subsection \<open>Properties of the queue\<close>

text \<open>However enqueueing, starting, stopping and the consumer's advances interleave, the counter
  behind \<open>join\<close> is the number of items in the queue plus the one being handled. So \<open>join\<close> returns
  exactly when the queue is empty and no handler is running: it never returns early and never waits
  for work that is done.\<close>

lemma queue_join_exact:
  assumes "queue_user handler"
  shows "join_ready (queue_execs handler cmds (world_init s c p)) \<longleftrightarrow>
    queue_items (queue (queue_execs handler cmds (world_init s c p))) = [] \<and>
    (\<forall>i. queue_task (queue (queue_execs handler cmds (world_init s c p))) \<noteq> TaskHandling i)"
proof -
  have "queue_inv (world_init s c p)"
    by (simp add: queue_inv_def world_init_def queue_init_def qsize_def in_progress_def)
  from queue_execs_inv [OF assms this, of cmds] show ?thesis
    by (auto simp: queue_inv_def join_ready_def qsize_def in_progress_def split: task_state.splits)
qed

definition failing_handler :: "'s handler" where
  "failing_handler i w = (Inl TimeoutError, w)"

lemma queue_execs_fifo:
  assumes "\<And>i w. queue (snd (handler i w)) = queue w"
  shows "handed handler cmds w @ pending (queue_execs handler cmds w) = pending w @ enqueued cmds"
proof (induction cmds arbitrary: w)
  case (Cons x cmds)
  have "enqueued (x # cmds) = enqueued [x] @ enqueued cmds" by (cases x) simp_all
  with Cons.IH [of "queue_exec handler x w"] queue_exec_fifo [of handler w x] assms show ?case
    by (simp add: queue_execs_def)
qed (simp add: queue_execs_def)

text \<open>C32. The queue is first-in first-out and neither loses nor repeats a job: for every interleaving
  of producers, start, stop and the consumer, the jobs handed to the handler followed by the jobs
  still waiting are the jobs that were waiting at first followed by those enqueued, in that order.
  Handlers that raise are no exception.\<close>

theorem queue_fifo_lossless:
  assumes "\<And>i w. queue (snd (handler i w)) = queue w"
  shows "handed handler cmds w @ pending (queue_execs handler cmds w) = pending w @ enqueued cmds"
  by (rule queue_execs_fifo [OF assms])

theorem queue_fifo_lossless_witness:
  "handed failing_handler [QEnqueue 7, QStart, QEnqueue 8, QStep, QStep, QStep, QEnqueue 9]
     (world_init () (\<lambda>n. int n) (\<lambda>n. 0)) @
   pending (queue_execs failing_handler
     [QEnqueue 7, QStart, QEnqueue 8, QStep, QStep, QStep, QEnqueue 9]
     (world_init () (\<lambda>n. int n) (\<lambda>n. 0))) = [7, 8, 9]"
proof -
  have q: "queue (snd (failing_handler i w)) = queue w" for i and w :: "unit world"
    by (simp add: failing_handler_def)
  show ?thesis
    unfolding queue_fifo_lossless [OF q]
    by (simp add: pending_def world_init_def queue_init_def)
qed

text \<open>One identifier taken through the loop: removed from the queue, handled, counted off.\<close>

definition one_round :: "'s handler \<Rightarrow> uuid \<Rightarrow> 's world \<Rightarrow> 's world" where
  "one_round handler i w =
     set_task TaskLooping (handle_item handler i (set_task (TaskHandling i) (pop_item w)))"

lemma one_round_queue:
  assumes "\<And>i w. queue (snd (handler i w)) = queue w"
  shows "queue (one_round handler i w) =
    (queue w)\<lparr>queue_items := tl (queue_items (queue w)),
      queue_unfinished := queue_unfinished (queue w) - 1, queue_task := TaskLooping\<rparr>"
  by (simp add: one_round_def set_task_def handle_item_queue assms pop_item_def)

lemma queue_run_round:
  assumes "queue_task (queue w) = TaskLooping" and "\<not> queue_stopping (queue w)"
    and "queue_items (queue w) = Some i # xs"
  shows "queue_run handler (Suc (Suc n)) w = queue_run handler n (one_round handler i w)"
  using assms by (simp add: queue_step_def take_item_def set_task_def one_round_def pop_item_def)

lemma queue_run_drains:
  assumes "\<And>i w. queue (snd (handler i w)) = queue w"
    and "queue_task (queue w) = TaskLooping" and "\<not> queue_stopping (queue w)"
    and "queue_items (queue w) = map Some ids"
  shows "queue_run handler (2 * length ids + 1) w = set_task TaskWaiting (fold (one_round handler) ids w) \<and>
    queue_items (queue (fold (one_round handler) ids w)) = [] \<and>
    queue_unfinished (queue (fold (one_round handler) ids w)) =
      queue_unfinished (queue w) - int (length ids)"
  using assms(2-4)
proof (induction ids arbitrary: w)
  case Nil
  then show ?case by (simp add: queue_step_def take_item_def set_task_def)
next
  case (Cons i ids)
  let ?w = "one_round handler i w"
  have "queue_task (queue ?w) = TaskLooping" "\<not> queue_stopping (queue ?w)"
    "queue_items (queue ?w) = map Some ids" "queue_unfinished (queue ?w) = queue_unfinished (queue w) - 1"
    using Cons.prems by (simp_all add: one_round_queue assms(1))
  moreover have "queue_run handler (2 * length (i # ids) + 1) w = queue_run handler (2 * length ids + 1) ?w"
    using queue_run_round [of w i "map Some ids" handler "2 * length ids + 1"] Cons.prems by simp
  ultimately show ?case using Cons.IH [of ?w] by (simp del: queue_run.simps)
qed

text \<open>C33. Stopping ends a live consumer within three advances, after at most one more job, and what
  was still waiting stays unprocessed: unless the consumer was waiting in \<open>get\<close>, the sentinel that
  \<open>stop\<close> puts in is left behind in the queue after those jobs.\<close>

theorem queue_stop_ends_consumer:
  assumes "\<And>i w. queue (snd (handler i w)) = queue w"
    and "queue_task (queue w) \<in> {TaskLooping, TaskWaiting} \<union> range TaskHandling"
  shows "queue_task (queue (queue_run handler 3 (queue_stop w))) = TaskDone \<and>
    queue_items (queue (queue_run handler 3 (queue_stop w))) =
      (if queue_task (queue w) = TaskWaiting then tl (queue_items (queue w) @ [None])
       else queue_items (queue w) @ [None])"
proof -
  have items: "queue_items (queue (queue_stop w)) = queue_items (queue w) @ [None]"
    "queue_task (queue (queue_stop w)) = queue_task (queue w)" "queue_stopping (queue (queue_stop w))"
    using assms(2) by (auto simp: queue_stop_def Let_def queue_put_def)
  then show ?thesis
    using assms(2)
    by (cases "queue_items (queue w)"; cases "hd (queue_items (queue w))")
      (auto simp: numeral_3_eq_3 queue_step_def take_item_def set_task_def pop_item_def
        finish_item_def Let_def handle_item_queue assms(1))
qed

theorem queue_stop_ends_consumer_witness:
  "queue_items (queue (queue_run failing_handler 3
      (queue_stop (queue_start (enqueue 7 (world_init () (\<lambda>n. int n) (\<lambda>n. 0))))))) = [Some 7, None]"
  using queue_stop_ends_consumer [of failing_handler
      "queue_start (enqueue 7 (world_init () (\<lambda>n. int n) (\<lambda>n. 0)))"]
  by (simp add: failing_handler_def queue_start_def world_init_def queue_init_def queue_put_def)

end
