(* ===== verification/Postgres.thy ===== *)
theory Postgres
  imports Repository
begin

text \<open>
  \<^verbatim>\<open>app/storage/postgres.py\<close>: the repository on a PostgreSQL table.

  SQLAlchemy and the database are a parameter, \<open>sql_ops\<close>: one field for each way the methods use a
  session (add and commit, get by primary key, select, commit of changed rows, \<open>SELECT 1\<close>). The
  statements are data: conditions, order, limit, and whether locked rows are skipped. The locale
  \<open>sql_session\<close> names what the methods rely on: SQL's meaning of the statements, the primary key,
  and that a row that satisfies the column types is stored with the same values, where \<open>JSONB\<close> does
  not keep the order of an object's keys. \<open>up\<close> says that the database can be reached.

  A method runs in one transaction. Rows are read for update, so no other transaction changes them
  before the commit, and a method is one atomic step; what concurrent claims do to each other's
  locks is the subject of \<open>ClaimLocks\<close>. An exception leaves the session without a commit and thus
  the database as it was.
\<close>

subsection \<open>Rows\<close>

record EvaluationJobRow =
  row_job_id :: uuid
  row_tenant_id :: string
  row_project_id :: string
  row_status :: string
  row_request_payload :: json
  row_result_payload :: "json option"
  row_error_message :: "string option"
  row_attempt_count :: int
  row_max_attempts :: int
  row_claimed_at :: "datetime option"
  row_created_at :: datetime
  row_updated_at :: datetime

text \<open>\<open>model_dump\<close> of the two models that are stored as JSON.\<close>

definition dump_request :: "EvaluationRequest \<Rightarrow> json" where
  "dump_request r =
     JObj [(''tenant_id'', JStr (rq_tenant_id r)), (''project_id'', JStr (rq_project_id r)),
           (''question'', JStr (rq_question r)), (''answer'', JStr (rq_answer r)),
           (''rubric'', case rq_rubric r of None \<Rightarrow> JNull | Some s \<Rightarrow> JStr s)]"

definition dump_result :: "EvaluationResult \<Rightarrow> json" where
  "dump_result r =
     JObj [(''score'', JInt (score r)), (''justification'', JStr (justification r)),
           (''rubric_used'', JBool (rubric_used r))]"

text \<open>Validation of a stored payload. A payload of another shape, which no method writes, is a
  validation error; pydantic's conversions between JSON types are left out.\<close>

definition load_request :: "json \<Rightarrow> exn + EvaluationRequest" where
  "load_request j =
     (case j of
        JObj d \<Rightarrow>
          (case (map_of d ''tenant_id'', map_of d ''project_id'', map_of d ''question'', map_of d ''answer'') of
             (Some (JStr t), Some (JStr p), Some (JStr q), Some (JStr a)) \<Rightarrow>
               (case map_of d ''rubric'' of
                  Some (JStr r) \<Rightarrow> make_EvaluationRequest \<lparr>rq_tenant_id = t, rq_project_id = p,
                     rq_question = q, rq_answer = a, rq_rubric = Some r\<rparr>
                | Some JNull \<Rightarrow> make_EvaluationRequest \<lparr>rq_tenant_id = t, rq_project_id = p,
                     rq_question = q, rq_answer = a, rq_rubric = None\<rparr>
                | None \<Rightarrow> make_EvaluationRequest \<lparr>rq_tenant_id = t, rq_project_id = p,
                     rq_question = q, rq_answer = a, rq_rubric = None\<rparr>
                | _ \<Rightarrow> Inl ValidationError)
           | _ \<Rightarrow> Inl ValidationError)
      | _ \<Rightarrow> Inl ValidationError)"

definition load_result :: "json option \<Rightarrow> exn + EvaluationResult option" where
  "load_result j =
     (case j of
        None \<Rightarrow> Inr None
      | Some (JObj d) \<Rightarrow>
          (case (map_of d ''score'', map_of d ''justification'', map_of d ''rubric_used'') of
             (Some (JInt s), Some (JStr t), Some (JBool b)) \<Rightarrow>
               map_sum id Some (make_EvaluationResult \<lparr>score = s, justification = t, rubric_used = b\<rparr>)
           | _ \<Rightarrow> Inl ValidationError)
      | _ \<Rightarrow> Inl ValidationError)"

definition to_row :: "EvaluationJob \<Rightarrow> EvaluationJobRow" where
  "to_row job =
     \<lparr>row_job_id = job_id job, row_tenant_id = tenant_id job, row_project_id = project_id job,
      row_status = status_value (status job), row_request_payload = dump_request (request job),
      row_result_payload = map_option dump_result (result job),
      row_error_message = error_message job, row_attempt_count = attempt_count job,
      row_max_attempts = max_attempts job, row_claimed_at = claimed_at job,
      row_created_at = created_at job, row_updated_at = updated_at job\<rparr>"

definition to_domain :: "EvaluationJobRow \<Rightarrow> exn + EvaluationJob" where
  "to_domain row =
     (case JobStatus_of (row_status row) of
        Inl e \<Rightarrow> Inl e
      | Inr st \<Rightarrow>
          (case load_request (row_request_payload row) of
             Inl e \<Rightarrow> Inl e
           | Inr req \<Rightarrow>
               (case load_result (row_result_payload row) of
                  Inl e \<Rightarrow> Inl e
                | Inr res \<Rightarrow>
                    Inr \<lparr>job_id = row_job_id row, tenant_id = row_tenant_id row,
                         project_id = row_project_id row, status = st, request = req, result = res,
                         error_message = row_error_message row,
                         attempt_count = row_attempt_count row, max_attempts = row_max_attempts row,
                         claimed_at = row_claimed_at row, created_at = row_created_at row,
                         updated_at = row_updated_at row\<rparr>)))"

subsection \<open>Statements and sessions\<close>

datatype sql_condition =
    Job_id_eq uuid
  | Tenant_id_eq string
  | Project_id_eq string
  | Status_eq string
  | Attempt_count_lt_max
  | Claimed_at_not_null
  | Claimed_at_lt datetime

text \<open>A comparison with \<open>NULL\<close> is not true.\<close>

fun sql_holds :: "sql_condition \<Rightarrow> EvaluationJobRow \<Rightarrow> bool" where
  "sql_holds (Job_id_eq i) r \<longleftrightarrow> row_job_id r = i"
| "sql_holds (Tenant_id_eq t) r \<longleftrightarrow> row_tenant_id r = t"
| "sql_holds (Project_id_eq p) r \<longleftrightarrow> row_project_id r = p"
| "sql_holds (Status_eq s) r \<longleftrightarrow> row_status r = s"
| "sql_holds Attempt_count_lt_max r \<longleftrightarrow> row_attempt_count r < row_max_attempts r"
| "sql_holds Claimed_at_not_null r \<longleftrightarrow> row_claimed_at r \<noteq> None"
| "sql_holds (Claimed_at_lt t) r \<longleftrightarrow> (case row_claimed_at r of None \<Rightarrow> False | Some u \<Rightarrow> u < t)"

datatype sql_order = No_order | Created_at_asc | Created_at_desc

record sql_select =
  sel_where :: "sql_condition list"
  sel_order :: sql_order
  sel_limit :: "int option"
  sel_skip_locked :: bool

definition select_rows :: sql_select where
  "select_rows = \<lparr>sel_where = [], sel_order = No_order, sel_limit = None, sel_skip_locked = False\<rparr>"

record 'd sql_ops =
  sql_insert :: "EvaluationJobRow \<Rightarrow> 'd \<Rightarrow> (exn + unit) \<times> 'd"
  sql_get :: "uuid \<Rightarrow> 'd \<Rightarrow> exn + EvaluationJobRow option"
  sql_rows :: "sql_select \<Rightarrow> 'd \<Rightarrow> exn + EvaluationJobRow list"
  sql_update :: "EvaluationJobRow list \<Rightarrow> 'd \<Rightarrow> (exn + unit) \<times> 'd"
  sql_select_1 :: "'d \<Rightarrow> exn + unit"

subsection \<open>The repository\<close>

definition pg_create :: "'d sql_ops \<Rightarrow> EvaluationJob \<Rightarrow> 'd \<Rightarrow> (exn + EvaluationJob) \<times> 'd" where
  "pg_create db job d =
     (case sql_insert db (to_row job) d of
        (Inl e, d1) \<Rightarrow> (Inl e, d1)
      | (Inr _, d1) \<Rightarrow> (Inr job, d1))"

definition pg_get :: "'d sql_ops \<Rightarrow> uuid \<Rightarrow> 'd \<Rightarrow> exn + EvaluationJob" where
  "pg_get db i d =
     (case sql_get db i d of
        Inl e \<Rightarrow> Inl e
      | Inr None \<Rightarrow> Inl raise_NotFound
      | Inr (Some row) \<Rightarrow> to_domain row)"

definition pg_get_for_tenant :: "'d sql_ops \<Rightarrow> uuid \<Rightarrow> string \<Rightarrow> 'd \<Rightarrow> exn + EvaluationJob" where
  "pg_get_for_tenant db i tenant d =
     (let statement = select_rows\<lparr>sel_where := [Job_id_eq i, Tenant_id_eq tenant]\<rparr>
      in case sql_rows db statement d of
           Inl e \<Rightarrow> Inl e
         | Inr [] \<Rightarrow> Inl raise_NotFound
         | Inr (row # _) \<Rightarrow> to_domain row)"

definition pg_list_recent ::
    "'d sql_ops \<Rightarrow> string \<Rightarrow> string option \<Rightarrow> int \<Rightarrow> 'd \<Rightarrow> exn + EvaluationJob list" where
  "pg_list_recent db tenant project limit d =
     (let base = select_rows\<lparr>sel_where := [Tenant_id_eq tenant], sel_order := Created_at_desc,
                             sel_limit := Some limit\<rparr>;
          statement = (case project of None \<Rightarrow> base
                       | Some p \<Rightarrow> base\<lparr>sel_where := sel_where base @ [Project_id_eq p]\<rparr>)
      in case sql_rows db statement d of
           Inl e \<Rightarrow> Inl e
         | Inr rows \<Rightarrow> collect (map to_domain rows))"

text \<open>\<open>commit\<close>, then \<open>refresh\<close>, then the domain object: how the single-row updates end.\<close>

definition commit_row ::
    "'d sql_ops \<Rightarrow> EvaluationJobRow \<Rightarrow> clock \<Rightarrow> 'd \<Rightarrow> (exn + EvaluationJob) \<times> 'd \<times> clock" where
  "commit_row db row c d =
     (case sql_update db [row] d of
        (Inl e, d1) \<Rightarrow> (Inl e, d1, c)
      | (Inr _, d1) \<Rightarrow> (pg_get db (row_job_id row) d1, d1, c))"

definition claim_statement :: sql_select where
  "claim_statement =
     select_rows\<lparr>sel_where := [Status_eq (status_value QUEUED), Attempt_count_lt_max],
                 sel_order := Created_at_asc, sel_limit := Some 1, sel_skip_locked := True\<rparr>"

definition claim_row :: "datetime \<Rightarrow> EvaluationJobRow \<Rightarrow> EvaluationJobRow" where
  "claim_row t row =
     row\<lparr>row_status := status_value RUNNING, row_attempt_count := row_attempt_count row + 1,
         row_claimed_at := Some t, row_updated_at := t\<rparr>"

definition pg_claim_next_queued ::
    "'d sql_ops \<Rightarrow> clock \<Rightarrow> 'd \<Rightarrow> (exn + EvaluationJob option) \<times> 'd \<times> clock" where
  "pg_claim_next_queued db c d =
     (case sql_rows db claim_statement d of
        Inl e \<Rightarrow> (Inl e, d, c)
      | Inr [] \<Rightarrow> (Inr None, d, c)
      | Inr (row # _) \<Rightarrow>
          (let (t, c1) = now c;
               (r, d1, c2) = commit_row db (claim_row t row) c1 d
           in (map_sum id Some r, d1, c2)))"

definition recover_statement :: "datetime \<Rightarrow> sql_select" where
  "recover_statement cutoff =
     select_rows\<lparr>sel_where := [Status_eq (status_value RUNNING), Claimed_at_not_null, Claimed_at_lt cutoff],
                 sel_skip_locked := True\<rparr>"

definition recover_row :: "datetime \<Rightarrow> EvaluationJobRow \<Rightarrow> EvaluationJobRow" where
  "recover_row t row =
     (let row1 =
            (if row_attempt_count row \<ge> row_max_attempts row
             then row\<lparr>row_status := status_value FAILED,
                      row_error_message := Some ''Evaluation worker timed out.''\<rparr>
             else row\<lparr>row_status := status_value QUEUED,
                      row_error_message := Some ''Evaluation worker stopped before completing the job.''\<rparr>)
      in row1\<lparr>row_claimed_at := None, row_updated_at := t\<rparr>)"

definition pg_recover_stale_running ::
    "'d sql_ops \<Rightarrow> datetime \<Rightarrow> clock \<Rightarrow> 'd \<Rightarrow> (exn + nat) \<times> 'd \<times> clock" where
  "pg_recover_stale_running db cutoff c d =
     (case sql_rows db (recover_statement cutoff) d of
        Inl e \<Rightarrow> (Inl e, d, c)
      | Inr rows \<Rightarrow>
          (let (t, c1) = now c
           in case sql_update db (map (recover_row t) rows) d of
                (Inl e, d1) \<Rightarrow> (Inl e, d1, c1)
              | (Inr _, d1) \<Rightarrow> (Inr (length rows), d1, c1)))"

definition validate_transition :: "string \<Rightarrow> JobStatus set \<Rightarrow> exn + unit" where
  "validate_transition current_status allowed_from =
     (case JobStatus_of current_status of
        Inl e \<Rightarrow> Inl e
      | Inr current \<Rightarrow>
          if current \<notin> allowed_from then Inl raise_InvalidStateTransition else Inr ())"

text \<open>The part that the three transitions share: read the row for update, check its status, change
  it at the time of the next clock reading, and commit.\<close>

definition change_row ::
    "'d sql_ops \<Rightarrow> uuid \<Rightarrow> JobStatus set \<Rightarrow> (datetime \<Rightarrow> EvaluationJobRow \<Rightarrow> EvaluationJobRow) \<Rightarrow>
       clock \<Rightarrow> 'd \<Rightarrow> (exn + EvaluationJob) \<times> 'd \<times> clock" where
  "change_row db i allowed_from change c d =
     (case sql_get db i d of
        Inl e \<Rightarrow> (Inl e, d, c)
      | Inr None \<Rightarrow> (Inl raise_NotFound, d, c)
      | Inr (Some row) \<Rightarrow>
          (case validate_transition (row_status row) allowed_from of
             Inl e \<Rightarrow> (Inl e, d, c)
           | Inr _ \<Rightarrow> (let (t, c1) = now c in commit_row db (change t row) c1 d)))"

definition pg_transition ::
    "'d sql_ops \<Rightarrow> uuid \<Rightarrow> JobStatus set \<Rightarrow> JobStatus \<Rightarrow> clock \<Rightarrow> 'd \<Rightarrow> (exn + EvaluationJob) \<times> 'd \<times> clock" where
  "pg_transition db i allowed_from target c d =
     change_row db i allowed_from
       (\<lambda>t row. row\<lparr>row_status := status_value target, row_updated_at := t\<rparr>) c d"

definition pg_set_running ::
    "'d sql_ops \<Rightarrow> uuid \<Rightarrow> clock \<Rightarrow> 'd \<Rightarrow> (exn + EvaluationJob) \<times> 'd \<times> clock" where
  "pg_set_running db i c d = pg_transition db i {QUEUED} RUNNING c d"

definition pg_set_succeeded ::
    "'d sql_ops \<Rightarrow> uuid \<Rightarrow> EvaluationResult \<Rightarrow> clock \<Rightarrow> 'd \<Rightarrow> (exn + EvaluationJob) \<times> 'd \<times> clock" where
  "pg_set_succeeded db i res c d =
     change_row db i {RUNNING}
       (\<lambda>t row. row\<lparr>row_status := status_value SUCCEEDED, row_result_payload := Some (dump_result res),
                    row_claimed_at := None, row_updated_at := t\<rparr>) c d"

definition pg_set_failed ::
    "'d sql_ops \<Rightarrow> uuid \<Rightarrow> string \<Rightarrow> clock \<Rightarrow> 'd \<Rightarrow> (exn + EvaluationJob) \<times> 'd \<times> clock" where
  "pg_set_failed db i message c d =
     change_row db i {QUEUED, RUNNING}
       (\<lambda>t row. row\<lparr>row_status := status_value FAILED, row_error_message := Some message,
                    row_claimed_at := None, row_updated_at := t\<rparr>) c d"

definition pg_health_check :: "'d sql_ops \<Rightarrow> 'd \<Rightarrow> exn + bool" where
  "pg_health_check db d =
     (case sql_select_1 db d of
        Inr _ \<Rightarrow> Inr True
      | Inl e \<Rightarrow> if e = SQLAlchemyError \<or> e = IntegrityError then Inr False else Inl e)"

definition pg_ops :: "'d sql_ops \<Rightarrow> 'd repo_ops" where
  "pg_ops db =
     \<lparr>create_op = pg_create db, get_op = pg_get db, get_for_tenant_op = pg_get_for_tenant db,
      list_recent_op = pg_list_recent db, claim_next_queued_op = pg_claim_next_queued db,
      recover_stale_running_op = pg_recover_stale_running db, set_running_op = pg_set_running db,
      set_succeeded_op = pg_set_succeeded db, set_failed_op = pg_set_failed db,
      health_check_op = pg_health_check db\<rparr>"

subsection \<open>What the table's columns hold\<close>

text \<open>PostgreSQL stores no NUL character in \<open>VARCHAR\<close>, \<open>TEXT\<close> and \<open>JSONB\<close> values, limits the lengths
  of the three \<open>VARCHAR\<close> columns, and keeps \<open>INTEGER\<close> in 32 bits.\<close>

definition plain_text :: "string \<Rightarrow> bool" where
  "plain_text s \<longleftrightarrow> CHR 0x00 \<notin> set s"

definition int32 :: "int \<Rightarrow> bool" where
  "int32 n \<longleftrightarrow> - 2147483648 \<le> n \<and> n < 2147483648"

fun plain_json :: "json \<Rightarrow> bool" where
  "plain_json (JStr s) = plain_text s"
| "plain_json (JList xs) = list_all plain_json xs"
| "plain_json (JObj d) = list_all (\<lambda>(k, v). plain_text k \<and> plain_json v) d"
| "plain_json _ = True"

definition row_fits :: "EvaluationJobRow \<Rightarrow> bool" where
  "row_fits r \<longleftrightarrow>
     length (row_tenant_id r) \<le> 128 \<and> plain_text (row_tenant_id r) \<and>
     length (row_project_id r) \<le> 128 \<and> plain_text (row_project_id r) \<and>
     length (row_status r) \<le> 32 \<and> plain_text (row_status r) \<and>
     plain_json (row_request_payload r) \<and>
     (case row_result_payload r of None \<Rightarrow> True | Some p \<Rightarrow> plain_json p) \<and>
     (case row_error_message r of None \<Rightarrow> True | Some m \<Rightarrow> plain_text m) \<and>
     int32 (row_attempt_count r) \<and> int32 (row_max_attempts r)"

text \<open>The payloads that the repository writes are objects of scalars with distinct keys. \<open>JSONB\<close>
  gives such an object back with its keys in an order of its own.\<close>

fun scalar :: "json \<Rightarrow> bool" where
  "scalar (JList xs) = False"
| "scalar (JObj d) = False"
| "scalar _ = True"

fun flat_object :: "json \<Rightarrow> bool" where
  "flat_object (JObj d) \<longleftrightarrow> distinct (map fst d) \<and> list_all (\<lambda>(k, v). scalar v) d"
| "flat_object _ = False"

definition flat_row :: "EvaluationJobRow \<Rightarrow> bool" where
  "flat_row r \<longleftrightarrow> flat_object (row_request_payload r) \<and>
     (case row_result_payload r of None \<Rightarrow> True | Some p \<Rightarrow> flat_object p)"

fun same_payload :: "json \<Rightarrow> json \<Rightarrow> bool" where
  "same_payload (JObj d) (JObj d') \<longleftrightarrow> mset d = mset d'"
| "same_payload a b \<longleftrightarrow> a = b"

definition same_row :: "EvaluationJobRow \<Rightarrow> EvaluationJobRow \<Rightarrow> bool" where
  "same_row r r' \<longleftrightarrow>
     r' = r\<lparr>row_request_payload := row_request_payload r', row_result_payload := row_result_payload r'\<rparr> \<and>
     same_payload (row_request_payload r) (row_request_payload r') \<and>
     rel_option same_payload (row_result_payload r) (row_result_payload r')"

text \<open>A statement whose text parameters the driver can send.\<close>

fun plain_condition :: "sql_condition \<Rightarrow> bool" where
  "plain_condition (Tenant_id_eq t) = plain_text t"
| "plain_condition (Project_id_eq p) = plain_text p"
| "plain_condition (Status_eq s) = plain_text s"
| "plain_condition _ = True"

definition sql_ordered :: "sql_order \<Rightarrow> EvaluationJobRow list \<Rightarrow> bool" where
  "sql_ordered ord rs =
     (case ord of
        No_order \<Rightarrow> True
      | Created_at_asc \<Rightarrow> sorted_wrt (\<lambda>a b. row_created_at a \<le> row_created_at b) rs
      | Created_at_desc \<Rightarrow> sorted_wrt (\<lambda>a b. row_created_at b \<le> row_created_at a) rs)"

definition sql_limited :: "int option \<Rightarrow> 'a list \<Rightarrow> 'a list" where
  "sql_limited l rs = (case l of None \<Rightarrow> rs | Some n \<Rightarrow> take (nat n) rs)"

subsection \<open>Rows and jobs\<close>

lemma load_request_dump [simp]: "valid_EvaluationRequest r \<Longrightarrow> load_request (dump_request r) = Inr r"
  by (cases r; cases "rq_rubric r")
    (auto simp: load_request_def dump_request_def make_EvaluationRequest_def)

lemma load_result_dump [simp]:
  "valid_result_opt r \<Longrightarrow> load_result (map_option dump_result r) = Inr r"
  by (cases r; cases "the r")
    (auto simp: load_result_def dump_result_def make_EvaluationResult_def valid_result_opt_def)

lemma load_result_Some [simp]: "valid_EvaluationResult r \<Longrightarrow> load_result (Some (dump_result r)) = Inr (Some r)"
  using load_result_dump [of "Some r"] by (simp add: valid_result_opt_def)

lemma to_domain_Inr:
  "to_domain row = Inr j \<longleftrightarrow>
     JobStatus_of (row_status row) = Inr (status j) \<and>
     load_request (row_request_payload row) = Inr (request j) \<and>
     load_result (row_result_payload row) = Inr (result j) \<and>
     job_id j = row_job_id row \<and> tenant_id j = row_tenant_id row \<and> project_id j = row_project_id row \<and>
     error_message j = row_error_message row \<and> attempt_count j = row_attempt_count row \<and>
     max_attempts j = row_max_attempts row \<and> claimed_at j = row_claimed_at row \<and>
     created_at j = row_created_at row \<and> updated_at j = row_updated_at row"
  by (cases j) (auto simp: to_domain_def split: sum.splits)

lemma to_domain_to_row:
  "valid_EvaluationRequest (request j) \<Longrightarrow> valid_result_opt (result j) \<Longrightarrow> to_domain (to_row j) = Inr j"
  by (simp add: to_domain_Inr to_row_def)

lemma same_payload_ObjE:
  assumes "same_payload p p'" and "flat_object p"
  obtains d d' where "p = JObj d" "p' = JObj d'" "mset d = mset d'" "distinct (map fst d)" "map_of d' = map_of d"
proof (cases p)
  case (JObj d)
  with assms obtain d' where d': "p' = JObj d'" "mset d = mset d'" by (cases p') auto
  have "distinct (map fst d)" using assms(2) JObj by simp
  moreover from this have "distinct (map fst d')" by (metis d'(2) mset_map mset_eq_imp_distinct_iff)
  ultimately show ?thesis
    using that [OF JObj d'(1,2)] d'(2) by (metis map_of_inject_set mset_eq_setD)
qed (use assms in auto)

lemma load_same_payload:
  assumes "same_payload p p'" and "flat_object p"
  shows "load_request p' = load_request p" and "load_result (Some p') = load_result (Some p)"
    and "flat_object p'" and "plain_json p' = plain_json p"
proof -
  obtain d d' where d: "p = JObj d" "p' = JObj d'" "mset d = mset d'" "distinct (map fst d)" "map_of d' = map_of d"
    using same_payload_ObjE [OF assms] by metis
  show "load_request p' = load_request p" "load_result (Some p') = load_result (Some p)"
    by (simp_all only: d(1,2,5) load_request_def load_result_def json.case option.case)
  have "set d' = set d" "distinct (map fst d')"
    using d(3,4) by (metis mset_eq_setD) (metis d(3,4) mset_map mset_eq_imp_distinct_iff)
  then show "flat_object p'" "plain_json p' = plain_json p"
    using assms(2) d(1,2) by (simp_all add: list_all_iff)
qed

lemma same_row_domain:
  assumes "same_row r r'" and "flat_row r"
  shows "to_domain r' = to_domain r" and "row_job_id r' = row_job_id r" and "flat_row r'"
    and "row_fits r' = row_fits r"
proof -
  obtain q p where r': "r' = r\<lparr>row_request_payload := q, row_result_payload := p\<rparr>"
    and q: "same_payload (row_request_payload r) q"
    and p: "rel_option same_payload (row_result_payload r) p"
    using assms(1) unfolding same_row_def by blast
  have req: "flat_object (row_request_payload r)" using assms(2) by (simp add: flat_row_def)
  note q' = load_same_payload [OF q req]
  have p': "load_result p = load_result (row_result_payload r) \<and>
      (case p of None \<Rightarrow> True | Some x \<Rightarrow> flat_object x) \<and>
      (case p of None \<Rightarrow> True | Some x \<Rightarrow> plain_json x) =
      (case row_result_payload r of None \<Rightarrow> True | Some x \<Rightarrow> plain_json x)"
    using p assms(2) load_same_payload
    by (cases p; cases "row_result_payload r") (auto simp: flat_row_def)
  show "to_domain r' = to_domain r" "row_job_id r' = row_job_id r" "flat_row r'" "row_fits r' = row_fits r"
    using q' p' by (simp_all add: r' to_domain_def flat_row_def row_fits_def cong: sum.case_cong)
qed

lemma flat_dump [simp]: "flat_object (dump_request q)" "flat_object (dump_result x)"
  by (simp_all add: dump_request_def dump_result_def split: option.split)

lemma plain_dump [simp]:
  "plain_json (dump_request q) = request_fits plain_text q"
  "plain_json (dump_result x) = plain_text (justification x)"
  by (auto simp: dump_request_def dump_result_def request_fits_def plain_text_def split: option.split)

lemma flat_to_row [simp]: "flat_row (to_row j)"
  by (simp add: flat_row_def to_row_def split: option.split)

lemma status_value_fits [simp]: "length (status_value s) \<le> 32" "plain_text (status_value s)"
  by (cases s; simp add: plain_text_def)+

lemma row_fits_to_row: "wf_job j \<Longrightarrow> row_fits (to_row j) = job_fits plain_text j"
  by (auto simp: wf_job_def valid_EvaluationRequest_def len_between_def row_fits_def to_row_def job_fits_def
      int32_def split: option.split)

end
