(* ===== verification/InMemory.thy ===== *)
theory InMemory
  imports Repository
begin

text \<open>
  \<^verbatim>\<open>app/storage/in_memory.py\<close>: the repository kept in a dictionary.

  The state is the dictionary \<open>_jobs\<close>; its insertion order is what \<open>sorted\<close> breaks ties by.
  Every method takes the \<open>asyncio.Lock\<close> around code without an \<open>await\<close>, so the lock is never
  held while another task runs, acquiring it never suspends, and each method is one atomic step of
  the event loop. The dictionary holds the job objects themselves; the methods below return and
  store job values, which is the same as long as a caller does not write to a job it was given,
  and no caller in the service does.

  The theory ends with the proof that this repository meets the contract of \<open>job_repository\<close>
  (a final transition leaves \<open>claimed_at\<close> as it is: \<open>settle\<close> is the identity).
\<close>

record InMemoryJobRepository =
  jobs :: "(uuid \<times> EvaluationJob) list"

definition mem_init :: InMemoryJobRepository where
  "mem_init = \<lparr>jobs = []\<rparr>"

definition mem_put :: "uuid \<Rightarrow> EvaluationJob \<Rightarrow> InMemoryJobRepository \<Rightarrow> InMemoryJobRepository" where
  "mem_put i j s = s\<lparr>jobs := AList.update i j (jobs s)\<rparr>"

definition mem_create ::
    "EvaluationJob \<Rightarrow> InMemoryJobRepository \<Rightarrow> (exn + EvaluationJob) \<times> InMemoryJobRepository" where
  "mem_create job s = (Inr job, mem_put (job_id job) job s)"

definition mem_get :: "uuid \<Rightarrow> InMemoryJobRepository \<Rightarrow> exn + EvaluationJob" where
  "mem_get i s = (case map_of (jobs s) i of None \<Rightarrow> Inl raise_NotFound | Some job \<Rightarrow> Inr job)"

definition mem_get_for_tenant :: "uuid \<Rightarrow> string \<Rightarrow> InMemoryJobRepository \<Rightarrow> exn + EvaluationJob" where
  "mem_get_for_tenant i tenant s =
     (case mem_get i s of
        Inl e \<Rightarrow> Inl e
      | Inr job \<Rightarrow> if tenant_id job \<noteq> tenant then Inl raise_NotFound else Inr job)"

text \<open>\<open>sorted(..., key = created_at, reverse = True)\<close> keeps the order of equal keys, as a stable
  sort on the negated key does.\<close>

definition mem_list_recent ::
    "string \<Rightarrow> string option \<Rightarrow> int \<Rightarrow> InMemoryJobRepository \<Rightarrow> exn + EvaluationJob list" where
  "mem_list_recent tenant project limit s =
     (let all_jobs = map snd (jobs s);
          of_tenant = filter (\<lambda>job. tenant_id job = tenant) all_jobs;
          selected =
            (case project of None \<Rightarrow> of_tenant
             | Some p \<Rightarrow> filter (\<lambda>job. project_id job = p) of_tenant)
      in Inr (slice_to limit (sort_key (\<lambda>job. - created_at job) selected)))"

definition mem_claim_next_queued ::
    "clock \<Rightarrow> InMemoryJobRepository \<Rightarrow> (exn + EvaluationJob option) \<times> InMemoryJobRepository \<times> clock" where
  "mem_claim_next_queued c s =
     (let queued_jobs =
            filter (\<lambda>job. status job = QUEUED \<and> attempt_count job < max_attempts job)
              (map snd (jobs s))
      in if queued_jobs = [] then (Inr None, s, c)
         else
           (let job = hd (sort_key created_at queued_jobs);
                (t1, c1) = now c;
                (t2, c2) = now c1;
                job' = job\<lparr>status := RUNNING, attempt_count := attempt_count job + 1,
                           claimed_at := Some t1, updated_at := t2\<rparr>
            in (Inr (Some job'), mem_put (job_id job) job' s, c2)))"

fun mem_recover_loop ::
    "datetime \<Rightarrow> EvaluationJob list \<Rightarrow> nat \<Rightarrow> clock \<Rightarrow> InMemoryJobRepository \<Rightarrow>
       nat \<times> InMemoryJobRepository \<times> clock" where
  "mem_recover_loop cutoff [] n c s = (n, s, c)"
| "mem_recover_loop cutoff (job # rest) n c s =
     (if status job \<noteq> RUNNING then mem_recover_loop cutoff rest n c s
      else if (case claimed_at job of None \<Rightarrow> True | Some t \<Rightarrow> t \<ge> cutoff)
      then mem_recover_loop cutoff rest n c s
      else
        (let job1 =
               (if attempt_count job \<ge> max_attempts job
                then job\<lparr>status := FAILED, error_message := Some ''Evaluation worker timed out.''\<rparr>
                else job\<lparr>status := QUEUED,
                         error_message :=
                           Some ''Evaluation worker stopped before completing the job.''\<rparr>);
             (t, c1) = now c;
             job2 = job1\<lparr>claimed_at := None, updated_at := t\<rparr>
         in mem_recover_loop cutoff rest (Suc n) c1 (mem_put (job_id job) job2 s)))"

definition mem_recover_stale_running ::
    "datetime \<Rightarrow> clock \<Rightarrow> InMemoryJobRepository \<Rightarrow> (exn + nat) \<times> InMemoryJobRepository \<times> clock" where
  "mem_recover_stale_running cutoff c s =
     (let (n, s', c') = mem_recover_loop cutoff (map snd (jobs s)) 0 c s in (Inr n, s', c'))"

definition mem_transition ::
    "uuid \<Rightarrow> JobStatus set \<Rightarrow> JobStatus \<Rightarrow> clock \<Rightarrow> InMemoryJobRepository \<Rightarrow>
       (exn + EvaluationJob) \<times> InMemoryJobRepository \<times> clock" where
  "mem_transition i allowed_from target c s =
     (case map_of (jobs s) i of
        None \<Rightarrow> (Inl raise_NotFound, s, c)
      | Some job \<Rightarrow>
          if status job \<notin> allowed_from then (Inl raise_InvalidStateTransition, s, c)
          else
            (let (t, c1) = now c;
                 job' = job\<lparr>status := target, updated_at := t\<rparr>
             in (Inr job', mem_put i job' s, c1)))"

definition mem_set_running ::
    "uuid \<Rightarrow> clock \<Rightarrow> InMemoryJobRepository \<Rightarrow> (exn + EvaluationJob) \<times> InMemoryJobRepository \<times> clock" where
  "mem_set_running i c s = mem_transition i {QUEUED} RUNNING c s"

definition mem_set_succeeded ::
    "uuid \<Rightarrow> EvaluationResult \<Rightarrow> clock \<Rightarrow> InMemoryJobRepository \<Rightarrow>
       (exn + EvaluationJob) \<times> InMemoryJobRepository \<times> clock" where
  "mem_set_succeeded i r c s =
     (case mem_transition i {RUNNING} SUCCEEDED c s of
        (Inl e, s1, c1) \<Rightarrow> (Inl e, s1, c1)
      | (Inr job, s1, c1) \<Rightarrow>
          (let (t, c2) = now c1;
               job' = job\<lparr>result := Some r, updated_at := t\<rparr>
           in (Inr job', mem_put i job' s1, c2)))"

definition mem_set_failed ::
    "uuid \<Rightarrow> string \<Rightarrow> clock \<Rightarrow> InMemoryJobRepository \<Rightarrow>
       (exn + EvaluationJob) \<times> InMemoryJobRepository \<times> clock" where
  "mem_set_failed i message c s =
     (case mem_transition i {QUEUED, RUNNING} FAILED c s of
        (Inl e, s1, c1) \<Rightarrow> (Inl e, s1, c1)
      | (Inr job, s1, c1) \<Rightarrow>
          (let (t, c2) = now c1;
               job' = job\<lparr>error_message := Some message, updated_at := t\<rparr>
           in (Inr job', mem_put i job' s1, c2)))"

definition mem_health_check :: "InMemoryJobRepository \<Rightarrow> exn + bool" where
  "mem_health_check s = Inr True"

definition mem_ops :: "InMemoryJobRepository repo_ops" where
  "mem_ops =
     \<lparr>create_op = mem_create, get_op = mem_get, get_for_tenant_op = mem_get_for_tenant,
      list_recent_op = mem_list_recent, claim_next_queued_op = mem_claim_next_queued,
      recover_stale_running_op = mem_recover_stale_running, set_running_op = mem_set_running,
      set_succeeded_op = mem_set_succeeded, set_failed_op = mem_set_failed,
      health_check_op = mem_health_check\<rparr>"

text \<open>How the contract sees this state.\<close>

definition mem_view :: "InMemoryJobRepository \<Rightarrow> store" where
  "mem_view s = map_of (jobs s)"

definition mem_inv :: "InMemoryJobRepository \<Rightarrow> bool" where
  "mem_inv s \<longleftrightarrow> keyed job_id (jobs s)"

lemma mem_ops_select [simp]:
  "create_op mem_ops = mem_create" "get_op mem_ops = mem_get"
  "get_for_tenant_op mem_ops = mem_get_for_tenant" "list_recent_op mem_ops = mem_list_recent"
  "claim_next_queued_op mem_ops = mem_claim_next_queued"
  "recover_stale_running_op mem_ops = mem_recover_stale_running"
  "set_running_op mem_ops = mem_set_running" "set_succeeded_op mem_ops = mem_set_succeeded"
  "set_failed_op mem_ops = mem_set_failed" "health_check_op mem_ops = mem_health_check"
  by (simp_all add: mem_ops_def)

subsection \<open>The dictionary\<close>

lemma mem_view_put [view_simps]: "mem_view (mem_put i j s) = (mem_view s)(i \<mapsto> j)"
  by (simp add: mem_view_def mem_put_def update_conv')

lemma mem_inv_put: "mem_inv s \<Longrightarrow> job_id j = i \<Longrightarrow> mem_inv (mem_put i j s)"
  by (simp add: mem_inv_def mem_put_def keyed_update)

lemma mem_inv_init [simp]: "mem_inv mem_init" and mem_view_init [simp]: "mem_view mem_init = Map.empty"
  by (simp_all add: mem_inv_def mem_init_def mem_view_def)

lemma mem_values: "mem_inv s \<Longrightarrow> j \<in> set (map snd (jobs s)) \<longleftrightarrow> mem_view s (job_id j) = Some j"
  by (simp only: mem_inv_def mem_view_def keyed_values)

lemma mem_key: "mem_inv s \<Longrightarrow> mem_view s i = Some j \<Longrightarrow> job_id j = i"
  unfolding mem_inv_def mem_view_def by (rule keyed_map_of_key)

lemma mem_ran: "mem_inv s \<Longrightarrow> ran (mem_view s) = set (map snd (jobs s))"
  by (simp add: mem_inv_def mem_view_def ran_distinct)

lemmas moved_reads = moved_first [of _ 0, unfolded One_nat_def [symmetric]]
  moved_first [of _ 1, unfolded Suc_1] moved_second

subsection \<open>Reads\<close>

lemma mem_get_conv: "mem_get i s = (case mem_view s i of None \<Rightarrow> Inl raise_NotFound | Some j \<Rightarrow> Inr j)"
  by (simp add: mem_get_def mem_view_def)

lemma mem_get_for_tenant_conv:
  "mem_get_for_tenant i tenant s =
     (case mem_view s i of None \<Rightarrow> Inl raise_NotFound
      | Some j \<Rightarrow> if tenant_id j = tenant then Inr j else Inl raise_NotFound)"
  by (simp add: mem_get_for_tenant_def mem_get_conv split: option.split)

lemma mem_list_recent_conv:
  "mem_list_recent tenant proj limit s =
     Inr (slice_to limit (sort_key (\<lambda>j. - created_at j)
       (filter (\<lambda>j. tenant_id j = tenant \<and> project_matches proj j) (map snd (jobs s)))))"
  by (auto simp: mem_list_recent_def project_matches_def Let_def conj_commute split: option.split
      intro!: arg_cong [where f = "slice_to limit"] arg_cong [where f = "sort_key (\<lambda>j. - created_at j)"]
        filter_cong)

lemma mem_list_recent_spec:
  assumes "mem_inv s" and "0 \<le> limit"
  shows "\<exists>js. mem_list_recent tenant proj limit s = Inr (take (nat limit) js) \<and> distinct js \<and>
      set js = {j \<in> ran (mem_view s). tenant_id j = tenant \<and> project_matches proj j} \<and>
      sorted_wrt (\<lambda>a b. created_at b \<le> created_at a) js"
proof -
  let ?js = "sort_key (\<lambda>j. - created_at j)
    (filter (\<lambda>j. tenant_id j = tenant \<and> project_matches proj j) (map snd (jobs s)))"
  have "distinct (map snd (jobs s))"
    using assms(1) by (auto simp: mem_inv_def intro: keyed_distinct_values)
  then have "distinct ?js" by simp
  moreover have "set ?js = {j \<in> ran (mem_view s). tenant_id j = tenant \<and> project_matches proj j}"
    using assms(1) by (auto simp: mem_ran)
  moreover have "sorted_wrt (\<lambda>a b. created_at b \<le> created_at a) ?js"
    using sorted_sort_key [of "\<lambda>j. - created_at j"
      "filter (\<lambda>j. tenant_id j = tenant \<and> project_matches proj j) (map snd (jobs s))"]
    by (simp add: sorted_map)
  ultimately show ?thesis
    using assms(2) by (auto simp: mem_list_recent_conv slice_to_def)
qed

subsection \<open>Transitions\<close>

lemma mem_transition_conv:
  "mem_transition i A target c s =
     (case mem_view s i of
        None \<Rightarrow> (Inl raise_NotFound, s, c)
      | Some j \<Rightarrow>
          if status j \<notin> A then (Inl raise_InvalidStateTransition, s, c)
          else (Inr (j\<lparr>status := target, updated_at := c 0\<rparr>),
                mem_put i (j\<lparr>status := target, updated_at := c 0\<rparr>) s, shift 1 c))"
  by (simp add: mem_transition_def mem_view_def now_eq Let_def split: option.split)

lemma mem_put_put [simp]: "mem_put i j (mem_put i j' s) = mem_put i j s"
  by (simp add: mem_put_def)

lemma mem_set_running_conv:
  "mem_set_running i c s =
     (case mem_view s i of
        None \<Rightarrow> (Inl raise_NotFound, s, c)
      | Some j \<Rightarrow>
          if status j \<noteq> QUEUED then (Inl raise_InvalidStateTransition, s, c)
          else (Inr (started (c 0) j), mem_put i (started (c 0) j) s, shift 1 c))"
  by (simp add: mem_set_running_def mem_transition_conv started_def split: option.split)

lemma mem_set_succeeded_conv:
  "mem_set_succeeded i r c s =
     (case mem_view s i of
        None \<Rightarrow> (Inl raise_NotFound, s, c)
      | Some j \<Rightarrow>
          if status j \<noteq> RUNNING then (Inl raise_InvalidStateTransition, s, c)
          else (Inr (succeeded r (claimed_at j) (c 1) j),
                mem_put i (succeeded r (claimed_at j) (c 1) j) s, shift 2 c))"
  by (simp add: mem_set_succeeded_def mem_transition_conv succeeded_def now_eq Let_def
      numeral_2_eq_2 split: option.split)

lemma mem_set_failed_conv:
  "mem_set_failed i m c s =
     (case mem_view s i of
        None \<Rightarrow> (Inl raise_NotFound, s, c)
      | Some j \<Rightarrow>
          if final j then (Inl raise_InvalidStateTransition, s, c)
          else (Inr (failed m (claimed_at j) (c 1) j),
                mem_put i (failed m (claimed_at j) (c 1) j) s, shift 2 c))"
proof -
  have "final j \<longleftrightarrow> status j \<notin> {QUEUED, RUNNING}" for j
    by (cases "status j") (simp_all add: final_def)
  then show ?thesis
    by (simp add: mem_set_failed_def mem_transition_conv failed_def now_eq Let_def
        numeral_2_eq_2 split: option.split)
qed

lemma mem_claim_conv:
  "mem_claim_next_queued c s =
     (let js = filter claimable (map snd (jobs s)); j = hd (sort_key created_at js) in
      if js = [] then (Inr None, s, c)
      else (Inr (Some (claimed (c 0) (c 1) j)), mem_put (job_id j) (claimed (c 0) (c 1) j) s, shift 2 c))"
  by (simp add: mem_claim_next_queued_def now_eq Let_def claimed_def claimable_def [abs_def]
      numeral_2_eq_2)

lemma mem_claim_oldest:
  assumes inv: "mem_inv s" and ex: "\<exists>j \<in> ran (mem_view s). claimable j"
  shows "\<exists>j. mem_view s (job_id j) = Some j \<and> claimable j \<and>
      (\<forall>j' \<in> ran (mem_view s). claimable j' \<longrightarrow> created_at j \<le> created_at j') \<and>
      mem_claim_next_queued c s =
        (Inr (Some (claimed (c 0) (c 1) j)), mem_put (job_id j) (claimed (c 0) (c 1) j) s, shift 2 c)"
proof -
  let ?js = "filter claimable (map snd (jobs s))"
  let ?j = "hd (sort_key created_at ?js)"
  have ne: "?js \<noteq> []"
    using ex inv by (auto simp: mem_ran filter_empty_conv)
  have j: "?j \<in> set ?js"
    using ne by (rule hd_sort_key_in)
  then have "mem_view s (job_id ?j) = Some ?j" and "claimable ?j"
    using mem_values [OF inv, of ?j] by auto
  moreover have "\<forall>j' \<in> ran (mem_view s). claimable j' \<longrightarrow> created_at ?j \<le> created_at j'"
  proof (intro ballI impI)
    fix j' assume "j' \<in> ran (mem_view s)" and "claimable j'"
    then have "j' \<in> set ?js" using inv by (auto simp: mem_ran)
    then show "created_at ?j \<le> created_at j'" by (rule hd_sort_key_least)
  qed
  moreover have "mem_claim_next_queued c s =
      (Inr (Some (claimed (c 0) (c 1) ?j)), mem_put (job_id ?j) (claimed (c 0) (c 1) ?j) s, shift 2 c)"
    using ne by (simp only: mem_claim_conv Let_def if_False)
  ultimately show ?thesis by blast
qed

lemma mem_claim_some:
  assumes inv: "mem_inv s" and ex: "\<exists>j \<in> ran (mem_view s). claimable j"
  shows "\<exists>j t1 t2 s' c'. mem_view s (job_id j) = Some j \<and> claimable j \<and>
      (\<forall>j' \<in> ran (mem_view s). claimable j' \<longrightarrow> created_at j \<le> created_at j') \<and>
      mem_claim_next_queued c s = (Inr (Some (claimed t1 t2 j)), s', c') \<and>
      moved c c' t1 \<and> moved c c' t2 \<and> mem_inv s' \<and>
      mem_view s' = (mem_view s)(job_id j \<mapsto> claimed t1 t2 j)"
proof -
  from mem_claim_oldest [OF assms, of c] obtain j where
    j: "mem_view s (job_id j) = Some j" "claimable j"
      "\<forall>j' \<in> ran (mem_view s). claimable j' \<longrightarrow> created_at j \<le> created_at j'"
      "mem_claim_next_queued c s =
        (Inr (Some (claimed (c 0) (c 1) j)), mem_put (job_id j) (claimed (c 0) (c 1) j) s, shift 2 c)"
    by blast
  have "mem_inv (mem_put (job_id j) (claimed (c 0) (c 1) j) s)"
    using inv by (simp add: mem_inv_put)
  with j show ?thesis
    using moved_reads mem_view_put by (metis One_nat_def)
qed

lemma mem_claim_none:
  assumes "mem_inv s" and "\<forall>j \<in> ran (mem_view s). \<not> claimable j"
  shows "mem_claim_next_queued c s = (Inr None, s, c)"
proof -
  have "filter claimable (map snd (jobs s)) = []"
    using assms by (auto simp: mem_ran filter_empty_conv)
  then show ?thesis
    by (simp only: mem_claim_conv Let_def simp_thms if_True)
qed

subsection \<open>Recovery of stale jobs\<close>

text \<open>One round of the loop: a job that is not stale is left alone, a stale one is replaced by its
  recovered version and counted.\<close>

lemma mem_recover_loop_Cons:
  "mem_recover_loop cutoff (job # rest) n c s =
     (if stale cutoff job
      then mem_recover_loop cutoff rest (Suc n) (shift 1 c)
             (mem_put (job_id job) (recovered (c 0) job) s)
      else mem_recover_loop cutoff rest n c s)"
  by (auto simp: stale_def recovered_def now_eq Let_def timed_out_message_def stopped_message_def
      split: option.split)

declare mem_recover_loop.simps(2) [simp del]
declare mem_recover_loop_Cons [simp]

lemma mem_recover_loop_spec:
  assumes "mem_inv s" and "distinct (map job_id js)"
    and "\<forall>j \<in> set js. mem_view s (job_id j) = Some j"
  shows "\<exists>s' k times. mem_recover_loop cutoff js n c s =
        (n + length (filter (stale cutoff) js), s', shift k c) \<and> mem_inv s' \<and>
      (\<forall>i. mem_view s' i =
         (case mem_view s i of None \<Rightarrow> None
          | Some j \<Rightarrow> if j \<in> set js \<and> stale cutoff j then Some (recovered (times i) j) else Some j))"
  using assms
proof (induction js arbitrary: n c s)
  case Nil
  show ?case
    by (rule exI [of _ s], rule exI [of _ 0], rule exI [of _ "\<lambda>_. 0"]) (simp add: Nil split: option.split)
next
  case (Cons j js)
  have d: "distinct (map job_id js)" and v: "\<forall>x \<in> set js. mem_view s (job_id x) = Some x"
    using Cons.prems by simp_all
  show ?case
  proof (cases "stale cutoff j")
    case False
    from Cons.IH [OF Cons.prems(1) d v, of n c] obtain s' k times where
      "mem_recover_loop cutoff js n c s = (n + length (filter (stale cutoff) js), s', shift k c)"
      "mem_inv s'"
      "\<forall>i. mem_view s' i = (case mem_view s i of None \<Rightarrow> None
          | Some j \<Rightarrow> if j \<in> set js \<and> stale cutoff j then Some (recovered (times i) j) else Some j)"
      by blast
    with False show ?thesis
      by (intro exI [of _ s'] exI [of _ k] exI [of _ times]) (auto split: option.split)
  next
    case True
    let ?s = "mem_put (job_id j) (recovered (c 0) j) s"
    have inv1: "mem_inv ?s" using Cons.prems by (simp add: mem_inv_put)
    have v1: "\<forall>x \<in> set js. mem_view ?s (job_id x) = Some x"
    proof
      fix x assume x: "x \<in> set js"
      then have "job_id x \<noteq> job_id j" using Cons.prems(2) by (metis distinct.simps(2) image_eqI list.set_map list.simps(9))
      with x v show "mem_view ?s (job_id x) = Some x" by (simp add: view_simps)
    qed
    from Cons.IH [OF inv1 d v1, of "Suc n" "shift 1 c"] obtain s' k times where loop:
      "mem_recover_loop cutoff js (Suc n) (shift 1 c) ?s =
         (Suc n + length (filter (stale cutoff) js), s', shift k (shift 1 c))"
      "mem_inv s'"
      "\<forall>i. mem_view s' i = (case mem_view ?s i of None \<Rightarrow> None
          | Some j \<Rightarrow> if j \<in> set js \<and> stale cutoff j then Some (recovered (times i) j) else Some j)"
      by blast
    have notin: "recovered (c 0) j \<notin> set js"
      using Cons.prems(2) by (metis distinct.simps(2) image_eqI job_id_updates(5) list.set_map list.simps(9))
    have key: "mem_view s i = Some x \<Longrightarrow> job_id x = i" for i x
      using Cons.prems(1) by (rule mem_key)
    let ?times = "times(job_id j := c 0)"
    have "mem_view s' i = (case mem_view s i of None \<Rightarrow> None
          | Some x \<Rightarrow> if x \<in> set (j # js) \<and> stale cutoff x then Some (recovered (?times i) x) else Some x)"
      for i
    proof (cases "i = job_id j")
      case eq: True
      have "mem_view s i = Some j" using Cons.prems(3) by (simp add: eq)
      moreover have "mem_view s' i = Some (recovered (c 0) j)"
        using notin by (simp add: loop(3) [rule_format] view_simps eq)
      ultimately show ?thesis using True by (simp add: eq)
    next
      case neq: False
      have "mem_view ?s i = mem_view s i" using neq by (simp add: view_simps)
      moreover have "x \<noteq> j" if "mem_view s i = Some x" for x
        using key [OF that] neq by blast
      ultimately show ?thesis
        using neq by (simp add: loop(3) [rule_format] split: option.split)
    qed
    with loop(1,2) True show ?thesis
      by (intro exI [of _ s'] exI [of _ "k + 1"] exI [of _ ?times]) simp
  qed
qed

lemma length_filter_values:
  assumes "keyed key d"
  shows "length (filter P (map snd d)) = card {i. \<exists>v. map_of d i = Some v \<and> P v}"
proof -
  let ?V = "set (filter P (map snd d))"
  have V: "v \<in> ?V \<longleftrightarrow> map_of d (key v) = Some v \<and> P v" for v
    using keyed_values [OF assms, of v] by (simp only: set_filter mem_Collect_eq)
  have "{i. \<exists>v. map_of d i = Some v \<and> P v} = key ` ?V"
  proof (intro set_eqI iffI)
    fix i assume "i \<in> {i. \<exists>v. map_of d i = Some v \<and> P v}"
    then obtain v where v: "map_of d i = Some v" "P v" by blast
    then have "key v = i" by (blast intro: keyed_map_of_key [OF assms])
    with v show "i \<in> key ` ?V" using V [of v] by blast
  qed (use V in blast)
  moreover have "inj_on key ?V"
    using V by (intro inj_onI) (metis option.inject)
  moreover have "distinct (filter P (map snd d))"
    using keyed_distinct_values [OF assms] by simp
  ultimately show ?thesis
    by (simp only: card_image distinct_card)
qed

lemma mem_recover_spec:
  assumes inv: "mem_inv s"
  shows "\<exists>s' k times. mem_recover_stale_running cutoff c s =
      (Inr (card {i. \<exists>j. mem_view s i = Some j \<and> stale cutoff j}), s', shift k c) \<and> mem_inv s' \<and>
      mem_view s' = (\<lambda>i. map_option (\<lambda>j. if stale cutoff j then recovered (times i) j else j) (mem_view s i))"
proof -
  have keyed: "keyed job_id (jobs s)" using inv by (simp add: mem_inv_def)
  have ids: "map job_id (map snd (jobs s)) = map fst (jobs s)"
    using keyed by (auto simp: keyed_def)
  then have "distinct (map job_id (map snd (jobs s)))"
    using keyed by (simp only: keyed_distinct)
  moreover have "\<forall>j \<in> set (map snd (jobs s)). mem_view s (job_id j) = Some j"
    using mem_values [OF inv] by blast
  ultimately obtain s' k times where
    loop: "mem_recover_loop cutoff (map snd (jobs s)) 0 c s =
        (0 + length (filter (stale cutoff) (map snd (jobs s))), s', shift k c)" and inv': "mem_inv s'"
    and view: "\<forall>i. mem_view s' i = (case mem_view s i of None \<Rightarrow> None
          | Some j \<Rightarrow> if j \<in> set (map snd (jobs s)) \<and> stale cutoff j
                      then Some (recovered (times i) j) else Some j)"
    using mem_recover_loop_spec [OF inv, of "map snd (jobs s)" cutoff 0 c] by blast
  have "length (filter (stale cutoff) (map snd (jobs s))) =
      card {i. \<exists>j. mem_view s i = Some j \<and> stale cutoff j}"
    using length_filter_values [OF keyed, of "stale cutoff"] by (simp only: mem_view_def)
  with loop have "mem_recover_stale_running cutoff c s =
      (Inr (card {i. \<exists>j. mem_view s i = Some j \<and> stale cutoff j}), s', shift k c)"
    by (simp add: mem_recover_stale_running_def)
  moreover have "mem_view s' i =
      map_option (\<lambda>j. if stale cutoff j then recovered (times i) j else j) (mem_view s i)" for i
    using view mem_values [OF inv] mem_key [OF inv, of i] by (auto split: option.split)
  ultimately show ?thesis using inv' by blast
qed

subsection \<open>The contract holds\<close>

text \<open>A dictionary stores every text.\<close>

definition any_text :: "string \<Rightarrow> bool" where
  "any_text m = True"

lemma any_text_simps [simp]: "any_text m" "request_fits any_text r" "job_fits any_text j"
  by (simp_all add: any_text_def request_fits_def job_fits_def split: option.split)

interpretation mem: job_repository mem_ops mem_view mem_inv any_text "\<lambda>ca. ca"
proof (unfold_locales, goal_cases)
  case 1 then show ?case by simp
next
  case 2 then show ?case by simp
next
  case 3 then show ?case by (rule mem_key)
next
  case (4 s) then show ?case by (simp add: mem_view_def finite_dom_map_of)
next
  case 5 then show ?case by (simp add: mem_get_conv)
next
  case 6 then show ?case by (simp add: mem_get_for_tenant_conv)
next
  case 7 then show ?case by simp
next
  case 8 then show ?case using mem_list_recent_spec by simp
next
  case 9 then show ?case by simp
next
  case 10 then show ?case by (simp add: mem_create_def mem_inv_put view_simps)
next
  case 11 then show ?case by (simp add: mem_claim_none)
next
  case 12 then show ?case using mem_claim_some by simp
next
  case 13 then show ?case using mem_recover_spec by simp
next
  case (16 s i j c) then show ?case
    using moved_first [of c 0]
    by (intro exI [of _ "c 0"]) (simp add: mem_set_running_conv view_simps mem_inv_put mem_key)
next
  case (19 s i j r c) then show ?case
    using moved_second [of c]
    by (intro exI [of _ "c 1"]) (simp add: mem_set_succeeded_conv view_simps mem_inv_put mem_key)
next
  case (22 s i j m c) then show ?case
    using moved_second [of c]
    by (intro exI [of _ "c 1"]) (simp add: mem_set_failed_conv view_simps mem_inv_put mem_key)
qed (simp_all add: mem_set_running_conv mem_set_succeeded_conv mem_set_failed_conv)

subsection \<open>Properties of the repository\<close>

text \<open>A small history used below: two jobs are created, a worker claims the older one, a recovery
  pass puts it back, it is claimed again and succeeds.\<close>

definition demo_cmds :: "repo_cmd list" where
  "demo_cmds =
     [CCreate (demo_job 1 10), CCreate (demo_job 2 20), CClaim, CRecover 1000, CClaim,
      CSetSucceeded 1 demo_result, CSetFailed 1 ''late'']"

definition demo_clock :: clock where
  "demo_clock n = 100 + int n"

definition demo_start :: "InMemoryJobRepository \<times> clock" where
  "demo_start = (mem_init, demo_clock)"

lemma demo_ok: "cmds_ok any_text mem_ops mem_view demo_cmds demo_start"
  by code_simp

text \<open>C4. Whatever sequence of creations, claims, transitions and recovery passes the service makes
  on an in-memory repository that starts empty, every stored job stays well formed: it is filed
  under its own identifier, its request is valid and belongs to the job's tenant and project, a
  result is there exactly when the job succeeded and its score lies in 0..100, a failed job has an
  error message, the attempts stay within the budget, and no queued job is claimed.\<close>

theorem mem_reachable_wf:
  assumes "cmds_ok any_text mem_ops mem_view cmds (mem_init, c)"
  shows "mem_inv (fst (exec_cmds mem_ops cmds (mem_init, c))) \<and>
    wf_store (mem_view (fst (exec_cmds mem_ops cmds (mem_init, c))))"
  using mem.exec_cmds_wf [OF assms] by (simp add: wf_store_def)

theorem mem_reachable_wf_witness:
  "cmds_ok any_text mem_ops mem_view demo_cmds (mem_init, demo_clock) \<and>
   wf_store (mem_view (fst (exec_cmds mem_ops demo_cmds (mem_init, demo_clock))))"
  using demo_ok mem_reachable_wf [of demo_cmds demo_clock] by (simp add: demo_start_def)

text \<open>C8. Every sequence of calls on an in-memory repository has the effect of the abstract
  repository: creations, claims of an oldest claimable job, guarded transitions, and recovery of
  exactly the stale jobs.\<close>

theorem mem_refines_spec:
  assumes "mem_inv s" and "cmds_ok any_text mem_ops mem_view cmds (s, c)"
  shows "spec_cmds (\<lambda>ca. ca) cmds (mem_view s) (mem_view (fst (exec_cmds mem_ops cmds (s, c))))"
  using mem.exec_cmds_refine [OF assms(2)] assms(1) by simp

theorem mem_refines_spec_witness:
  "spec_cmds (\<lambda>ca. ca) demo_cmds Map.empty (mem_view (fst (exec_cmds mem_ops demo_cmds demo_start)))"
  using mem_refines_spec [of mem_init demo_cmds demo_clock] demo_ok by (simp add: demo_start_def)

text \<open>C5. No sequence of repository calls loses a job or changes what it is: a stored job keeps its
  identifier, tenant, project, request, attempt budget and creation time, its attempt counter never
  goes down, and a job that has succeeded or failed never changes again.\<close>

theorem mem_job_persists:
  assumes "cmds_ok any_text mem_ops mem_view cmds (s, c)" and "mem_inv s" and "mem_view s i = Some j"
  shows "\<exists>j'. mem_view (fst (exec_cmds mem_ops cmds (s, c))) i = Some j' \<and>
           identity_of j' = identity_of j \<and> attempt_count j \<le> attempt_count j' \<and>
           (final j \<longrightarrow> j' = j)"
  using mem.exec_cmds_job [of cmds "(s, c)" i j] assms by simp

theorem mem_job_persists_witness:
  "\<exists>j'. mem_view (fst (exec_cmds mem_ops [CClaim, CRecover 1000]
            (mem_put 1 (demo_job 1 10) mem_init, demo_clock))) 1 = Some j' \<and>
        identity_of j' = identity_of (demo_job 1 10)"
  using mem_job_persists [of "[CClaim, CRecover 1000]" "mem_put 1 (demo_job 1 10) mem_init"
      demo_clock 1 "demo_job 1 10"]
  by (auto simp: mem_inv_put view_simps)

text \<open>C6. Progress is bounded: however the calls interleave, a freshly created job changes at most
  \<open>2 * max_attempts + 2\<close> times (each attempt is a claim and a recovery, and at the end one start and
  one final transition), so with the default budget of three attempts a job can never bounce
  between queued and running forever.\<close>

theorem mem_changes_bounded:
  assumes "cmds_ok any_text mem_ops mem_view cmds (s, c)" and "mem_inv s" and "mem_view s i = Some j"
    and "fresh_job j"
  shows "int (changes mem_ops mem_view i cmds (s, c)) \<le> 2 * max_attempts j + 2"
proof -
  have "changes mem_ops mem_view i cmds (s, c) \<le> rank j"
    using mem.changes_le_rank [of cmds "(s, c)" i j] assms by (simp add: fresh_job_def)
  with assms(4) show ?thesis
    by (auto simp: rank_def fresh_job_def wf_job_def)
qed

theorem mem_changes_bounded_witness:
  "changes mem_ops mem_view 1 (drop 2 demo_cmds) (mem_put 1 (demo_job 1 10) mem_init, demo_clock) = 4 \<and>
   int (changes mem_ops mem_view 1 (drop 2 demo_cmds)
     (mem_put 1 (demo_job 1 10) mem_init, demo_clock)) \<le> 2 * max_attempts (demo_job 1 10) + 2"
proof
  have "cmds_ok any_text mem_ops mem_view (drop 2 demo_cmds) (mem_put 1 (demo_job 1 10) mem_init, demo_clock)"
    by (simp add: demo_cmds_def)
  then show "int (changes mem_ops mem_view 1 (drop 2 demo_cmds)
     (mem_put 1 (demo_job 1 10) mem_init, demo_clock)) \<le> 2 * max_attempts (demo_job 1 10) + 2"
    by (rule mem_changes_bounded) (simp_all add: mem_inv_put view_simps)
qed code_simp

text \<open>C7. Claims are exclusive, complete and first-come-first-served: \<open>n\<close> calls of
  \<open>claim_next_queued\<close> hand out \<open>min n k\<close> jobs where \<open>k\<close> jobs are claimable (queued with attempts
  left), never the same job twice, only claimable ones, and in the order of their creation times.\<close>

theorem mem_claims_exclusive_fifo:
  assumes "mem_inv s"
  shows "\<exists>js s' c'. claim_n mem_ops n c s = (js, s', c') \<and> mem_inv s' \<and> distinct (map job_id js) \<and>
     (\<forall>j \<in> set js. \<exists>j0. mem_view s (job_id j) = Some j0 \<and> claimable j0 \<and> created_at j = created_at j0) \<and>
     sorted (map created_at js) \<and> length js = min n (card (claimable_ids (mem_view s)))"
  using assms by (rule mem.claim_n_law)

definition demo_two_jobs :: InMemoryJobRepository where
  "demo_two_jobs = mem_put 1 (demo_job 1 20) (mem_put 2 (demo_job 2 10) mem_init)"

lemma demo_two_jobs_inv [simp]: "mem_inv demo_two_jobs"
  by (simp add: demo_two_jobs_def mem_inv_put)

theorem mem_claims_exclusive_fifo_witness:
  "map job_id (fst (claim_n mem_ops 3 demo_clock demo_two_jobs)) = [2, 1] \<and>
   distinct (map job_id (fst (claim_n mem_ops 3 demo_clock demo_two_jobs)))"
proof
  show "distinct (map job_id (fst (claim_n mem_ops 3 demo_clock demo_two_jobs)))"
    using mem_claims_exclusive_fifo [OF demo_two_jobs_inv, of 3 demo_clock] by auto
qed code_simp

text \<open>A claim changes exactly one job, and in exactly one way: when some stored job is claimable,
  the oldest such job becomes running with one more attempt and the first reading of the clock as
  its claim time, and is returned; when none is, nothing is returned and nothing changes.\<close>

lemma mem_claim_next_spec:
  assumes "mem_inv s"
  shows "if claimable_ids (mem_view s) = {} then mem_claim_next_queued c s = (Inr None, s, c)
    else \<exists>j. mem_view s (job_id j) = Some j \<and> claimable j \<and>
      (\<forall>j' \<in> ran (mem_view s). claimable j' \<longrightarrow> created_at j \<le> created_at j') \<and>
      mem_claim_next_queued c s =
        (Inr (Some (claimed (c 0) (c 1) j)), mem_put (job_id j) (claimed (c 0) (c 1) j) s, shift 2 c)"
  using mem_claim_none [OF assms, of c] mem_claim_oldest [OF assms, of c]
  by (simp add: mem.claimable_ids_empty)

text \<open>A recovery pass touches the stale jobs and no others (running, with a claim older than the
  cutoff), it returns how many there were, it puts each back in the queue or fails it when its
  attempts are used up, and no stale job is left: a second pass with the same cutoff recovers
  nothing.\<close>

lemma mem_recover_complete:
  assumes "mem_inv s"
  shows "\<exists>s' k times. mem_recover_stale_running cutoff c s =
      (Inr (card {i. \<exists>j. mem_view s i = Some j \<and> stale cutoff j}), s', shift k c) \<and> mem_inv s' \<and>
      mem_view s' =
        (\<lambda>i. map_option (\<lambda>j. if stale cutoff j then recovered (times i) j else j) (mem_view s i)) \<and>
      fst (mem_recover_stale_running cutoff (shift k c) s') = Inr 0"
proof -
  from mem_recover_spec [OF assms, of cutoff c] obtain s' k times where
    s': "mem_recover_stale_running cutoff c s =
        (Inr (card {i. \<exists>j. mem_view s i = Some j \<and> stale cutoff j}), s', shift k c)" "mem_inv s'"
      "mem_view s' =
        (\<lambda>i. map_option (\<lambda>j. if stale cutoff j then recovered (times i) j else j) (mem_view s i))"
    by blast
  have none: "{i. \<exists>j. mem_view s' i = Some j \<and> stale cutoff j} = {}"
    by (auto simp: s'(3) stale_def recovered_def split: if_splits option.splits)
  from mem_recover_spec [OF s'(2), of cutoff "shift k c", unfolded none]
  have "fst (mem_recover_stale_running cutoff (shift k c) s') = Inr 0" by auto
  with s' show ?thesis by blast
qed

definition demo_claimed :: InMemoryJobRepository where
  "demo_claimed = mem_put 1 (claimed 5 5 (demo_job 1 1)) mem_init"

end
