(* ===== verification/Application.thy ===== *)
theory Application
  imports Routes Worker JobQueue Postgres InMemory
begin

text \<open>
  How a process is put together: the middlewares, \<open>create_app\<close> and \<open>lifespan\<close> of
  \<^verbatim>\<open>app/main.py\<close>, the worker process of \<^verbatim>\<open>app/worker.py\<close>, and the repository factory of
  \<^verbatim>\<open>app/storage/factory.py\<close>.

  \<^item> A \<open>scope\<close> is what the middlewares see of one request: method, path, the \<open>x-request-id\<close> header,
    the path of the matched route once the router has run, \<open>request.state.request_id\<close> and the
    context variable \<open>request_id_var\<close>. It is one dictionary shared by all layers, so it is passed
    through and returned.
  \<^item> An \<open>endpoint\<close> is an ASGI application: from the scope and the application state to a response
    or an exception. A middleware takes the next endpoint, \<open>call_next\<close>.
  \<^item> Starlette and FastAPI are parameters: \<open>web_framework\<close> holds the two layers that turn exceptions
    into responses and the CORS middleware, and the locale \<open>starlette\<close> the documented behaviour that
    matters here.
\<close>

record scope =
  sc_method :: string
  sc_path :: string
  sc_request_id_header :: "string option"
  sc_route :: "string option"
  sc_request_id :: "string option"
  sc_request_id_var :: string

record http_response =
  http_status :: int
  http_headers :: "(string \<times> string) list"
  http_body :: json

type_synonym 's endpoint = "scope \<times> 's app_state \<Rightarrow> (exn + http_response) \<times> scope \<times> 's app_state"

definition response_of :: "JSONResponse \<Rightarrow> http_response" where
  "response_of r = \<lparr>http_status = resp_status_code r, http_headers = [], http_body = resp_content r\<rparr>"

definition set_header :: "string \<Rightarrow> string \<Rightarrow> http_response \<Rightarrow> http_response" where
  "set_header k v r = r\<lparr>http_headers := AList.update k v (http_headers r)\<rparr>"

subsection \<open>The middlewares\<close>

text \<open>\<open>fresh\<close> is what \<open>new_request_id()\<close> returns; it is called for every request, as a default
  argument. The \<open>finally\<close> clause resets the context variable on both ways out.\<close>

definition request_id_dispatch :: "string \<Rightarrow> 's endpoint \<Rightarrow> 's endpoint" where
  "request_id_dispatch fresh call_next =
     (\<lambda>(sc, st).
        let request_id = (case sc_request_id_header sc of None \<Rightarrow> fresh | Some h \<Rightarrow> h);
            before = sc_request_id_var sc;
            sc1 = sc\<lparr>sc_request_id := Some request_id, sc_request_id_var := request_id\<rparr>
        in case call_next (sc1, st) of
             (r, sc2, st2) \<Rightarrow>
               (map_sum id (set_header ''x-request-id'' request_id) r,
                sc2\<lparr>sc_request_id_var := before\<rparr>, st2))"

definition read_perf :: "'s app_state \<Rightarrow> seconds \<times> 's app_state" where
  "read_perf st = (case perf_counter (app_world st) of (t, w) \<Rightarrow> (t, st\<lparr>app_world := w\<rparr>))"

text \<open>\<open>getattr(request.scope.get("route"), "path", request.url.path)\<close>: without a matched route, the path
  itself.\<close>

definition route_of :: "scope \<Rightarrow> string" where
  "route_of sc = (case sc_route sc of None \<Rightarrow> sc_path sc | Some p \<Rightarrow> p)"

definition metrics_dispatch :: "'s endpoint \<Rightarrow> 's endpoint" where
  "metrics_dispatch call_next =
     (\<lambda>(sc, st).
        let (started_at, st1) = read_perf st
        in case call_next (sc, st1) of
             (Inl e, sc2, st2) \<Rightarrow> (Inl e, sc2, st2)
           | (Inr response, sc2, st2) \<Rightarrow>
               (let route = route_of sc2
                in if route \<noteq> ''/metrics''
                   then (let (finished_at, st3) = read_perf st2
                         in (Inr response, sc2,
                             st3\<lparr>app_world :=
                               with_metrics (record_http_request (sc_method sc2) route
                                  (dec_digits (http_status response)) (finished_at - started_at))
                                 (app_world st3)\<rparr>))
                   else (Inr response, sc2, st2)))"

subsection \<open>The application\<close>

text \<open>The framework: \<open>wrap_handlers\<close> is the layer around the router that runs the handler
  registered for a class of exceptions, \<open>wrap_errors\<close> the outermost layer, which runs the handler
  registered for \<open>Exception\<close>, and \<open>wrap_cors\<close> the CORS middleware with its allowed origins, methods
  and headers.\<close>

record 's web_framework =
  wrap_handlers :: "(scope \<Rightarrow> app_error_class \<Rightarrow> string option \<Rightarrow> http_response) \<Rightarrow> 's endpoint \<Rightarrow> 's endpoint"
  wrap_errors :: "(scope \<Rightarrow> http_response) \<Rightarrow> 's endpoint \<Rightarrow> 's endpoint"
  wrap_cors :: "string list \<Rightarrow> string list \<Rightarrow> string list \<Rightarrow> 's endpoint \<Rightarrow> 's endpoint"

text \<open>\<open>create_app\<close>: \<open>add_middleware\<close> puts the new middleware around those added before.\<close>

definition create_app :: "'s web_framework \<Rightarrow> Settings \<Rightarrow> string \<Rightarrow> 's endpoint \<Rightarrow> 's endpoint" where
  "create_app fw settings fresh router =
     wrap_errors fw (\<lambda>sc. response_of (unhandled_error_handler (sc_request_id sc)))
       (metrics_dispatch
         (request_id_dispatch fresh
           (wrap_cors fw (cors_allowed_origins settings) [''GET'', ''POST'', ''OPTIONS'']
              [''content-type'', ''x-request-id'']
              (wrap_handlers fw (\<lambda>sc k m. response_of (app_error_handler (sc_request_id sc) k m)) router))))"

text \<open>The start of \<open>lifespan\<close>, after the repository is built, and its \<open>finally\<close> clause. The worker
  that \<open>lifespan\<close> creates is never started, so its \<open>stop\<close> has no task to wait for. \<open>n\<close> bounds the
  advances of the consumer that \<open>queue.stop()\<close> waits for.\<close>

fun role_value :: "process_role_value \<Rightarrow> string" where
  "role_value combined = ''combined''"
| "role_value api = ''api''"
| "role_value worker = ''worker''"

definition new_worker :: "Settings \<Rightarrow> EvaluationWorker" where
  "new_worker settings =
     \<lparr>poll_seconds = worker_poll_seconds settings, stale_job_seconds = worker_stale_job_seconds settings,
      worker_task = None, worker_stopping = False\<rparr>"

definition lifespan_start :: "Settings \<Rightarrow> 's world \<Rightarrow> 's world" where
  "lifespan_start settings w =
     (let w1 = w\<lparr>queue := queue_init, audit_events := []\<rparr>;
          w2 = (if process_role settings = combined then queue_start w1 else w1)
      in emit_log ''INFO'' ''service started''
           [(''process_role'', LStr (role_value (process_role settings)))] None w2)"

definition lifespan_stop ::
    "'s handler \<Rightarrow> nat \<Rightarrow> ('s \<Rightarrow> 's) \<Rightarrow> EvaluationWorker \<Rightarrow> 's world \<Rightarrow> (exn + unit) \<times> 's world" where
  "lifespan_stop handler n close k w =
     (let w1 = queue_run handler n (queue_stop w)
      in case worker_stop WorkerRunning k of
           (Inl e, k1) \<Rightarrow> (Inl e, w1)
         | (Inr _, k1) \<Rightarrow>
             (Inr (), emit_log ''INFO'' ''service stopped'' [] None (w1\<lparr>repository := close (repository w1)\<rparr>)))"

subsection \<open>The factory\<close>

text \<open>\<open>connect\<close> is the constructor of the PostgreSQL repository, which opens no connection yet, and
  \<open>init_schema\<close> its method that creates the tables.\<close>

datatype 'd built_repository = MemoryRepository InMemoryJobRepository | PostgresRepository 'd

definition build_repository ::
    "(string \<Rightarrow> 'd) \<Rightarrow> ('d \<Rightarrow> exn + 'd) \<Rightarrow> Settings \<Rightarrow> exn + 'd built_repository" where
  "build_repository connect init_schema settings =
     (if storage_backend settings = ''memory'' then Inr (MemoryRepository mem_init)
      else if storage_backend settings = ''postgres''
      then (let repository = connect (database_url settings)
            in if auto_create_schema settings
               then map_sum id PostgresRepository (init_schema repository)
               else Inr (PostgresRepository repository))
      else Inl (ValueError (''Unsupported storage backend: '' @ storage_backend settings)))"

subsection \<open>The worker process\<close>

text \<open>\<open>run_worker\<close> after the repository is built. The worker makes up to \<open>passes\<close> passes before a
  signal sets the stop event; without a signal the process waits. A process that exits returns or
  raises; the flag says whether the repository was closed.\<close>

datatype process_end = Waiting | Exited "exn + unit"

definition run_worker ::
    "'s repo_ops \<Rightarrow> 's scorer \<Rightarrow> 's world sleep \<Rightarrow> Settings \<Rightarrow> nat \<Rightarrow> bool \<Rightarrow> 's world \<Rightarrow>
       process_end \<times> bool \<times> 's world" where
  "run_worker R scorer sleep settings passes signalled w =
     (let k = worker_start (new_worker settings);
          w1 = emit_log ''INFO'' ''worker process started'' [] None w;
          checks = replicate passes False @ (if signalled then [True] else []);
          (ended, w2) = worker_run R scorer sleep k checks w1
      in if \<not> signalled then (Waiting, False, w2)
         else case worker_stop ended k of
                (Inl e, _) \<Rightarrow> (Exited (Inl e), False, w2)
              | (Inr _, _) \<Rightarrow>
                  (Exited (Inr ()), True, emit_log ''INFO'' ''worker process stopped'' [] None w2))"

subsection \<open>The framework's laws\<close>

text \<open>Documented behaviour of Starlette: the handler of an exception class answers for its
  subclasses; the outermost layer answers every exception that is left; the CORS middleware, on a
  request that is not a preflight, adds headers of its own to the response and lets exceptions
  pass.\<close>

locale starlette =
  fixes fw :: "'s web_framework"
  assumes handlers_law: "wrap_handlers fw h ep x =
      (case ep x of (Inl (App k m), sc, st) \<Rightarrow> (Inr (h sc k m), sc, st) | y \<Rightarrow> y)"
    and errors_law: "wrap_errors fw g ep x =
      (case ep x of (Inl e, sc, st) \<Rightarrow> (Inr (g sc), sc, st) | y \<Rightarrow> y)"
    and cors_raises: "sc_method (fst x) \<noteq> ''OPTIONS'' \<Longrightarrow> ep x = (Inl e, sc, st) \<Longrightarrow>
      wrap_cors fw origins methods headers ep x = (Inl e, sc, st)"
    and cors_answers: "sc_method (fst x) \<noteq> ''OPTIONS'' \<Longrightarrow> ep x = (Inr r, sc, st) \<Longrightarrow>
      \<exists>hs. wrap_cors fw origins methods headers ep x =
        (Inr (r\<lparr>http_headers := http_headers r @ hs\<rparr>), sc, st)"

definition request_id_of :: "string \<Rightarrow> scope \<Rightarrow> string" where
  "request_id_of fresh sc = (case sc_request_id_header sc of None \<Rightarrow> fresh | Some h \<Rightarrow> h)"

definition inner_scope :: "string \<Rightarrow> scope \<Rightarrow> scope" where
  "inner_scope fresh sc =
     sc\<lparr>sc_request_id := Some (request_id_of fresh sc), sc_request_id_var := request_id_of fresh sc\<rparr>"

text \<open>A router outcome that is answered inside the middlewares: a response, or an application error,
  with the status that the client will see.\<close>

definition answered :: "(exn + http_response) \<Rightarrow> int \<Rightarrow> bool" where
  "answered out code \<longleftrightarrow>
     (case out of Inr r \<Rightarrow> http_status r = code | Inl (App k m) \<Rightarrow> status_code k = code | _ \<Rightarrow> False)"

lemma read_perf_metrics [simp]: "metrics (app_world (snd (read_perf st))) = metrics (app_world st)"
  by (simp add: read_perf_def perf_counter_def)

lemma app_error_response [simp]:
  "http_status (response_of (app_error_handler r k m)) = status_code k"
  by (simp add: response_of_def app_error_handler_def error_response_def)

lemma route_of_var [simp]: "route_of (sc\<lparr>sc_request_id_var := v\<rparr>) = route_of sc"
  by (simp add: route_of_def split: option.split)

context starlette
begin

lemma inner_answer:
  assumes m: "sc_method sc \<noteq> ''OPTIONS''"
    and r: "router (inner_scope fresh sc, st) = (out, sc1, st1)" and a: "answered out code"
  shows "\<exists>resp. request_id_dispatch fresh (wrap_cors fw o1 o2 o3 (wrap_handlers fw
      (\<lambda>sc k m. response_of (app_error_handler (sc_request_id sc) k m)) router)) (sc, st) =
        (Inr resp, sc1\<lparr>sc_request_id_var := sc_request_id_var sc\<rparr>, st1) \<and> http_status resp = code \<and>
      map_of (http_headers resp) ''x-request-id'' = Some (request_id_of fresh sc)"
proof -
  let ?ep = "wrap_handlers fw (\<lambda>sc k m. response_of (app_error_handler (sc_request_id sc) k m)) router"
  obtain r1 where r1: "?ep (inner_scope fresh sc, st) = (Inr r1, sc1, st1)" "http_status r1 = code"
    using r a by (cases out) (auto simp: handlers_law answered_def split: exn.splits)
  have m': "sc_method (fst (inner_scope fresh sc, st)) \<noteq> ''OPTIONS''" using m by (simp add: inner_scope_def)
  obtain hs where "wrap_cors fw o1 o2 o3 ?ep (inner_scope fresh sc, st) =
      (Inr (r1\<lparr>http_headers := http_headers r1 @ hs\<rparr>), sc1, st1)"
    using cors_answers [where ep = ?ep, OF m' r1(1)] by blast
  with r1(2) show ?thesis
    by (simp add: request_id_dispatch_def inner_scope_def request_id_of_def set_header_def update_conv')
qed

lemma app_answer:
  assumes "sc_method sc \<noteq> ''OPTIONS''"
    and "router (inner_scope fresh sc, snd (read_perf st)) = (out, sc1, st1)" and "answered out code"
    and "route_of sc1 \<noteq> ''/metrics''"
  shows "\<exists>resp sc2 st2 dur. create_app fw settings fresh router (sc, st) = (Inr resp, sc2, st2) \<and>
    http_status resp = code \<and> map_of (http_headers resp) ''x-request-id'' = Some (request_id_of fresh sc) \<and>
    sc_request_id_var sc2 = sc_request_id_var sc \<and>
    metrics (app_world st2) =
      record_http_request (sc_method sc1) (route_of sc1) (dec_digits code) dur (metrics (app_world st1))"
proof -
  from inner_answer [where router = router, OF assms(1-3), of "cors_allowed_origins settings" "[''GET'', ''POST'', ''OPTIONS'']"
      "[''content-type'', ''x-request-id'']"]
  obtain resp where "request_id_dispatch fresh (wrap_cors fw (cors_allowed_origins settings)
      [''GET'', ''POST'', ''OPTIONS''] [''content-type'', ''x-request-id''] (wrap_handlers fw
      (\<lambda>sc k m. response_of (app_error_handler (sc_request_id sc) k m)) router)) (sc, snd (read_perf st)) =
        (Inr resp, sc1\<lparr>sc_request_id_var := sc_request_id_var sc\<rparr>, st1)" "http_status resp = code"
      "map_of (http_headers resp) ''x-request-id'' = Some (request_id_of fresh sc)" by blast
  with assms(4) show ?thesis
    by (auto simp: create_app_def errors_law metrics_dispatch_def Let_def split_beta)
qed

lemma app_unhandled:
  assumes m: "sc_method sc \<noteq> ''OPTIONS''"
    and r: "router (inner_scope fresh sc, snd (read_perf st)) = (Inl e, sc1, st1)"
    and e: "\<forall>k msg. e \<noteq> App k msg"
  shows "create_app fw settings fresh router (sc, st) =
    (Inr (response_of (unhandled_error_handler (sc_request_id sc1))),
     sc1\<lparr>sc_request_id_var := sc_request_id_var sc\<rparr>, st1)"
proof -
  let ?ep = "wrap_handlers fw (\<lambda>sc k m. response_of (app_error_handler (sc_request_id sc) k m)) router"
  have ep: "?ep (inner_scope fresh sc, snd (read_perf st)) = (Inl e, sc1, st1)"
    using r e by (cases e) (simp_all add: handlers_law)
  have "wrap_cors fw o1 o2 o3 ?ep (inner_scope fresh sc, snd (read_perf st)) = (Inl e, sc1, st1)" for o1 o2 o3
    using m by (intro cors_raises [where ep = ?ep and x = "(inner_scope fresh sc, snd (read_perf st))"] ep)
      (simp add: inner_scope_def)
  then show ?thesis
    by (simp add: create_app_def errors_law metrics_dispatch_def Let_def split_beta request_id_dispatch_def
        inner_scope_def request_id_of_def)
qed

end

subsection \<open>A framework\<close>

text \<open>The layers as functions: CORS adds its \<open>vary\<close> header and nothing else.\<close>

definition plain_framework :: "'s web_framework" where
  "plain_framework =
     \<lparr>wrap_handlers = (\<lambda>h ep x. case ep x of (Inl (App k m), sc, st) \<Rightarrow> (Inr (h sc k m), sc, st) | y \<Rightarrow> y),
      wrap_errors = (\<lambda>g ep x. case ep x of (Inl e, sc, st) \<Rightarrow> (Inr (g sc), sc, st) | y \<Rightarrow> y),
      wrap_cors = (\<lambda>origins methods headers ep x.
        case ep x of (Inr r, y) \<Rightarrow> (Inr (r\<lparr>http_headers := http_headers r @ [(''vary'', ''Origin'')]\<rparr>), y)
        | z \<Rightarrow> z)\<rparr>"

interpretation plain: starlette plain_framework
  by unfold_locales (auto simp: plain_framework_def)

subsection \<open>Properties\<close>

definition demo_scope :: scope where
  "demo_scope =
     \<lparr>sc_method = ''GET'', sc_path = ''/api/v1/evaluations'', sc_request_id_header = Some ''req-7'',
      sc_route = None, sc_request_id = None, sc_request_id_var = ''unknown''\<rparr>"

definition demo_app :: "InMemoryJobRepository app_state" where
  "demo_app = \<lparr>app_world = world_init mem_init (\<lambda>n. int n) (\<lambda>n. of_nat n), rate_limiter = limiter_init,
     monotonic = (\<lambda>n. of_nat n)\<rparr>"

definition failing_router :: "exn \<Rightarrow> 's endpoint" where
  "failing_router e = (\<lambda>(sc, st). (Inl e, sc, st))"

text \<open>C23. Every request that the router answers, or that ends in an application error, is answered
  under its request identifier: the response carries \<open>x-request-id\<close> with the client's own value or
  the generated one, the context variable is back at its old value, and exactly this request is
  counted under its method, route and final status, unless it is for the metrics themselves.\<close>

theorem requests_identified_and_counted:
  assumes "starlette fw" and "sc_method sc \<noteq> ''OPTIONS''"
    and "router (inner_scope fresh sc, snd (read_perf st)) = (out, sc1, st1)" and "answered out code"
    and "route_of sc1 \<noteq> ''/metrics''"
  shows "\<exists>resp sc2 st2 dur. create_app fw settings fresh router (sc, st) = (Inr resp, sc2, st2) \<and>
    http_status resp = code \<and>
    map_of (http_headers resp) ''x-request-id'' =
      Some (case sc_request_id_header sc of None \<Rightarrow> fresh | Some h \<Rightarrow> h) \<and>
    sc_request_id_var sc2 = sc_request_id_var sc \<and>
    metrics (app_world st2) =
      record_http_request (sc_method sc1) (route_of sc1) (dec_digits code) dur (metrics (app_world st1))"
  using starlette.app_answer [where router = router, OF assms] by (simp add: request_id_of_def)

theorem requests_identified_and_counted_witness:
  "\<exists>resp x. create_app plain_framework default_settings ''fresh'' (failing_router raise_NotFound)
      (demo_scope, demo_app) = (Inr resp, x) \<and> http_status resp = 404 \<and>
    map_of (http_headers resp) ''x-request-id'' = Some ''req-7''"
proof -
  have "failing_router raise_NotFound (inner_scope ''fresh'' demo_scope, snd (read_perf demo_app)) =
      (Inl raise_NotFound, inner_scope ''fresh'' demo_scope, snd (read_perf demo_app))"
    by (simp add: failing_router_def)
  from requests_identified_and_counted [where router = "failing_router raise_NotFound", OF plain.starlette_axioms _ this, of 404]
  show ?thesis
    by (fastforce simp: demo_scope_def answered_def route_of_def inner_scope_def)
qed

text \<open>C38. An exception that is no application error leaves through all middlewares: the client gets a
  generic 500 whose body names the request, but the response has no \<open>x-request-id\<close> header, and the
  request appears in no HTTP metric.\<close>

theorem unhandled_error_response:
  assumes "starlette fw" and "sc_method sc \<noteq> ''OPTIONS''"
    and "router (inner_scope fresh sc, snd (read_perf st)) = (Inl e, sc1, st1)"
    and "\<forall>k msg. e \<noteq> App k msg" and "sc_request_id sc1 = sc_request_id (inner_scope fresh sc)"
  shows "\<exists>resp sc2. create_app fw settings fresh router (sc, st) = (Inr resp, sc2, st1) \<and>
    http_status resp = 500 \<and> http_headers resp = [] \<and>
    http_body resp = JObj [(''error'', JObj [(''code'', JStr ''internal_error''),
      (''message'', JStr ''An unexpected error occurred.''),
      (''request_id'', JStr (case sc_request_id_header sc of None \<Rightarrow> fresh | Some h \<Rightarrow> h))])]"
  using starlette.app_unhandled [where router = router, OF assms(1-4)] assms(5)
  by (simp add: response_of_def unhandled_error_handler_def error_response_def inner_scope_def
      request_id_of_def request_id_or_unknown_def)

theorem unhandled_error_response_witness:
  "\<exists>resp x. create_app plain_framework default_settings ''fresh'' (failing_router ValidationError)
      (demo_scope, demo_app) = (Inr resp, x) \<and> http_status resp = 500 \<and> http_headers resp = []"
proof -
  have "failing_router ValidationError (inner_scope ''fresh'' demo_scope, snd (read_perf demo_app)) =
      (Inl ValidationError, inner_scope ''fresh'' demo_scope, snd (read_perf demo_app))"
    by (simp add: failing_router_def)
  from unhandled_error_response [where router = "failing_router ValidationError", OF plain.starlette_axioms _ this] show ?thesis
    by (fastforce simp: demo_scope_def)
qed

text \<open>The end of the lifespan: the consumer has been stopped, the worker that was never started does
  not get in the way, and the repository is closed.\<close>

lemma lifespan_stop_closes:
  "\<exists>w'. lifespan_stop handler n close (new_worker settings) w = (Inr (), w') \<and>
     repository w' = close (repository (queue_run handler n (queue_stop w))) \<and>
     queue w' = queue (queue_run handler n (queue_stop w))"
  by (simp add: lifespan_stop_def new_worker_def worker_stop_def Let_def)

text \<open>The queue after start-up, by role.\<close>

lemma lifespan_queue:
  "queue (lifespan_start settings w) =
     (if process_role settings = combined
      then queue_init\<lparr>queue_task := TaskLooping\<rparr> else queue_init)"
  by (simp add: lifespan_start_def queue_start_def queue_init_def Let_def)

lemma no_task_stays:
  "queue_task (queue w) = NoTask \<Longrightarrow> QStart \<notin> set cmds \<Longrightarrow>
     queue_task (queue (queue_execs handler cmds w)) = NoTask \<and> handed handler cmds w = []"
proof (induction cmds arbitrary: w)
  case (Cons x cmds)
  then have "queue_task (queue (queue_exec handler x w)) = NoTask \<and> handed_now w (queue_exec handler x w) = []"
    by (cases x) (auto simp: queue_stop_def Let_def queue_step_def handed_now_def)
  with Cons.IH [of "queue_exec handler x w"] Cons.prems(2) show ?case by (simp add: queue_execs_def)
qed (simp add: queue_execs_def)

lemma enqueue_fold:
  "queue (fold enqueue ids w) =
     (queue w)\<lparr>queue_items := queue_items (queue w) @ map Some ids,
       queue_unfinished := queue_unfinished (queue w) + int (length ids)\<rparr>"
  by (induction ids arbitrary: w) (simp_all add: queue_put_def)

text \<open>C24. Who processes what is submitted: in the combined role the consumer that start-up creates
  runs the handler on every submitted job, once and in order. In the other roles there is no
  consumer: whatever is enqueued, nothing is ever handed to a handler, and the in-memory queue keeps
  every identifier.\<close>

theorem lifespan_processing_by_role:
  assumes "\<And>i w. queue (snd (handler i w)) = queue w" and "QStart \<notin> set cmds"
  shows "(process_role settings = combined \<longrightarrow>
      (let w1 = fold enqueue ids (lifespan_start settings w) in
       queue_run handler (2 * length ids + 1) w1 = set_task TaskWaiting (fold (one_round handler) ids w1) \<and>
       queue_items (queue (fold (one_round handler) ids w1)) = [])) \<and>
    (process_role settings \<noteq> combined \<longrightarrow>
       handed handler cmds (lifespan_start settings w) = [] \<and>
       pending (queue_execs handler cmds (lifespan_start settings w)) = enqueued cmds)"
proof (intro conjI impI)
  assume r: "process_role settings = combined"
  let ?w = "fold enqueue ids (lifespan_start settings w)"
  have "queue_task (queue ?w) = TaskLooping" "\<not> queue_stopping (queue ?w)" "queue_items (queue ?w) = map Some ids"
    by (simp_all add: enqueue_fold lifespan_queue r queue_init_def)
  from queue_run_drains [OF assms(1) this] show "let w1 = ?w in
      queue_run handler (2 * length ids + 1) w1 = set_task TaskWaiting (fold (one_round handler) ids w1) \<and>
      queue_items (queue (fold (one_round handler) ids w1)) = []"
    by (simp add: Let_def del: queue_run.simps)
next
  assume r: "process_role settings \<noteq> combined"
  have t: "queue_task (queue (lifespan_start settings w)) = NoTask" "pending (lifespan_start settings w) = []"
    by (simp_all add: lifespan_queue r queue_init_def pending_def)
  from no_task_stays [OF t(1) assms(2)] show none: "handed handler cmds (lifespan_start settings w) = []" by simp
  from queue_execs_fifo [of handler cmds "lifespan_start settings w"] assms(1) none t(2)
  show "pending (queue_execs handler cmds (lifespan_start settings w)) = enqueued cmds" by simp
qed

theorem lifespan_processing_by_role_witness:
  "pending (queue_execs failing_handler [QEnqueue 7, QStep, QEnqueue 8, QStep]
     (lifespan_start (default_settings\<lparr>process_role := api\<rparr>) (world_init () (\<lambda>n. int n) (\<lambda>n. 0)))) = [7, 8]"
proof -
  have q: "queue (snd (failing_handler i w)) = queue w" for i and w :: "unit world"
    by (simp add: failing_handler_def)
  let ?cmds = "[QEnqueue 7, QStep, QEnqueue 8, QStep]"
  have "QStart \<notin> set ?cmds" "process_role (default_settings\<lparr>process_role := api\<rparr>) \<noteq> combined" by simp_all
  with lifespan_processing_by_role [where handler = failing_handler, OF q, of ?cmds "default_settings\<lparr>process_role := api\<rparr>"]
  have "pending (queue_execs failing_handler ?cmds (lifespan_start (default_settings\<lparr>process_role := api\<rparr>)
      (world_init () (\<lambda>n. int n) (\<lambda>n. 0)))) = enqueued ?cmds" by blast
  then show ?thesis by (simp only: enqueued.simps)
qed

end
