(* ===== verification/Endpoints.thy ===== *)
theory Endpoints
  imports Application
begin

text \<open>
  The HTTP surface: which handler answers which method and path, how the arguments of a handler come
  out of a request, and the JSON documents of the response models (\<^verbatim>\<open>app/api\<close>,
  \<^verbatim>\<open>app/domain/models.py\<close>).

  FastAPI is a parameter, \<open>fastapi\<close>. It finds the route, answers what no route matches
  (\<open>unrouted\<close>), parses identifiers and numbers and writes times as text; \<open>rejection\<close> is the
  body of its answer to a request that does not validate. When a request does not validate and the
  authentication of the same request raises as well, \<open>reject_first\<close> says which of the two the
  client sees. The locale \<open>fastapi_laws\<close> holds what its documentation promises: routes are tried in
  the order in which they were added, a literal segment matches itself and a parameter any text
  without a slash, and the printed form of a UUID parses to it.

  \<open>inbound\<close> is what reaches a handler beside method, path and request identifier: the query, the
  body, the \<open>Authorization\<close> header, the client's address headers, the time at which a token is
  checked and the identifier \<open>uuid4\<close> draws for a new job. A body that is not JSON is \<open>None\<close>.
\<close>

record inbound =
  in_query :: "(string \<times> string) list"
  in_body :: "json option"
  in_authorization :: "string option"
  in_client :: http_client
  in_now :: datetime
  in_uuid4 :: uuid

subsection \<open>The route table\<close>

datatype handler_name =
    Live | Ready | GetMetrics | SubmitEvaluation | ListEvaluations | GetEvaluationDetails | GetEvaluation

type_synonym route = "string \<times> string \<times> handler_name"

definition health_router :: "route list" where
  "health_router = [(''GET'', ''/health/live'', Live), (''GET'', ''/health/ready'', Ready)]"

definition metrics_router :: "route list" where
  "metrics_router = [(''GET'', ''/metrics'', GetMetrics)]"

definition evaluation_router :: "route list" where
  "evaluation_router =
     map (\<lambda>(m, p, h). (m, ''/v1'' @ p, h))
       [(''POST'', ''/evaluations'', SubmitEvaluation),
        (''GET'', ''/evaluations'', ListEvaluations),
        (''GET'', ''/evaluations/{job_id}/details'', GetEvaluationDetails),
        (''GET'', ''/evaluations/{job_id}'', GetEvaluation)]"

definition included_routes :: "route list" where
  "included_routes = health_router @ metrics_router @ evaluation_router"

record 's fastapi =
  find_route :: "route list \<Rightarrow> string \<Rightarrow> string \<Rightarrow> (route \<times> (string \<times> string) list) option"
  unrouted :: "inbound \<Rightarrow> 's endpoint"
  reject_first :: "inbound \<Rightarrow> bool"
  rejection :: "scope \<Rightarrow> inbound \<Rightarrow> json"
  uuid_of :: "string \<Rightarrow> uuid option"
  int_of :: "string \<Rightarrow> int option"
  datetime_text :: "datetime \<Rightarrow> string"

subsection \<open>Arguments\<close>

text \<open>The body of a submission against its model: unknown keys are ignored, \<open>tenant_id\<close> and
  \<open>rubric\<close> may be missing or null.\<close>

definition text_field :: "nat \<Rightarrow> nat \<Rightarrow> (string \<times> json) list \<Rightarrow> string \<Rightarrow> string option" where
  "text_field lo hi d k =
     (case map_of d k of Some (JStr s) \<Rightarrow> if len_between lo hi s then Some s else None | _ \<Rightarrow> None)"

definition optional_text_field ::
    "nat \<Rightarrow> nat \<Rightarrow> (string \<times> json) list \<Rightarrow> string \<Rightarrow> string option option" where
  "optional_text_field lo hi d k =
     (case map_of d k of
        None \<Rightarrow> Some None
      | Some JNull \<Rightarrow> Some None
      | Some (JStr s) \<Rightarrow> if len_between lo hi s then Some (Some s) else None
      | _ \<Rightarrow> None)"

definition load_submission :: "json \<Rightarrow> SubmitEvaluationRequest option" where
  "load_submission body =
     (case body of
        JObj d \<Rightarrow>
          Option.bind (optional_text_field 1 128 d ''tenant_id'') (\<lambda>tenant.
          Option.bind (text_field 1 128 d ''project_id'') (\<lambda>project.
          Option.bind (text_field 1 10000 d ''question'') (\<lambda>question.
          Option.bind (text_field 1 20000 d ''answer'') (\<lambda>answer.
          Option.bind (optional_text_field 0 10000 d ''rubric'') (\<lambda>rubric.
            Some \<lparr>sub_tenant_id = tenant, sub_project_id = project, sub_question = question,
                  sub_answer = answer, sub_rubric = rubric\<rparr>)))))
      | _ \<Rightarrow> None)"

text \<open>Query parameters; of a repeated key the last value counts.\<close>

definition query_value :: "inbound \<Rightarrow> string \<Rightarrow> string option" where
  "query_value inb k = map_of (rev (in_query inb)) k"

definition query_text :: "inbound \<Rightarrow> string \<Rightarrow> string option option" where
  "query_text inb k =
     (case query_value inb k of
        None \<Rightarrow> Some None
      | Some s \<Rightarrow> if len_between 1 128 s then Some (Some s) else None)"

definition query_limit :: "'s fastapi \<Rightarrow> inbound \<Rightarrow> int option" where
  "query_limit fa inb =
     (case query_value inb ''limit'' of
        None \<Rightarrow> Some 50
      | Some s \<Rightarrow>
          (case int_of fa s of
             None \<Rightarrow> None
           | Some n \<Rightarrow> if 1 \<le> n \<and> n \<le> 100 then Some n else None))"

definition submit_args :: "inbound \<Rightarrow> SubmitEvaluationRequest option" where
  "submit_args inb = Option.bind (in_body inb) load_submission"

definition list_args :: "'s fastapi \<Rightarrow> inbound \<Rightarrow> (string option \<times> string option \<times> int) option" where
  "list_args fa inb =
     Option.bind (query_text inb ''tenant_id'') (\<lambda>tenant.
     Option.bind (query_text inb ''project_id'') (\<lambda>project.
     Option.bind (query_limit fa inb) (\<lambda>limit. Some (tenant, project, limit))))"

definition job_args :: "'s fastapi \<Rightarrow> (string \<times> string) list \<Rightarrow> inbound \<Rightarrow> (uuid \<times> string option) option" where
  "job_args fa params inb =
     Option.bind (Option.bind (map_of params ''job_id'') (uuid_of fa)) (\<lambda>i.
     Option.bind (query_text inb ''tenant_id'') (\<lambda>tenant. Some (i, tenant)))"

subsection \<open>Responses\<close>

definition json_opt :: "('a \<Rightarrow> json) \<Rightarrow> 'a option \<Rightarrow> json" where
  "json_opt f x = (case x of None \<Rightarrow> JNull | Some v \<Rightarrow> f v)"

definition submit_response_json :: "SubmitEvaluationResponse \<Rightarrow> json" where
  "submit_response_json r =
     JObj [(''job_id'', JStr (uuid_str (sr_job_id r))), (''status'', JStr (status_value (sr_status r))),
           (''request_id'', JStr (sr_request_id r))]"

definition request_summary_json :: "EvaluationRequestSummary \<Rightarrow> json" where
  "request_summary_json r =
     JObj [(''tenant_id'', JStr (rs_tenant_id r)), (''project_id'', JStr (rs_project_id r)),
           (''rubric'', json_opt JStr (rs_rubric r))]"

definition job_response_json :: "'s fastapi \<Rightarrow> EvaluationJobResponse \<Rightarrow> json" where
  "job_response_json fa r =
     JObj [(''job_id'', JStr (uuid_str (jr_job_id r))), (''tenant_id'', JStr (jr_tenant_id r)),
           (''project_id'', JStr (jr_project_id r)), (''status'', JStr (status_value (jr_status r))),
           (''request'', request_summary_json (jr_request r)),
           (''result'', json_opt dump_result (jr_result r)),
           (''error_message'', json_opt JStr (jr_error_message r)),
           (''attempt_count'', JInt (jr_attempt_count r)), (''max_attempts'', JInt (jr_max_attempts r)),
           (''claimed_at'', json_opt (\<lambda>t. JStr (datetime_text fa t)) (jr_claimed_at r)),
           (''created_at'', JStr (datetime_text fa (jr_created_at r))),
           (''updated_at'', JStr (datetime_text fa (jr_updated_at r))),
           (''request_id'', JStr (jr_request_id r))]"

definition detail_response_json :: "'s fastapi \<Rightarrow> EvaluationJobDetailResponse \<Rightarrow> json" where
  "detail_response_json fa r =
     JObj [(''job_id'', JStr (uuid_str (dr_job_id r))), (''tenant_id'', JStr (dr_tenant_id r)),
           (''project_id'', JStr (dr_project_id r)), (''status'', JStr (status_value (dr_status r))),
           (''request'', dump_request (dr_request r)),
           (''result'', json_opt dump_result (dr_result r)),
           (''error_message'', json_opt JStr (dr_error_message r)),
           (''attempt_count'', JInt (dr_attempt_count r)), (''max_attempts'', JInt (dr_max_attempts r)),
           (''claimed_at'', json_opt (\<lambda>t. JStr (datetime_text fa t)) (dr_claimed_at r)),
           (''created_at'', JStr (datetime_text fa (dr_created_at r))),
           (''updated_at'', JStr (datetime_text fa (dr_updated_at r))),
           (''request_id'', JStr (dr_request_id r))]"

definition summary_json :: "'s fastapi \<Rightarrow> EvaluationJobSummary \<Rightarrow> json" where
  "summary_json fa r =
     JObj [(''job_id'', JStr (uuid_str (sm_job_id r))), (''tenant_id'', JStr (sm_tenant_id r)),
           (''project_id'', JStr (sm_project_id r)), (''status'', JStr (status_value (sm_status r))),
           (''result'', json_opt dump_result (sm_result r)),
           (''error_message'', json_opt JStr (sm_error_message r)),
           (''attempt_count'', JInt (sm_attempt_count r)), (''max_attempts'', JInt (sm_max_attempts r)),
           (''claimed_at'', json_opt (\<lambda>t. JStr (datetime_text fa t)) (sm_claimed_at r)),
           (''created_at'', JStr (datetime_text fa (sm_created_at r))),
           (''updated_at'', JStr (datetime_text fa (sm_updated_at r)))]"

definition list_response_json :: "'s fastapi \<Rightarrow> EvaluationListResponse \<Rightarrow> json" where
  "list_response_json fa r =
     JObj [(''jobs'', JList (map (summary_json fa) (lr_jobs r))), (''request_id'', JStr (lr_request_id r))]"

definition json_answer :: "int \<Rightarrow> json \<Rightarrow> http_response" where
  "json_answer code body = \<lparr>http_status = code, http_headers = [], http_body = body\<rparr>"

text \<open>A body in plain text is the text itself; the content type tells it from JSON.\<close>

definition plain_text_answer :: "string \<Rightarrow> string \<Rightarrow> http_response" where
  "plain_text_answer media_type text =
     \<lparr>http_status = 200, http_headers = [(''content-type'', media_type)], http_body = JStr text\<rparr>"

subsection \<open>The router\<close>

definition handler_request :: "scope \<Rightarrow> inbound \<Rightarrow> route_request" where
  "handler_request sc inb =
     \<lparr>rr_client = in_client inb,
      rr_request_id = (case sc_request_id sc of None \<Rightarrow> [] | Some r \<Rightarrow> r),
      rr_authorization = in_authorization inb\<rparr>"

text \<open>A handler that has its arguments and its context. The response models are built from
  \<open>request.state.request_id\<close> last, which raises if no middleware has set it.\<close>

definition respond ::
    "int \<Rightarrow> ('r \<Rightarrow> json) \<Rightarrow> scope \<Rightarrow> (exn + 'r) \<times> 's app_state \<Rightarrow> (exn + http_response) \<times> scope \<times> 's app_state" where
  "respond code to_json sc outcome =
     (case outcome of
        (Inl e, st) \<Rightarrow> (Inl e, sc, st)
      | (Inr r, st) \<Rightarrow>
          (case sc_request_id sc of
             None \<Rightarrow> (Inl (OtherError ''request_id''), sc, st)
           | Some _ \<Rightarrow> (Inr (json_answer code (to_json r)), sc, st)))"

text \<open>What FastAPI does before it calls a handler with the dependency \<open>get_request_context\<close>.\<close>

definition with_arguments ::
    "'s fastapi \<Rightarrow> jwt_codec \<Rightarrow> Settings \<Rightarrow> inbound \<Rightarrow> 'a option \<Rightarrow>
       ('a \<Rightarrow> RequestContext option \<Rightarrow> 's endpoint) \<Rightarrow> 's endpoint" where
  "with_arguments fa k settings inb args handler =
     (\<lambda>(sc, st).
        let context = get_request_context k settings (in_now inb) (in_authorization inb);
            rejected = (Inr (json_answer 422 (rejection fa sc inb)), sc, st)
        in case args of
             None \<Rightarrow>
               (case context of
                  Inl e \<Rightarrow> if reject_first fa inb then rejected else (Inl e, sc, st)
                | Inr _ \<Rightarrow> rejected)
           | Some a \<Rightarrow>
               (case context of
                  Inl e \<Rightarrow> (Inl e, sc, st)
                | Inr ctx \<Rightarrow> handler a ctx (sc, st)))"

fun run_handler ::
    "'s fastapi \<Rightarrow> jwt_codec \<Rightarrow> Settings \<Rightarrow> 's repo_ops \<Rightarrow> inbound \<Rightarrow> handler_name \<Rightarrow>
       (string \<times> string) list \<Rightarrow> 's endpoint" where
  "run_handler fa k settings R inb Live params = (\<lambda>(sc, st). (Inr (response_of live), sc, st))"
| "run_handler fa k settings R inb Ready params =
     (\<lambda>(sc, st). (map_sum id response_of (ready (Some (R, repository (app_world st)))), sc, st))"
| "run_handler fa k settings R inb GetMetrics params =
     (\<lambda>(sc, st). (Inr (plain_text_answer ''text/plain; version=0.0.4'' (get_metrics (app_world st))), sc, st))"
| "run_handler fa k settings R inb SubmitEvaluation params =
     with_arguments fa k settings inb (submit_args inb) (\<lambda>payload ctx (sc, st).
       respond 202 submit_response_json sc
         (submit_evaluation R settings (in_uuid4 inb) payload (handler_request sc inb) ctx st))"
| "run_handler fa k settings R inb ListEvaluations params =
     with_arguments fa k settings inb (list_args fa inb) (\<lambda>(tenant, project, limit) ctx (sc, st).
       respond 200 (list_response_json fa) sc
         (list_evaluations R settings (handler_request sc inb) tenant project limit ctx st))"
| "run_handler fa k settings R inb GetEvaluationDetails params =
     with_arguments fa k settings inb (job_args fa params inb) (\<lambda>(i, tenant) ctx (sc, st).
       respond 200 (detail_response_json fa) sc
         (get_evaluation_details R settings i (handler_request sc inb) tenant ctx st))"
| "run_handler fa k settings R inb GetEvaluation params =
     with_arguments fa k settings inb (job_args fa params inb) (\<lambda>(i, tenant) ctx (sc, st).
       respond 200 (job_response_json fa) sc
         (get_evaluation R settings i (handler_request sc inb) tenant ctx st))"

text \<open>The router notes the matched route in the scope, where the metrics middleware reads it.\<close>

definition router :: "'s fastapi \<Rightarrow> jwt_codec \<Rightarrow> Settings \<Rightarrow> 's repo_ops \<Rightarrow> inbound \<Rightarrow> 's endpoint" where
  "router fa k settings R inb =
     (\<lambda>(sc, st).
        case find_route fa included_routes (sc_method sc) (sc_path sc) of
          None \<Rightarrow> unrouted fa inb (sc, st)
        | Some ((m, path, name), params) \<Rightarrow>
            run_handler fa k settings R inb name params (sc\<lparr>sc_route := Some path\<rparr>, st))"

text \<open>The application with its middlewares around its routes.\<close>

definition service_app ::
    "'s web_framework \<Rightarrow> 's fastapi \<Rightarrow> jwt_codec \<Rightarrow> Settings \<Rightarrow> 's repo_ops \<Rightarrow> string \<Rightarrow> inbound \<Rightarrow> 's endpoint" where
  "service_app fw fa k settings R fresh inb = create_app fw settings fresh (router fa k settings R inb)"

subsection \<open>What FastAPI promises\<close>

definition path_parameter :: "string \<Rightarrow> string option" where
  "path_parameter segment =
     (if segment \<noteq> [] \<and> hd segment = CHR ''{'' then Some (butlast (tl segment)) else None)"

fun match_segments :: "string list \<Rightarrow> string list \<Rightarrow> (string \<times> string) list option" where
  "match_segments [] [] = Some []"
| "match_segments (t # ts) (s # ss) =
     (case path_parameter t of
        None \<Rightarrow> if s = t then match_segments ts ss else None
      | Some x \<Rightarrow> if s = [] then None else map_option ((#) (x, s)) (match_segments ts ss))"
| "match_segments _ _ = None"

definition match_path :: "string \<Rightarrow> string \<Rightarrow> (string \<times> string) list option" where
  "match_path template path = match_segments (split_on CHR ''/'' template) (split_on CHR ''/'' path)"

fun first_route :: "route list \<Rightarrow> string \<Rightarrow> string \<Rightarrow> (route \<times> (string \<times> string) list) option" where
  "first_route [] m p = None"
| "first_route ((rm, rp, h) # rs) m p =
     (case if rm = m then match_path rp p else None of
        None \<Rightarrow> first_route rs m p
      | Some params \<Rightarrow> Some ((rm, rp, h), params))"

locale fastapi_laws =
  fixes fa :: "'s fastapi"
  assumes route_law: "first_route included_routes m p = Some x \<Longrightarrow> find_route fa included_routes m p = Some x"
    and uuid_law: "uuid_of fa (uuid_str i) = Some i"

definition job_path :: "uuid \<Rightarrow> string" where
  "job_path i = ''/v1/evaluations/'' @ uuid_str i"

lemma split_job_path:
  "split_on CHR ''/'' (job_path i) = [[], ''v1'', ''evaluations'', uuid_str i]"
  "split_on CHR ''/'' (job_path i @ ''/details'') = [[], ''v1'', ''evaluations'', uuid_str i, ''details'']"
  using split_on_single [OF uuid_str_no_slash [of i]] split_on_append [OF uuid_str_no_slash [of i], of "''details''"]
  by (simp_all add: job_path_def)

context fastapi_laws
begin

lemma route_submit:
  "find_route fa included_routes ''POST'' ''/v1/evaluations'' =
     Some ((''POST'', ''/v1/evaluations'', SubmitEvaluation), [])"
  by (rule route_law) code_simp

lemma route_job:
  "find_route fa included_routes ''GET'' (job_path i) =
     Some ((''GET'', ''/v1/evaluations/{job_id}'', GetEvaluation), [(''job_id'', uuid_str i)])"
  by (rule route_law)
    (simp add: included_routes_def health_router_def metrics_router_def evaluation_router_def match_path_def
      split_job_path path_parameter_def uuid_str_not_Nil)

lemma route_details:
  "find_route fa included_routes ''GET'' (job_path i @ ''/details'') =
     Some ((''GET'', ''/v1/evaluations/{job_id}/details'', GetEvaluationDetails), [(''job_id'', uuid_str i)])"
  by (rule route_law)
    (simp add: included_routes_def health_router_def metrics_router_def evaluation_router_def match_path_def
      split_job_path path_parameter_def uuid_str_not_Nil)

end

text \<open>An instance: the table is searched as documented, identifiers are read in their printed form,
  and what is not found is a 404.\<close>

definition plain_fastapi :: "'s fastapi" where
  "plain_fastapi =
     \<lparr>find_route = first_route,
      unrouted = (\<lambda>inb (sc, st). (Inr (json_answer 404 (JObj [(''detail'', JStr ''Not Found'')])), sc, st)),
      reject_first = (\<lambda>inb. in_body inb = None),
      rejection = (\<lambda>sc inb. JObj [(''detail'', JList [])]),
      uuid_of = uuid_parse,
      int_of = (\<lambda>s. if s = ''100'' then Some 100 else None),
      datetime_text = (\<lambda>t. dec_digits t)\<rparr>"

interpretation plain_api: fastapi_laws plain_fastapi
  by unfold_locales (simp_all add: plain_fastapi_def)

end
