(* ===== verification/HttpService.thy ===== *)
theory HttpService
  imports Endpoints
begin

text \<open>
  What a client of the whole application can rely on: the routes of \<open>Endpoints\<close> inside the
  middlewares of \<open>Application\<close>, on the in-memory repository. A request is answered with the outcome of
  its handler, or with the answer of the exception handlers; only an accepted submission changes the
  store; no request to a route ends in an internal error while tenants are short enough; and no
  answer but that of the details route depends on a question or an answer.
\<close>

subsection \<open>From the outcome of a handler to the answer of the application\<close>

definition outcome_response :: "string option \<Rightarrow> exn + http_response \<Rightarrow> http_response" where
  "outcome_response rid out =
     (case out of Inr r \<Rightarrow> r | Inl e \<Rightarrow> response_of (handle_exception rid e))"

text \<open>The state without what the metrics middleware touches.\<close>

definition core :: "'s app_state \<Rightarrow> 's app_state" where
  "core st = st\<lparr>app_world := (app_world st)\<lparr>metrics := metrics_init, perf := (\<lambda>_. 0)\<rparr>\<rparr>"

lemma core_read_perf [simp]: "core (snd (read_perf st)) = core st"
  by (simp add: core_def read_perf_def perf_counter_def)

lemma core_with_metrics [simp]: "core (st\<lparr>app_world := with_metrics f (app_world st)\<rparr>) = core st"
  by (simp add: core_def with_metrics_def)

lemma core_world:
  assumes "core st = core st'"
  shows "repository (app_world st) = repository (app_world st')" and "queue (app_world st) = queue (app_world st')"
    and "audit_events (app_world st) = audit_events (app_world st')"
    and "wall (app_world st) = wall (app_world st')"
    and "rate_limiter st = rate_limiter st'" and "monotonic st = monotonic st'"
proof -
  have "app_world (core st) = app_world (core st')" "rate_limiter (core st) = rate_limiter (core st')"
    "monotonic (core st) = monotonic (core st')" using assms by simp_all
  then show "rate_limiter st = rate_limiter st'" "monotonic st = monotonic st'" by (simp_all add: core_def)
  have "repository (app_world (core st)) = repository (app_world (core st'))"
    "queue (app_world (core st)) = queue (app_world (core st'))"
    "audit_events (app_world (core st)) = audit_events (app_world (core st'))"
    "wall (app_world (core st)) = wall (app_world (core st'))" using assms by simp_all
  then show "repository (app_world st) = repository (app_world st')" "queue (app_world st) = queue (app_world st')"
    "audit_events (app_world st) = audit_events (app_world st')" "wall (app_world st) = wall (app_world st')"
    by (simp_all add: core_def)
qed

lemma read_perf_world [simp]:
  "repository (app_world (snd (read_perf st))) = repository (app_world st)"
  "queue (app_world (snd (read_perf st))) = queue (app_world st)"
  "audit_events (app_world (snd (read_perf st))) = audit_events (app_world st)"
  using core_world [OF core_read_perf [of st]] by simp_all

lemma set_header_answer [simp]:
  "http_status (set_header k v r) = http_status r" "http_body (set_header k v r) = http_body r"
  by (simp_all add: set_header_def)

context starlette
begin

lemma app_outcome:
  assumes m: "sc_method sc \<noteq> ''OPTIONS''"
    and r: "rt (inner_scope fresh sc, snd (read_perf st)) = (out, sc1, st1)"
  shows "\<exists>resp sc2 st2. create_app fw settings fresh rt (sc, st) = (Inr resp, sc2, st2) \<and>
    http_status resp = http_status (outcome_response (sc_request_id sc1) out) \<and>
    http_body resp = http_body (outcome_response (sc_request_id sc1) out) \<and> core st2 = core st1"
proof (cases "\<exists>r1. wrap_handlers fw (\<lambda>sc k m. response_of (app_error_handler (sc_request_id sc) k m)) rt
    (inner_scope fresh sc, snd (read_perf st)) = (Inr r1, sc1, st1) \<and> r1 = outcome_response (sc_request_id sc1) out")
  case True
  let ?r1 = "outcome_response (sc_request_id sc1) out"
  let ?ep = "wrap_handlers fw (\<lambda>sc k m. response_of (app_error_handler (sc_request_id sc) k m)) rt"
  from True have r1: "?ep (inner_scope fresh sc, snd (read_perf st)) = (Inr ?r1, sc1, st1)" by blast
  have m': "sc_method (fst (inner_scope fresh sc, snd (read_perf st))) \<noteq> ''OPTIONS''"
    using m by (simp add: inner_scope_def)
  obtain hs where "wrap_cors fw (cors_allowed_origins settings) [''GET'', ''POST'', ''OPTIONS'']
      [''content-type'', ''x-request-id''] ?ep (inner_scope fresh sc, snd (read_perf st)) =
      (Inr (?r1\<lparr>http_headers := http_headers ?r1 @ hs\<rparr>), sc1, st1)"
    using cors_answers [where ep = ?ep, OF m' r1] by blast
  then obtain resp where resp: "request_id_dispatch fresh (wrap_cors fw (cors_allowed_origins settings)
      [''GET'', ''POST'', ''OPTIONS''] [''content-type'', ''x-request-id''] ?ep) (sc, snd (read_perf st)) =
        (Inr resp, sc1\<lparr>sc_request_id_var := sc_request_id_var sc\<rparr>, st1)"
      "http_status resp = http_status ?r1" "http_body resp = http_body ?r1"
    by (simp add: request_id_dispatch_def inner_scope_def request_id_of_def)
  show ?thesis
  proof (cases "route_of sc1 = ''/metrics''")
    case True
    with resp show ?thesis by (simp add: create_app_def errors_law metrics_dispatch_def Let_def split_beta)
  next
    case False
    with resp show ?thesis
      by (simp add: create_app_def errors_law metrics_dispatch_def Let_def split_beta)
  qed
next
  case False
  then obtain e where e: "out = Inl e" "\<forall>k msg. e \<noteq> App k msg"
    using r by (cases out) (auto simp: handlers_law outcome_response_def handle_exception_def split: exn.splits)
  then have "handle_exception (sc_request_id sc1) e = unhandled_error_handler (sc_request_id sc1)"
    by (auto simp: handle_exception_def split: exn.splits)
  with app_unhandled [where router = rt, OF m r [unfolded e(1)] e(2), of settings] e(1) show ?thesis
    by (simp add: outcome_response_def)
qed

end

lemma run_handler_scope: "run_handler fa k settings R inb name params (sc, st) = (out, sc1, st1) \<Longrightarrow> sc1 = sc"
  by (cases name)
    (auto simp: with_arguments_def respond_def Let_def split: option.splits sum.splits prod.splits if_splits)

text \<open>A request to one of the routes, answered through all layers.\<close>

lemma service_answer:
  assumes "starlette fw" and m: "sc_method sc \<noteq> ''OPTIONS''"
    and f: "find_route fa included_routes (sc_method sc) (sc_path sc) = Some ((rm, path, name), params)"
    and sc': "sc' = (inner_scope fresh sc)\<lparr>sc_route := Some path\<rparr>"
    and h: "run_handler fa k settings R inb name params (sc', snd (read_perf st)) = (out, sc1, st1)"
  shows "\<exists>resp sc2 st2. service_app fw fa k settings R fresh inb (sc, st) = (Inr resp, sc2, st2) \<and>
    http_status resp = http_status (outcome_response (Some (request_id_of fresh sc)) out) \<and>
    http_body resp = http_body (outcome_response (Some (request_id_of fresh sc)) out) \<and> core st2 = core st1"
proof -
  have sc1: "sc1 = sc'" using run_handler_scope [OF h] .
  have "router fa k settings R inb (inner_scope fresh sc, snd (read_perf st)) = (out, sc1, st1)"
    using f h sc' by (simp add: router_def inner_scope_def)
  from starlette.app_outcome [where rt = "router fa k settings R inb", OF assms(1) m this, of settings] sc1 sc'
  show ?thesis by (simp add: service_app_def inner_scope_def)
qed

subsection \<open>Submitting and polling on any repository that meets the contract\<close>

lemma handler_request_id: "sc_request_id sc = Some rid \<Longrightarrow> rr_request_id (handler_request sc inb) = rid"
  by (simp add: handler_request_def)

lemma submit_defaults:
  "submit R i req w = (Inr job, w') \<Longrightarrow> max_attempts job = 3 \<and> tenant_id job = rq_tenant_id req"
  by (auto simp: submit_def new_EvaluationJob_def now_eq Let_def split: prod.splits sum.splits)

lemma service_answer_only:
  assumes "starlette fw" and "sc_method sc \<noteq> ''OPTIONS''"
    and "find_route fa included_routes (sc_method sc) (sc_path sc) = Some ((rm, path, name), params)"
    and "sc' = (inner_scope fresh sc)\<lparr>sc_route := Some path\<rparr>"
    and "fst (run_handler fa k settings R inb name params (sc', snd (read_perf st))) = out"
  shows "\<exists>resp x. service_app fw fa k settings R fresh inb (sc, st) = (Inr resp, x) \<and>
    http_status resp = http_status (outcome_response (Some (request_id_of fresh sc)) out) \<and>
    http_body resp = http_body (outcome_response (Some (request_id_of fresh sc)) out)"
proof (cases "run_handler fa k settings R inb name params (sc', snd (read_perf st))")
  case (fields o1 s1 t1)
  with service_answer [OF assms(1-4), of k settings R inb st o1 s1 t1] assms(5) show ?thesis by auto
qed

lemma submit_queue:
  "submit R i req w = (Inr job, w') \<Longrightarrow>
     queue w' = (queue w)\<lparr>queue_items := queue_items (queue w) @ [Some i],
       queue_unfinished := queue_unfinished (queue w) + 1\<rparr>"
  by (auto simp: submit_def new_EvaluationJob_def now_eq Let_def enqueue_def queue_put_def split: prod.splits sum.splits)

text \<open>What a client that polls wants to see: the job, succeeded, with its result.\<close>

definition serves_result :: "uuid \<Rightarrow> string \<Rightarrow> EvaluationResult \<Rightarrow> http_response \<Rightarrow> bool" where
  "serves_result i t res r \<longleftrightarrow>
     http_status r = 200 \<and>
     (\<exists>job. http_body r = JObj job \<and> map_of job ''job_id'' = Some (JStr (uuid_str i)) \<and>
        map_of job ''tenant_id'' = Some (JStr t) \<and> map_of job ''status'' = Some (JStr ''succeeded'') \<and>
        map_of job ''result'' = Some (JObj [(''score'', JInt (score res)),
          (''justification'', JStr (justification res)), (''rubric_used'', JBool (rubric_used res))]))"

definition serves_submission :: "uuid \<Rightarrow> http_response \<Rightarrow> bool" where
  "serves_submission i r \<longleftrightarrow>
     (\<exists>answer. http_body r = JObj answer \<and> map_of answer ''job_id'' = Some (JStr (uuid_str i)) \<and>
        map_of answer ''status'' = Some (JStr ''queued''))"

context evaluation_api
begin

lemma submit_route:
  assumes inv: "invar (repository (app_world st))" and new: "view (repository (app_world st)) (in_uuid4 inb) = None"
    and args: "submit_args inb = Some payload"
    and ctx: "get_request_context k settings (in_now inb) (in_authorization inb) = Inr ctx"
    and adm: "admit settings (handler_request sc inb) ''submit_evaluation'' (rate_limit_submit_per_minute settings) ctx
      (sub_tenant_id payload) st = (Inr t, st0)"
    and req: "to_evaluation_request payload t = Inr req" and fit: "request_fits fits req"
    and rid: "sc_request_id sc = Some rid"
  shows "\<exists>job w. run_handler fa k settings ops inb SubmitEvaluation params (sc, st) =
      (Inr (json_answer 202 (submit_response_json
         \<lparr>sr_job_id = in_uuid4 inb, sr_status = QUEUED, sr_request_id = rid\<rparr>)), sc, st0\<lparr>app_world := w\<rparr>) \<and>
    fresh_job job \<and> job_id job = in_uuid4 inb \<and> request job = req \<and> tenant_id job = t \<and> claimable job \<and>
    invar (repository w) \<and> view (repository w) = (view (repository (app_world st)))(in_uuid4 inb \<mapsto> job) \<and>
    queue w = (queue (app_world st))\<lparr>queue_items := queue_items (queue (app_world st)) @ [Some (in_uuid4 inb)],
      queue_unfinished := queue_unfinished (queue (app_world st)) + 1\<rparr>"
proof -
  have w0: "app_world st0 = app_world st" using admit_world [OF adm] .
  from submit_law [OF inv to_evaluation_request_Inr(1) [OF req] new fit] obtain job w where
    s: "submit ops (in_uuid4 inb) req (app_world st) = (Inr job, w)" "fresh_job job" "job_id job = in_uuid4 inb"
      "request job = req" "invar (repository w)"
      "view (repository w) = (view (repository (app_world st)))(in_uuid4 inb \<mapsto> job)" by blast
  have c: "claimable job" "status job = QUEUED" "tenant_id job = t"
    using s(2) submit_defaults [OF s(1)] to_evaluation_request_Inr(2) [OF req] by (auto simp: fresh_job_def claimable_def)
  have "run_handler fa k settings ops inb SubmitEvaluation params (sc, st) =
      (Inr (json_answer 202 (submit_response_json
         \<lparr>sr_job_id = in_uuid4 inb, sr_status = QUEUED, sr_request_id = rid\<rparr>)), sc, st0\<lparr>app_world := w\<rparr>)"
    using args ctx adm req rid s(1,3) c(2) w0
    by (simp add: with_arguments_def respond_def submit_evaluation_def handler_request_id [OF rid])
  with s c submit_queue [OF s(1)] show ?thesis by blast
qed

lemma poll_route:
  assumes inv: "invar (repository (app_world st))" and v: "view (repository (app_world st)) i = Some j"
    and args: "job_args fa params inb = Some (i, tenant)"
    and ctx: "get_request_context k settings (in_now inb) (in_authorization inb) = Inr ctx"
    and t: "tenant_from_context_or_request ctx tenant = Inr (tenant_id j)"
    and ok: "valid_result_opt (result j)" and fit: "fits (tenant_id j)" and rid: "sc_request_id sc = Some rid"
  shows "fst (run_handler fa k settings ops inb GetEvaluation params (sc, st)) = Inl (App RateLimitExceededError None) \<or>
    (\<exists>resp. to_response j rid = Inr resp \<and>
      fst (run_handler fa k settings ops inb GetEvaluation params (sc, st)) =
        Inr (json_answer 200 (job_response_json fa resp)))"
proof (cases "get_evaluation ops settings i (handler_request sc inb) tenant ctx st")
  case (Pair r st1)
  have "case r of Inl e \<Rightarrow> e = App RateLimitExceededError None | Inr x \<Rightarrow> to_response j rid = Inr x"
    using get_evaluation_found [OF inv v t ok fit, where settings = settings and rq = "handler_request sc inb"] Pair
    by (auto simp: handler_request_id [OF rid] split: sum.splits)
  with Pair args ctx rid show ?thesis
    by (cases r) (simp_all add: with_arguments_def respond_def)
qed

lemma submit_stored:
  assumes "starlette fw" and laws: "fastapi_laws fa" and inv: "invar (repository (app_world st))"
    and new: "view (repository (app_world st)) (in_uuid4 inb) = None"
    and post: "sc_method post = ''POST''" "sc_path post = ''/v1/evaluations''"
    and args: "submit_args inb = Some payload"
    and ctx: "get_request_context k settings (in_now inb) (in_authorization inb) = Inr ctx"
    and t: "tenant_from_context_or_request ctx (sub_tenant_id payload) = Inr t"
    and req: "to_evaluation_request payload t = Inr req" and fit: "request_fits fits req"
    and ans: "service_app fw fa k settings ops fresh inb (post, st) = (Inr r1, x1, st1)"
    and ok: "http_status r1 = 202"
  shows "\<exists>job. job_id job = in_uuid4 inb \<and> request job = req \<and> tenant_id job = t \<and> claimable job \<and>
    invar (repository (app_world st1)) \<and>
    view (repository (app_world st1)) (in_uuid4 inb) = Some job \<and>
    serves_submission (in_uuid4 inb) r1 \<and>
    queue (app_world st1) = (queue (app_world st))\<lparr>queue_items := queue_items (queue (app_world st)) @ [Some (in_uuid4 inb)],
      queue_unfinished := queue_unfinished (queue (app_world st)) + 1\<rparr>"
proof -
  define sc' where "sc' = (inner_scope fresh post)\<lparr>sc_route := Some ''/v1/evaluations''\<rparr>"
  let ?st = "snd (read_perf st)"
  have f: "find_route fa included_routes (sc_method post) (sc_path post) =
      Some ((''POST'', ''/v1/evaluations'', SubmitEvaluation), [])"
    using fastapi_laws.route_submit [OF laws] post by simp
  have rid: "sc_request_id sc' = Some (request_id_of fresh post)" by (simp add: sc'_def inner_scope_def)
  have m: "sc_method post \<noteq> ''OPTIONS''" by (simp add: post)
  obtain out sc1 st' where h: "run_handler fa k settings ops inb SubmitEvaluation [] (sc', ?st) = (out, sc1, st')"
    by (cases "run_handler fa k settings ops inb SubmitEvaluation [] (sc', ?st)") auto
  from service_answer [OF assms(1) m f sc'_def h] ans
  have s: "http_status r1 = http_status (outcome_response (Some (request_id_of fresh post)) out)" "core st1 = core st'"
    "http_body r1 = http_body (outcome_response (Some (request_id_of fresh post)) out)"
    by auto
  obtain r st0 where adm: "admit settings (handler_request sc' inb) ''submit_evaluation''
      (rate_limit_submit_per_minute settings) ctx (sub_tenant_id payload) ?st = (r, st0)"
    by (cases "admit settings (handler_request sc' inb) ''submit_evaluation''
      (rate_limit_submit_per_minute settings) ctx (sub_tenant_id payload) ?st") auto
  have "r = Inr t"
  proof (cases r)
    case (Inl e)
    with h args ctx adm have "out = Inl e" by (simp add: with_arguments_def respond_def submit_evaluation_def)
    with s(1) ok handle_exception_status [of "Some (request_id_of fresh post)" e] show ?thesis
      by (auto simp: outcome_response_def response_of_def)
  next
    case (Inr u)
    with admit_resolved adm t show ?thesis by fastforce
  qed
  with submit_route [OF _ _ args ctx _ req fit rid, of ?st st0 fa "[]"] adm inv new h
  show ?thesis
    by (auto simp: core_world(1,2) [OF s(2)] core_world(1,2) [OF core_read_perf] s(3) outcome_response_def json_answer_def
        serves_submission_def submit_response_json_def)
qed

lemma poll_result:
  assumes "starlette fw" and laws: "fastapi_laws fa" and inv: "invar (repository (app_world st))"
    and v: "view (repository (app_world st)) i = Some j"
    and get: "sc_method get = ''GET''" "sc_path get = job_path i"
    and ctx: "get_request_context k settings (in_now inb) (in_authorization inb) = Inr ctx"
    and q: "query_text inb ''tenant_id'' = Some q"
    and t: "tenant_from_context_or_request ctx q = Inr (tenant_id j)"
    and ok: "valid_result_opt (result j)" and fit: "fits (tenant_id j)"
  shows "\<exists>r x. service_app fw fa k settings ops fresh inb (get, st) = (Inr r, x) \<and>
    (http_status r = 429 \<or> http_status r = 200 \<and>
      (\<exists>resp. to_response j (request_id_of fresh get) = Inr resp \<and> jr_job_id resp = i \<and>
         http_body r = job_response_json fa resp))"
proof -
  define sc' where "sc' = (inner_scope fresh get)\<lparr>sc_route := Some ''/v1/evaluations/{job_id}''\<rparr>"
  have f: "find_route fa included_routes (sc_method get) (sc_path get) =
      Some ((''GET'', ''/v1/evaluations/{job_id}'', GetEvaluation), [(''job_id'', uuid_str i)])"
    using fastapi_laws.route_job [OF laws] get by simp
  have rid: "sc_request_id sc' = Some (request_id_of fresh get)" by (simp add: sc'_def inner_scope_def)
  have m: "sc_method get \<noteq> ''OPTIONS''" by (simp add: get)
  have args: "job_args fa [(''job_id'', uuid_str i)] inb = Some (i, q)"
    using q by (simp add: job_args_def fastapi_laws.uuid_law [OF laws])
  let ?h = "run_handler fa k settings ops inb GetEvaluation [(''job_id'', uuid_str i)] (sc', snd (read_perf st))"
  from poll_route [OF _ _ args ctx t ok fit rid, of "snd (read_perf st)"] inv v
  have "fst ?h = Inl (App RateLimitExceededError None) \<or>
      (\<exists>resp. to_response j (request_id_of fresh get) = Inr resp \<and>
        fst ?h = Inr (json_answer 200 (job_response_json fa resp)))" by simp
  moreover have "to_response j rid = Inr resp \<Longrightarrow> jr_job_id resp = i" for rid resp
    using view_key [OF inv v] by (auto simp: to_response_def split: if_splits)
  ultimately show ?thesis
    using service_answer_only [OF assms(1) m f sc'_def refl, of k settings "ops" inb st]
    by (auto simp: outcome_response_def json_answer_def response_of_def error_response_def)
qed

lemma poll_succeeded:
  assumes "starlette fw" and "fastapi_laws fa" and "invar (repository (app_world st))"
    and "view (repository (app_world st)) i = Some j" and "sc_method get = ''GET''" and "sc_path get = job_path i"
    and "get_request_context k settings (in_now inb) (in_authorization inb) = Inr ctx"
    and "query_text inb ''tenant_id'' = Some q" and "tenant_from_context_or_request ctx q = Inr (tenant_id j)"
    and j: "status j = SUCCEEDED" "result j = Some res" and "valid_EvaluationResult res" and "fits (tenant_id j)"
  shows "\<exists>r x. service_app fw fa k settings ops fresh inb (get, st) = (Inr r, x) \<and>
    (http_status r = 429 \<or> serves_result i (tenant_id j) res r)"
proof -
  have "to_response j rid = Inr resp \<Longrightarrow> jr_tenant_id resp = tenant_id j \<and> jr_status resp = SUCCEEDED \<and>
      jr_result resp = Some res" for rid resp
    using j by (auto simp: to_response_def split: if_splits)
  then have "to_response j rid = Inr resp \<Longrightarrow> jr_job_id resp = i \<Longrightarrow> http_status r = 200 \<Longrightarrow>
      http_body r = job_response_json fa resp \<Longrightarrow> serves_result i (tenant_id j) res r" for rid resp r
    by (fastforce simp: serves_result_def job_response_json_def json_opt_def dump_result_def)
  with poll_result [OF assms(1-9), of fresh] assms(11-13) show ?thesis
    unfolding valid_result_opt_def by fastforce
qed

end

text \<open>What the service, the worker and the handlers show of every repository that meets the contract,
  for the in-memory one.\<close>

interpretation memory: evaluation_worker mem_ops mem_view mem_inv any_text "\<lambda>ca. ca"
  by unfold_locales

interpretation memory_api: evaluation_api mem_ops mem_view mem_inv any_text "\<lambda>ca. ca"
  by unfold_locales

subsection \<open>Effects on the store\<close>

lemma admit_jobs:
  assumes "admit settings rq name limit ctx tenant st = (r, st1)"
  shows "repository (app_world st1) = repository (app_world st)" and "queue (app_world st1) = queue (app_world st)"
    and "audit_events (app_world st1) = audit_events (app_world st)"
  using admit_world [OF assms] by simp_all

lemma mem_submit:
  assumes "valid_EvaluationRequest req"
  shows "\<exists>job w'. submit mem_ops i req w = (Inr job, w') \<and> fresh_job job \<and> job_id job = i \<and> request job = req \<and>
      mem_view (repository w') = (mem_view (repository w))(i \<mapsto> job) \<and>
      queue_items (queue w') = queue_items (queue w) @ [Some i] \<and>
      events_of i w' = events_of i w @ [''evaluation.job_queued'']"
  using new_EvaluationJob_fresh [OF assms, of i "wall w"]
  by (simp add: submit_def new_EvaluationJob_def now_eq Let_def mem_create_def view_simps events_of_def)

text \<open>Whatever a handler other than the submission does, it leaves the service's world alone.\<close>

lemma read_handlers_world:
  assumes "run_handler fa k settings R inb name params (sc, st) = (out, sc1, st1)" and "name \<noteq> SubmitEvaluation"
  shows "app_world st1 = app_world st"
  using assms
  by (cases name)
    (auto simp: with_arguments_def respond_def Let_def list_evaluations_def get_evaluation_def
      get_evaluation_details_def split: option.splits sum.splits prod.splits if_splits dest: admit_world)

lemma read_handlers_status:
  assumes "run_handler fa k settings R inb name params (sc, st) = (out, sc1, st1)" and "name \<noteq> SubmitEvaluation"
  shows "http_status (outcome_response rid out) \<noteq> 202"
proof -
  have e: "resp_status_code (handle_exception rid e) \<noteq> 202" for e
    using handle_exception_status [of rid e] by auto
  show ?thesis using assms e
    by (cases name)
      (auto simp: with_arguments_def respond_def Let_def outcome_response_def response_of_def json_answer_def
        plain_text_answer_def live_def ready_def
        split: option.splits sum.splits prod.splits if_splits)
qed

lemma submit_handler_effect:
  assumes h: "run_handler fa k settings mem_ops inb SubmitEvaluation params (sc, st) = (out, sc1, st1)"
    and rid: "sc_request_id sc = Some rid"
  shows "if http_status (outcome_response (Some rid) out) = 202
    then \<exists>job. fresh_job job \<and> job_id job = in_uuid4 inb \<and>
      mem_view (repository (app_world st1)) = (mem_view (repository (app_world st)))(in_uuid4 inb \<mapsto> job) \<and>
      queue_items (queue (app_world st1)) = queue_items (queue (app_world st)) @ [Some (in_uuid4 inb)]
    else repository (app_world st1) = repository (app_world st) \<and> queue (app_world st1) = queue (app_world st) \<and>
      audit_events (app_world st1) = audit_events (app_world st)"
proof (cases "\<exists>payload ctx resolved st0 req. submit_args inb = Some payload \<and>
    get_request_context k settings (in_now inb) (in_authorization inb) = Inr ctx \<and>
    admit settings (handler_request sc inb) ''submit_evaluation'' (rate_limit_submit_per_minute settings) ctx
      (sub_tenant_id payload) st = (Inr resolved, st0) \<and> to_evaluation_request payload resolved = Inr req")
  case True
  then obtain payload ctx resolved st0 req where a: "submit_args inb = Some payload"
    "get_request_context k settings (in_now inb) (in_authorization inb) = Inr ctx"
    "admit settings (handler_request sc inb) ''submit_evaluation'' (rate_limit_submit_per_minute settings) ctx
      (sub_tenant_id payload) st = (Inr resolved, st0)" "to_evaluation_request payload resolved = Inr req"
    by blast
  from mem_submit [OF to_evaluation_request_Inr(1) [OF a(4)], of "in_uuid4 inb" "app_world st0"] obtain job w' where
    s: "submit mem_ops (in_uuid4 inb) req (app_world st0) = (Inr job, w')" "fresh_job job" "job_id job = in_uuid4 inb"
      "mem_view (repository w') = (mem_view (repository (app_world st0)))(in_uuid4 inb \<mapsto> job)"
      "queue_items (queue w') = queue_items (queue (app_world st0)) @ [Some (in_uuid4 inb)]" by blast
  with h a rid have "out = Inr (json_answer 202 (submit_response_json \<lparr>sr_job_id = job_id job,
      sr_status = status job, sr_request_id = rid\<rparr>))" "st1 = st0\<lparr>app_world := w'\<rparr>"
    by (auto simp: with_arguments_def respond_def submit_evaluation_def handler_request_def)
  with s admit_jobs [OF a(3)] show ?thesis by (auto simp: outcome_response_def json_answer_def)
next
  case False
  have e: "resp_status_code (handle_exception (Some rid) e) \<noteq> 202" for e
    using handle_exception_status [of "Some rid" e] by auto
  have "app_world st1 = app_world st \<and> http_status (outcome_response (Some rid) out) \<noteq> 202"
    using h False e
    by (auto simp: with_arguments_def respond_def submit_evaluation_def Let_def outcome_response_def
        json_answer_def response_of_def split: option.splits sum.splits prod.splits if_splits dest: admit_world)
  then show ?thesis by simp
qed

lemma handler_effect:
  assumes h: "run_handler fa k settings mem_ops inb name params (sc, st) = (out, sc1, st1)"
    and rid: "sc_request_id sc = Some rid"
  shows "if http_status (outcome_response (Some rid) out) = 202
    then \<exists>job. fresh_job job \<and> job_id job = in_uuid4 inb \<and>
      mem_view (repository (app_world st1)) = (mem_view (repository (app_world st)))(in_uuid4 inb \<mapsto> job) \<and>
      queue_items (queue (app_world st1)) = queue_items (queue (app_world st)) @ [Some (in_uuid4 inb)]
    else repository (app_world st1) = repository (app_world st) \<and> queue (app_world st1) = queue (app_world st) \<and>
      audit_events (app_world st1) = audit_events (app_world st)"
proof (cases "name = SubmitEvaluation")
  case True
  with submit_handler_effect [OF h [unfolded True] rid] show ?thesis by simp
next
  case False
  from read_handlers_world [OF h False] read_handlers_status [OF h False, of "Some rid"] show ?thesis by simp
qed

text \<open>C3. Only an accepted submission changes what the service keeps: whatever request is sent to
  any of the routes, it is answered, and if the answer is 202 the store has exactly one more job,
  fresh and under the new identifier, whose identifier is last in the queue; with every other
  status, errors included, the stored jobs, the queue and the audit trail are as before.\<close>

theorem http_only_accepted_submissions_store:
  assumes "starlette fw" and "sc_method sc \<noteq> ''OPTIONS''"
    and "find_route fa included_routes (sc_method sc) (sc_path sc) = Some (route, params)"
  shows "\<exists>resp sc2 st2. service_app fw fa k settings mem_ops fresh inb (sc, st) = (Inr resp, sc2, st2) \<and>
    (if http_status resp = 202
     then \<exists>job. fresh_job job \<and> job_id job = in_uuid4 inb \<and>
       mem_view (repository (app_world st2)) = (mem_view (repository (app_world st)))(in_uuid4 inb \<mapsto> job) \<and>
       queue_items (queue (app_world st2)) = queue_items (queue (app_world st)) @ [Some (in_uuid4 inb)]
     else repository (app_world st2) = repository (app_world st) \<and> queue (app_world st2) = queue (app_world st) \<and>
       audit_events (app_world st2) = audit_events (app_world st))"
proof -
  obtain rm path name where route: "route = (rm, path, name)" by (cases route)
  define sc' where "sc' = (inner_scope fresh sc)\<lparr>sc_route := Some path\<rparr>"
  obtain out sc1 st1 where h: "run_handler fa k settings mem_ops inb name params (sc', snd (read_perf st)) = (out, sc1, st1)"
    by (cases "run_handler fa k settings mem_ops inb name params (sc', snd (read_perf st))") auto
  have rid: "sc_request_id sc' = Some (request_id_of fresh sc)" by (simp add: sc'_def inner_scope_def)
  from service_answer [OF assms(1,2) assms(3) [unfolded route] sc'_def h] obtain resp sc2 st2 where
    s: "service_app fw fa k settings mem_ops fresh inb (sc, st) = (Inr resp, sc2, st2)"
      "http_status resp = http_status (outcome_response (Some (request_id_of fresh sc)) out)" "core st2 = core st1"
    by blast
  with handler_effect [OF h rid] core_world [OF s(3)] show ?thesis
    by (simp split: if_splits)
qed

text \<open>A process that has just started, on the repository \<open>s\<close>, and a first submission to it.\<close>

definition fresh_app :: "'s \<Rightarrow> 's app_state" where
  "fresh_app s = \<lparr>app_world = world_init s (\<lambda>n. int n) (\<lambda>n. of_nat n), rate_limiter = limiter_init,
     monotonic = (\<lambda>n. of_nat n)\<rparr>"

lemma fresh_app_repository [simp]: "repository (app_world (fresh_app s)) = s"
  by (simp add: fresh_app_def world_init_def)

lemma demo_app_fresh: "demo_app = fresh_app mem_init"
  by (simp add: demo_app_def fresh_app_def)

definition demo_inbound :: inbound where
  "demo_inbound =
     \<lparr>in_query = [], in_body = Some (JObj [(''tenant_id'', JStr ''acme''), (''project_id'', JStr ''docs''),
        (''question'', JStr ''What is caching?''), (''answer'', JStr ''Caching keeps results.'')]),
      in_authorization = None, in_client = demo_client ''10.0.0.1'', in_now = 0, in_uuid4 = 5\<rparr>"

definition post_scope :: scope where
  "post_scope = demo_scope\<lparr>sc_method := ''POST'', sc_path := ''/v1/evaluations''\<rparr>"

lemma demo_request_accepted:
  "to_evaluation_request \<lparr>sub_tenant_id = Some ''acme'', sub_project_id = ''docs'', sub_question = ''What is caching?'',
     sub_answer = ''Caching keeps results.'', sub_rubric = None\<rparr> ''acme'' = Inr demo_request"
  using demo_request_valid by (simp add: to_evaluation_request_def make_EvaluationRequest_def demo_request_def)

lemma demo_submit_args:
  "submit_args demo_inbound = Some \<lparr>sub_tenant_id = Some ''acme'', sub_project_id = ''docs'',
     sub_question = ''What is caching?'', sub_answer = ''Caching keeps results.'', sub_rubric = None\<rparr>"
  by (simp add: submit_args_def demo_inbound_def load_submission_def optional_text_field_def text_field_def
      len_between_def)

lemma demo_context: "get_request_context (demo_codec JNull) default_settings t a = Inr None"
  by (simp add: get_request_context_def default_settings_def)

lemma post_scope_simps [simp]: "sc_method post_scope = ''POST''" "sc_path post_scope = ''/v1/evaluations''"
  by (simp_all add: post_scope_def)

lemma post_scope_route:
  "find_route plain_fastapi included_routes (sc_method post_scope) (sc_path post_scope) =
     Some ((''POST'', ''/v1/evaluations'', SubmitEvaluation), [])"
  using plain_api.route_submit by simp

context evaluation_api
begin

lemma demo_post_accepted:
  assumes "invar (repository (app_world st))" and "view (repository (app_world st)) 5 = None"
    and "rate_limiter st = limiter_init"
  shows "\<exists>resp x. service_app plain_framework plain_fastapi (demo_codec JNull) default_settings ops ''fresh'' demo_inbound
     (post_scope, st) = (Inr resp, x) \<and> http_status resp = 202"
proof -
  let ?sc = "(inner_scope ''fresh'' post_scope)\<lparr>sc_route := Some ''/v1/evaluations''\<rparr>"
  let ?st = "snd (read_perf st)"
  let ?h = "run_handler plain_fastapi (demo_codec JNull) default_settings ops demo_inbound SubmitEvaluation [] (?sc, ?st)"
  have m: "sc_method post_scope \<noteq> ''OPTIONS''" by simp
  have "rate_limiter ?st = limiter_init"
    using core_world(5) [OF core_read_perf [of st]] assms(3) by simp
  then obtain st0 where adm: "admit default_settings (handler_request ?sc demo_inbound) ''submit_evaluation''
      (rate_limit_submit_per_minute default_settings) None
      (sub_tenant_id \<lparr>sub_tenant_id = Some ''acme'', sub_project_id = ''docs'',
        sub_question = ''What is caching?'', sub_answer = ''Caching keeps results.'', sub_rubric = None\<rparr>) ?st =
      (Inr ''acme'', st0)"
    using admit_new_client [where ctx = None and tenant = "Some ''acme''" and t = "''acme''" and
        st = ?st and rq = "handler_request ?sc demo_inbound"]
    by (fastforce simp: tenant_from_context_or_request_def limiter_init_def)
  have rid: "sc_request_id ?sc = Some (request_id_of ''fresh'' post_scope)" by (simp add: inner_scope_def)
  have fit: "request_fits fits demo_request"
    by (simp add: request_fits_def demo_request_def fits_plain)
  have "in_uuid4 demo_inbound = 5" by (simp add: demo_inbound_def)
  with submit_route [OF _ _ demo_submit_args demo_context adm demo_request_accepted fit rid, of plain_fastapi "[]"] assms(1,2) core_world(1) [OF core_read_perf [of st]]
  have "http_status (outcome_response rid (fst ?h)) = 202" for rid
    by (auto simp: outcome_response_def json_answer_def)
  with service_answer [OF plain.starlette_axioms m post_scope_route refl, of "demo_codec JNull" default_settings ops
      demo_inbound "''fresh''" st "fst ?h" "fst (snd ?h)" "snd (snd ?h)"] show ?thesis by fastforce
qed

lemma demo_post_status:
  assumes "invar s" and "view s 5 = None"
  shows "\<exists>resp x. service_app plain_framework plain_fastapi (demo_codec JNull) default_settings ops ''fresh'' demo_inbound
     (post_scope, fresh_app s) = (Inr resp, x) \<and> http_status resp = 202"
  using assms by (intro demo_post_accepted) (simp_all add: fresh_app_def world_init_def)

end

theorem http_only_accepted_submissions_store_witness:
  "\<exists>resp sc2 st2 job. service_app plain_framework plain_fastapi (demo_codec JNull) default_settings mem_ops ''fresh''
      demo_inbound (post_scope, demo_app) = (Inr resp, sc2, st2) \<and> http_status resp = 202 \<and> fresh_job job \<and>
    mem_view (repository (app_world st2)) = [5 \<mapsto> job]"
proof -
  have m: "sc_method post_scope \<noteq> ''OPTIONS''" by simp
  have i: "in_uuid4 demo_inbound = 5" "mem_view (repository (app_world demo_app)) = Map.empty"
    by (simp_all add: demo_inbound_def demo_app_fresh)
  from http_only_accepted_submissions_store [OF plain.starlette_axioms m post_scope_route,
      of "demo_codec JNull" default_settings "''fresh''" demo_inbound demo_app]
    memory_api.demo_post_status [of mem_init] i
  show ?thesis by (auto simp: demo_app_fresh split: if_splits)
qed

subsection \<open>Every request is answered without an internal error\<close>

lemma get_request_context_error:
  assumes "get_request_context k settings t a = Inl e"
  shows "resp_status_code (handle_exception rid e) = 401"
proof -
  have "auth_enabled settings" using assms by (cases "auth_enabled settings") (simp_all add: get_request_context_def)
  with request_context_guard [where settings = settings and k = k and t = t and authorization = a and rid = rid] assms show ?thesis by simp
qed

lemma get_request_context_tenant:
  assumes "get_request_context k settings t a = Inr (Some ctx)"
  shows "ctx_tenant_id ctx \<noteq> []"
proof -
  have "\<exists>token. validate_demo_jwt k settings t token = Inr ctx"
    using assms by (auto simp: get_request_context_def map_sum_Inr split: if_splits option.splits prod.splits)
  moreover have "required_string pl cl = Inr s \<Longrightarrow> s \<noteq> []" for pl cl s
    by (auto simp: required_string_def split: option.splits json.splits if_splits)
  ultimately show ?thesis
    by (fastforce simp: validate_demo_jwt_def split: sum.splits if_splits)
qed

lemma text_field_bounds: "text_field lo hi d key = Some s \<Longrightarrow> len_between lo hi s"
  by (auto simp: text_field_def split: option.splits json.splits if_splits)

lemma optional_text_field_bounds:
  "optional_text_field lo hi d key = Some x \<Longrightarrow> (case x of None \<Rightarrow> True | Some s \<Rightarrow> len_between lo hi s)"
  by (auto simp: optional_text_field_def split: option.splits json.splits if_splits)

lemma submit_args_valid:
  assumes "submit_args inb = Some payload"
  shows "valid_SubmitEvaluationRequest payload"
proof -
  from assms obtain body where body: "load_submission body = Some payload"
    by (auto simp: submit_args_def bind_eq_Some_conv)
  then obtain d where "load_submission (JObj d) = Some payload"
    by (cases body) (simp_all add: load_submission_def)
  then obtain tenant project question answer rubric where
    "optional_text_field 1 128 d ''tenant_id'' = Some tenant" "text_field 1 128 d ''project_id'' = Some project"
    "text_field 1 10000 d ''question'' = Some question" "text_field 1 20000 d ''answer'' = Some answer"
    "optional_text_field 0 10000 d ''rubric'' = Some rubric"
    "payload = \<lparr>sub_tenant_id = tenant, sub_project_id = project, sub_question = question,
        sub_answer = answer, sub_rubric = rubric\<rparr>"
    unfolding load_submission_def json.case bind_eq_Some_conv by blast
  then show ?thesis
    by (simp add: valid_SubmitEvaluationRequest_def text_field_bounds optional_text_field_bounds)
qed

lemma admit_error_status:
  "admit settings rq name limit ctx tenant st = (Inl e, st1) \<Longrightarrow>
     resp_status_code (handle_exception rid e) \<in> {400, 429}"
  using admit_error by (fastforce simp: error_response_def)

text \<open>No token with a tenant longer than a request's tenant may be.\<close>

definition short_tenant :: "jwt_codec \<Rightarrow> Settings \<Rightarrow> inbound \<Rightarrow> bool" where
  "short_tenant k settings inb =
     (case get_request_context k settings (in_now inb) (in_authorization inb) of
        Inr (Some ctx) \<Rightarrow> length (ctx_tenant_id ctx) \<le> 128
      | _ \<Rightarrow> True)"

lemma resolved_tenant_length:
  assumes "short_tenant k settings inb" and "valid_SubmitEvaluationRequest payload"
    and "get_request_context k settings (in_now inb) (in_authorization inb) = Inr ctx"
    and "tenant_from_context_or_request ctx (sub_tenant_id payload) = Inr resolved"
  shows "len_between 1 128 resolved"
proof (cases ctx)
  case None
  with assms(2,4) show ?thesis
    by (auto simp: tenant_from_context_or_request_def valid_SubmitEvaluationRequest_def split: option.splits)
next
  case (Some c)
  with assms(1,3,4) get_request_context_tenant [of k settings "in_now inb" "in_authorization inb" c] show ?thesis
    by (auto simp: short_tenant_def tenant_from_context_or_request_def len_between_def Suc_le_eq)
qed

definition answer_codes :: "int set" where
  "answer_codes = {200, 202, 400, 401, 404, 422, 429}"

lemma with_arguments_status:
  assumes h: "with_arguments fa k settings inb args handler (sc, st) = (out, sc1, st1)"
    and ok: "\<And>a ctx. args = Some a \<Longrightarrow>
      get_request_context k settings (in_now inb) (in_authorization inb) = Inr ctx \<Longrightarrow>
      http_status (outcome_response rid (fst (handler a ctx (sc, st)))) \<in> answer_codes"
  shows "http_status (outcome_response rid out) \<in> answer_codes"
proof (cases "\<exists>a ctx. args = Some a \<and>
    get_request_context k settings (in_now inb) (in_authorization inb) = Inr ctx")
  case True
  then obtain a ctx where a: "args = Some a"
    "get_request_context k settings (in_now inb) (in_authorization inb) = Inr ctx" by blast
  with h have "handler a ctx (sc, st) = (out, sc1, st1)" by (simp add: with_arguments_def)
  with ok [OF a] show ?thesis by simp
next
  case False
  with h get_request_context_error [of k settings "in_now inb" "in_authorization inb" _ rid] show ?thesis
    by (auto simp: with_arguments_def Let_def outcome_response_def json_answer_def response_of_def answer_codes_def
        split: option.splits sum.splits if_splits)
qed

lemma respond_status:
  assumes "sc_request_id sc = Some rid" and "code \<in> answer_codes"
    and "\<And>e. fst x = Inl e \<Longrightarrow> resp_status_code (handle_exception (Some rid) e) \<in> answer_codes"
  shows "http_status (outcome_response (Some rid) (fst (respond code f sc x))) \<in> answer_codes"
  using assms
  by (cases x; cases "fst x") (auto simp: respond_def outcome_response_def json_answer_def response_of_def)

lemma not_found_status: "resp_status_code (handle_exception rid raise_NotFound) \<in> answer_codes"
  by (simp add: error_response_def answer_codes_def)

lemma admit_error_code:
  "admit settings rq name limit ctx tenant st = (Inl e, st1) \<Longrightarrow>
     resp_status_code (handle_exception rid e) \<in> answer_codes"
  using admit_error_status [of settings rq name limit ctx tenant st e st1 rid] by (auto simp: answer_codes_def)

lemma submit_error_code:
  assumes "short_tenant k settings inb" and "submit_args inb = Some payload"
    and "get_request_context k settings (in_now inb) (in_authorization inb) = Inr ctx"
    and "fst (submit_evaluation mem_ops settings new_id payload rq ctx st) = Inl e"
  shows "resp_status_code (handle_exception rid e) \<in> answer_codes"
proof (cases "admit settings rq ''submit_evaluation'' (rate_limit_submit_per_minute settings) ctx
    (sub_tenant_id payload) st")
  case (Pair r st1)
  show ?thesis
  proof (cases r)
    case (Inl e')
    with Pair assms(4) admit_error_code show ?thesis by (auto simp: submit_evaluation_def)
  next
    case (Inr resolved)
    have v: "valid_SubmitEvaluationRequest payload" using submit_args_valid [OF assms(2)] .
    have "tenant_from_context_or_request ctx (sub_tenant_id payload) = Inr resolved"
      using admit_resolved Pair Inr by blast
    from resolved_tenant_length [OF assms(1) v assms(3) this] v
    obtain req where req: "to_evaluation_request payload resolved = Inr req"
      by (auto simp: to_evaluation_request_def make_EvaluationRequest_def valid_EvaluationRequest_def
          valid_SubmitEvaluationRequest_def)
    from mem_submit [OF to_evaluation_request_Inr(1) [OF req], of new_id "app_world st1"] obtain job w' where
      "submit mem_ops new_id req (app_world st1) = (Inr job, w')" by blast
    with Pair Inr req assms(4) have False by (simp add: submit_evaluation_def)
    then show ?thesis ..
  qed
qed

lemma get_error_code:
  assumes inv: "mem_inv (repository (app_world st))" and wf: "wf_store (mem_view (repository (app_world st)))"
  shows "fst (get_evaluation mem_ops settings i rq tenant ctx st) = Inl e \<Longrightarrow>
      resp_status_code (handle_exception rid e) \<in> answer_codes"
    and "fst (get_evaluation_details mem_ops settings i rq tenant ctx st) = Inl e \<Longrightarrow>
      resp_status_code (handle_exception rid e) \<in> answer_codes"
proof -
  have job: "service_get_for_tenant mem_ops i resolved (app_world st1) = Inl raise_NotFound \<or>
      (\<exists>j. service_get_for_tenant mem_ops i resolved (app_world st1) = Inr j \<and> wf_job j)"
    if "app_world st1 = app_world st" for resolved and st1 :: "InMemoryJobRepository app_state"
    using wf that by (auto simp: service_get_for_tenant_def mem_get_for_tenant_conv wf_store_def split: option.splits)
  show "resp_status_code (handle_exception rid e) \<in> answer_codes"
    if g: "fst (get_evaluation mem_ops settings i rq tenant ctx st) = Inl e"
  proof (cases "admit settings rq ''get_evaluation'' (rate_limit_read_per_minute settings) ctx tenant st")
    case (Pair r st1)
    show ?thesis
    proof (cases r)
      case (Inl e')
      with Pair g admit_error_code show ?thesis by (auto simp: get_evaluation_def)
    next
      case (Inr resolved)
      from job [OF admit_world [OF Pair], of resolved] show ?thesis
      proof
        assume "service_get_for_tenant mem_ops i resolved (app_world st1) = Inl raise_NotFound"
        with Pair Inr g have "e = raise_NotFound" by (simp add: get_evaluation_def)
        then show ?thesis using not_found_status by simp
      next
        assume "\<exists>j. service_get_for_tenant mem_ops i resolved (app_world st1) = Inr j \<and> wf_job j"
        then obtain j where j: "service_get_for_tenant mem_ops i resolved (app_world st1) = Inr j" "wf_job j" by blast
        from wf_job_responses(1) [OF j(2), of "rr_request_id rq"] j(1) Pair Inr g have False
          by (auto simp: get_evaluation_def)
        then show ?thesis ..
      qed
    qed
  qed
  show "resp_status_code (handle_exception rid e) \<in> answer_codes"
    if g: "fst (get_evaluation_details mem_ops settings i rq tenant ctx st) = Inl e"
  proof (cases "admit settings rq ''get_evaluation_details'' (rate_limit_read_per_minute settings) ctx tenant st")
    case (Pair r st1)
    show ?thesis
    proof (cases r)
      case (Inl e')
      with Pair g admit_error_code show ?thesis by (auto simp: get_evaluation_details_def)
    next
      case (Inr resolved)
      from job [OF admit_world [OF Pair], of resolved] show ?thesis
      proof
        assume "service_get_for_tenant mem_ops i resolved (app_world st1) = Inl raise_NotFound"
        with Pair Inr g have "e = raise_NotFound" by (simp add: get_evaluation_details_def)
        then show ?thesis using not_found_status by simp
      next
        assume "\<exists>j. service_get_for_tenant mem_ops i resolved (app_world st1) = Inr j \<and> wf_job j"
        then obtain j where j: "service_get_for_tenant mem_ops i resolved (app_world st1) = Inr j" "wf_job j" by blast
        from wf_job_responses(2) [OF j(2), of "rr_request_id rq"] j(1) Pair Inr g have False
          by (auto simp: get_evaluation_details_def)
        then show ?thesis ..
      qed
    qed
  qed
qed

lemma list_error_code:
  assumes inv: "mem_inv (repository (app_world st))" and wf: "wf_store (mem_view (repository (app_world st)))"
    and g: "fst (list_evaluations mem_ops settings rq tenant project limit ctx st) = Inl e"
  shows "resp_status_code (handle_exception rid e) \<in> answer_codes"
proof (cases "admit settings rq ''list_evaluations'' (rate_limit_list_per_minute settings) ctx tenant st")
  case (Pair r st1)
  show ?thesis
  proof (cases r)
    case (Inl e')
    with Pair g admit_error_code show ?thesis by (auto simp: list_evaluations_def)
  next
    case (Inr resolved)
    let ?jobs = "slice_to limit (sort_key (\<lambda>j. - created_at j)
      (filter (\<lambda>j. tenant_id j = resolved \<and> project_matches project j) (map snd (jobs (repository (app_world st))))))"
    have "\<exists>y. to_summary j = Inr y" if "j \<in> set ?jobs" for j
    proof -
      have "j \<in> set (map snd (jobs (repository (app_world st))))"
        using that slice_to_set [of limit "sort_key (\<lambda>j. - created_at j)
          (filter (\<lambda>j. tenant_id j = resolved \<and> project_matches project j) (map snd (jobs (repository (app_world st)))))"]
        by auto
      then have "mem_view (repository (app_world st)) (job_id j) = Some j" using mem_values [OF inv] by blast
      with wf have "wf_job j" by (auto simp: wf_store_def)
      then show ?thesis by (rule wf_job_responses(3))
    qed
    then obtain ys where "collect (map to_summary ?jobs) = Inr ys" using collect_all [of ?jobs to_summary] by blast
    with Pair Inr g admit_world [OF Pair] have False
      by (simp add: list_evaluations_def service_list_recent_def mem_list_recent_conv)
    then show ?thesis ..
  qed
qed

lemma handler_status:
  assumes inv: "mem_inv (repository (app_world st))" and wf: "wf_store (mem_view (repository (app_world st)))"
    and short: "short_tenant k settings inb" and rid: "sc_request_id sc = Some rid"
    and h: "run_handler fa k settings mem_ops inb name params (sc, st) = (out, sc1, st1)"
  shows "http_status (outcome_response (Some rid) out) \<in> answer_codes"
proof (cases name)
  case SubmitEvaluation
  with h show ?thesis
    by (simp only: run_handler.simps) (erule with_arguments_status, simp only: split_conv,
      rule respond_status [OF rid], simp add: answer_codes_def, erule (2) submit_error_code [OF short])
next
  case ListEvaluations
  with h show ?thesis
    by (simp only: run_handler.simps) (erule with_arguments_status, clarsimp simp only: split_conv,
      rule respond_status [OF rid], simp add: answer_codes_def, erule list_error_code [OF inv wf])
next
  case GetEvaluationDetails
  with h show ?thesis
    by (simp only: run_handler.simps) (erule with_arguments_status, clarsimp simp only: split_conv,
      rule respond_status [OF rid], simp add: answer_codes_def, erule get_error_code(2) [OF inv wf])
next
  case GetEvaluation
  with h show ?thesis
    by (simp only: run_handler.simps) (erule with_arguments_status, clarsimp simp only: split_conv,
      rule respond_status [OF rid], simp add: answer_codes_def, erule get_error_code(1) [OF inv wf])
qed (use h in \<open>auto simp: outcome_response_def response_of_def live_def ready_def mem_health_check_def
      plain_text_answer_def answer_codes_def Let_def\<close>)



subsection \<open>Questions and answers stay on the details route\<close>

definition conceal_job :: "EvaluationJob \<Rightarrow> EvaluationJob" where
  "conceal_job j = j\<lparr>request := (request j)\<lparr>rq_question := [], rq_answer := []\<rparr>\<rparr>"

definition conceal_repo :: "InMemoryJobRepository \<Rightarrow> InMemoryJobRepository" where
  "conceal_repo s = s\<lparr>jobs := map (\<lambda>(i, j). (i, conceal_job j)) (jobs s)\<rparr>"

definition conceal :: "InMemoryJobRepository app_state \<Rightarrow> InMemoryJobRepository app_state" where
  "conceal st = st\<lparr>app_world := (app_world st)\<lparr>repository := conceal_repo (repository (app_world st))\<rparr>\<rparr>"

lemma conceal_job_fields [simp]:
  "job_id (conceal_job j) = job_id j" "tenant_id (conceal_job j) = tenant_id j"
  "project_id (conceal_job j) = project_id j" "created_at (conceal_job j) = created_at j"
  "project_matches p (conceal_job j) = project_matches p j"
  "to_response (conceal_job j) rid = to_response j rid" "to_summary (conceal_job j) = to_summary j"
  by (simp_all add: conceal_job_def project_matches_def to_response_def to_summary_def split: option.split)

lemma conceal_values: "map snd (jobs (conceal_repo s)) = map conceal_job (map snd (jobs s))"
  by (simp add: conceal_repo_def case_prod_beta comp_def)

lemma conceal_view: "mem_view (conceal_repo s) i = map_option conceal_job (mem_view s i)"
proof -
  have "map_of (map (\<lambda>(i, j). (i, conceal_job j)) xs) i = map_option conceal_job (map_of xs i)" for xs
    by (induction xs) auto
  then show ?thesis by (simp add: mem_view_def conceal_repo_def)
qed

lemma conceal_repository [simp]: "repository (app_world (conceal st)) = conceal_repo (repository (app_world st))"
  by (simp add: conceal_def)

lemma conceal_read_perf: "read_perf (conceal st) = map_prod id conceal (read_perf st)"
  by (simp add: read_perf_def perf_counter_def conceal_def)

lemma conceal_check:
  "check_rate_limit settings rq name limit tenant (conceal st) =
     map_prod id conceal (check_rate_limit settings rq name limit tenant st)"
  by (cases "check (client_key (rr_client rq) name tenant) limit (monotonic st 0) (rate_limiter st)")
    (simp add: check_rate_limit_def conceal_def Let_def)

lemma conceal_admit:
  "admit settings rq name limit ctx tenant (conceal st) = map_prod id conceal (admit settings rq name limit ctx tenant st)"
  by (cases "tenant_from_context_or_request ctx tenant")
    (auto simp: admit_def conceal_check split: sum.split prod.split)

lemma conceal_get:
  "service_get_for_tenant mem_ops i tenant (app_world (conceal st)) =
     map_sum id conceal_job (service_get_for_tenant mem_ops i tenant (app_world st))"
  by (simp add: service_get_for_tenant_def mem_get_for_tenant_conv conceal_view split: option.split)

lemma slice_to_map: "slice_to n (map f xs) = map f (slice_to n xs)"
  by (simp add: slice_to_def take_map)

lemma sort_key_conceal: "sort_key (\<lambda>j. - created_at j) (map conceal_job js) =
    map conceal_job (sort_key (\<lambda>j. - created_at j) js)"
proof -
  have "insort_key (\<lambda>j. - created_at j) (conceal_job x) (map conceal_job ys) =
      map conceal_job (insort_key (\<lambda>j. - created_at j) x ys)" for x ys
    by (induction ys) simp_all
  then show ?thesis by (induction js) simp_all
qed

lemma conceal_list:
  "service_list_recent mem_ops tenant project limit (app_world (conceal st)) =
     map_sum id (map conceal_job) (service_list_recent mem_ops tenant project limit (app_world st))"
proof -
  have "filter (\<lambda>j. tenant_id j = tenant \<and> project_matches project j) (map conceal_job js) =
      map conceal_job (filter (\<lambda>j. tenant_id j = tenant \<and> project_matches project j) js)" for js
    by (simp add: filter_map comp_def)
  then show ?thesis
    by (simp only: service_list_recent_def conceal_repository mem_ops_select mem_list_recent_conv conceal_values
        sort_key_conceal slice_to_map map_sum.simps)
qed

lemma conceal_submit:
  "fst (submit mem_ops i req (app_world (conceal st))) = fst (submit mem_ops i req (app_world st))"
  by (simp add: submit_def conceal_def new_EvaluationJob_def now_eq Let_def mem_create_def traced_span_def)

lemma with_arguments_conceal:
  assumes "\<And>a ctx. fst (handler a ctx (sc, conceal st)) = fst (handler a ctx (sc, st))"
  shows "fst (with_arguments fa k settings inb args handler (sc, conceal st)) =
    fst (with_arguments fa k settings inb args handler (sc, st))"
  using assms by (simp add: with_arguments_def Let_def split: option.split sum.split)

lemma respond_fst: "fst x = fst y \<Longrightarrow> fst (respond code f sc x) = fst (respond code f sc y)"
  by (cases x; cases y) (auto simp: respond_def split: sum.split option.split)

lemma conceal_handlers:
  "fst (submit_evaluation mem_ops settings i payload rq ctx (conceal st)) =
     fst (submit_evaluation mem_ops settings i payload rq ctx st)"
  "fst (list_evaluations mem_ops settings rq tenant project limit ctx (conceal st)) =
     fst (list_evaluations mem_ops settings rq tenant project limit ctx st)"
  "fst (get_evaluation mem_ops settings i rq tenant ctx (conceal st)) =
     fst (get_evaluation mem_ops settings i rq tenant ctx st)"
proof -
  show "fst (submit_evaluation mem_ops settings i payload rq ctx (conceal st)) =
      fst (submit_evaluation mem_ops settings i payload rq ctx st)"
  proof (cases "admit settings rq ''submit_evaluation'' (rate_limit_submit_per_minute settings) ctx
      (sub_tenant_id payload) st")
    case (Pair r st1)
    have "fst (case submit mem_ops i req (app_world (conceal st1)) of
          (Inl e, w) \<Rightarrow> (Inl e, (conceal st1)\<lparr>app_world := w\<rparr>)
        | (Inr job, w) \<Rightarrow> (Inr \<lparr>sr_job_id = job_id job, sr_status = status job,
            sr_request_id = rr_request_id rq\<rparr>, (conceal st1)\<lparr>app_world := w\<rparr>)) =
        fst (case submit mem_ops i req (app_world st1) of
          (Inl e, w) \<Rightarrow> (Inl e, st1\<lparr>app_world := w\<rparr>)
        | (Inr job, w) \<Rightarrow> (Inr \<lparr>sr_job_id = job_id job, sr_status = status job,
            sr_request_id = rr_request_id rq\<rparr>, st1\<lparr>app_world := w\<rparr>))" for req
      using conceal_submit [of i req st1] by (auto split: prod.splits sum.splits)
    with Pair show ?thesis by (simp add: submit_evaluation_def conceal_admit split: sum.split)
  qed
  show "fst (list_evaluations mem_ops settings rq tenant project limit ctx (conceal st)) =
      fst (list_evaluations mem_ops settings rq tenant project limit ctx st)"
    by (simp add: list_evaluations_def conceal_admit conceal_list comp_def split: prod.split sum.split)
  show "fst (get_evaluation mem_ops settings i rq tenant ctx (conceal st)) =
      fst (get_evaluation mem_ops settings i rq tenant ctx st)"
    by (simp add: get_evaluation_def conceal_admit conceal_get split: prod.split sum.split)
qed

lemma handler_conceals:
  assumes "name \<noteq> GetEvaluationDetails"
  shows "fst (run_handler fa k settings mem_ops inb name params (sc, conceal st)) =
    fst (run_handler fa k settings mem_ops inb name params (sc, st))"
proof (cases name)
  case SubmitEvaluation
  then show ?thesis
    by (simp only: run_handler.simps)
      (rule with_arguments_conceal, simp only: split_conv, rule respond_fst, rule conceal_handlers)
next
  case ListEvaluations
  then show ?thesis
    by (simp only: run_handler.simps)
      (rule with_arguments_conceal, clarsimp simp only: split_conv, rule respond_fst, rule conceal_handlers)
next
  case GetEvaluation
  then show ?thesis
    by (simp only: run_handler.simps)
      (rule with_arguments_conceal, clarsimp simp only: split_conv, rule respond_fst, rule conceal_handlers)
qed (use assms in \<open>simp_all add: conceal_def get_metrics_def ready_def mem_health_check_def\<close>)

text \<open>C13. No route but the details route reveals a question or an answer: two states that differ
  only in the questions and answers of their stored jobs give every request to any other route,
  whoever sends it, the same status and the same body.\<close>

theorem http_conceals_content:
  assumes "starlette fw" and "sc_method sc \<noteq> ''OPTIONS''"
    and "find_route fa included_routes (sc_method sc) (sc_path sc) = Some ((rm, path, name), params)"
    and "name \<noteq> GetEvaluationDetails" and "conceal st = conceal st'"
  shows "\<exists>r r' x x'. service_app fw fa k settings mem_ops fresh inb (sc, st) = (Inr r, x) \<and>
    service_app fw fa k settings mem_ops fresh inb (sc, st') = (Inr r', x') \<and>
    http_status r = http_status r' \<and> http_body r = http_body r'"
proof -
  define sc1 where "sc1 = (inner_scope fresh sc)\<lparr>sc_route := Some path\<rparr>"
  let ?h = "\<lambda>st. run_handler fa k settings mem_ops inb name params (sc1, snd (read_perf st))"
  have "fst (?h st) = fst (?h (conceal st))" for st
    using handler_conceals [OF assms(4), of fa k settings inb params sc1 "snd (read_perf st)"]
    by (simp add: conceal_read_perf)
  then have eq: "fst (?h st) = fst (?h st')" using assms(5) by metis
  have "\<exists>r x. service_app fw fa k settings mem_ops fresh inb (sc, st) = (Inr r, x) \<and>
      http_status r = http_status (outcome_response (Some (request_id_of fresh sc)) (fst (?h st))) \<and>
      http_body r = http_body (outcome_response (Some (request_id_of fresh sc)) (fst (?h st)))" for st
    using service_answer [OF assms(1-3) sc1_def, of k settings mem_ops inb st "fst (?h st)" "fst (snd (?h st))"
        "snd (snd (?h st))"] by fastforce
  from this [of st] this [of st'] eq show ?thesis by metis
qed

definition secret_job :: "string \<Rightarrow> EvaluationJob" where
  "secret_job text = (demo_job 1 20)\<lparr>request := demo_request\<lparr>rq_answer := text\<rparr>\<rparr>"

definition secret_app :: "string \<Rightarrow> InMemoryJobRepository app_state" where
  "secret_app text = demo_app\<lparr>app_world := (app_world demo_app)\<lparr>repository := \<lparr>jobs = [(1, secret_job text)]\<rparr>\<rparr>\<rparr>"

definition job_scope :: "uuid \<Rightarrow> scope" where
  "job_scope i = demo_scope\<lparr>sc_path := job_path i\<rparr>"

theorem http_conceals_content_witness:
  "\<exists>r r' x x'. service_app plain_framework plain_fastapi (demo_codec JNull) default_settings mem_ops ''fresh''
      (demo_inbound\<lparr>in_query := [(''tenant_id'', ''acme'')]\<rparr>) (job_scope 1, secret_app ''alpha'') = (Inr r, x) \<and>
    service_app plain_framework plain_fastapi (demo_codec JNull) default_settings mem_ops ''fresh''
      (demo_inbound\<lparr>in_query := [(''tenant_id'', ''acme'')]\<rparr>) (job_scope 1, secret_app ''beta'') = (Inr r', x') \<and>
    http_status r = http_status r' \<and> http_body r = http_body r'"
proof -
  have m: "sc_method (job_scope 1) = ''GET''" "sc_path (job_scope 1) = job_path 1"
    by (simp_all add: job_scope_def demo_scope_def)
  have c: "conceal (secret_app ''alpha'') = conceal (secret_app ''beta'')"
    by (simp add: conceal_def conceal_repo_def conceal_job_def secret_app_def secret_job_def)
  have f: "find_route plain_fastapi included_routes (sc_method (job_scope 1)) (sc_path (job_scope 1)) =
      Some ((''GET'', ''/v1/evaluations/{job_id}'', GetEvaluation), [(''job_id'', uuid_str 1)])"
    using plain_api.route_job [of 1] m by simp
  show ?thesis
    by (rule http_conceals_content [OF plain.starlette_axioms _ f _ c]) (simp_all add: m)
qed

end
