(* ===== verification/PostgresLaws.thy ===== *)
theory PostgresLaws
  imports Postgres
begin

text \<open>
  The PostgreSQL repository meets the contract of \<open>Repository\<close>.

  The locale \<open>sql_session\<close> states what the repository relies on: the primary key, the meaning of a
  select, and that rows that fit the columns are stored up to the order of keys in a \<open>JSONB\<close> object,
  while rows that do not fit are refused and change nothing. \<open>rows\<close> is the table, \<open>up\<close> that the
  database answers. Under these laws the sublocale \<open>pg\<close> shows every law of \<open>job_repository\<close> for
  \<open>pg_ops\<close>: the view of the table is the jobs its rows stand for, the texts that fit are those
  without a NUL character, and a transition to a final state clears \<open>claimed_at\<close>.

  \<open>table_ops\<close> is a table in memory that keeps the laws; it shows that they can hold and is what the
  examples are evaluated on.
\<close>

subsection \<open>The session\<close>

locale sql_session =
  fixes db :: "'d sql_ops"
    and rows :: "'d \<Rightarrow> uuid \<rightharpoonup> EvaluationJobRow"
    and up :: "'d \<Rightarrow> bool"
  assumes rows_key: "rows d i = Some r \<Longrightarrow> row_job_id r = i"
    and rows_finite: "finite (dom (rows d))"
    and get_row: "up d \<Longrightarrow> sql_get db i d = Inr (rows d i)"
    and select_law: "up d \<Longrightarrow> list_all plain_condition (sel_where q) \<Longrightarrow>
      (case sel_limit q of None \<Rightarrow> True | Some n \<Rightarrow> 0 \<le> n) \<Longrightarrow>
      \<exists>rs. sql_rows db q d = Inr (sql_limited (sel_limit q) rs) \<and> distinct rs \<and>
           set rs = {r \<in> ran (rows d). list_all (\<lambda>w. sql_holds w r) (sel_where q)} \<and>
           sql_ordered (sel_order q) rs"
    and select_rejected: "up d \<Longrightarrow> \<not> list_all plain_condition (sel_where q) \<Longrightarrow>
      sql_rows db q d = Inl SQLAlchemyError"
    and insert_law: "up d \<Longrightarrow> row_fits r \<Longrightarrow> flat_row r \<Longrightarrow> rows d (row_job_id r) = None \<Longrightarrow>
      \<exists>d' r'. sql_insert db r d = (Inr (), d') \<and> up d' \<and> same_row r r' \<and>
              rows d' = (rows d)(row_job_id r \<mapsto> r')"
    and insert_duplicate: "up d \<Longrightarrow> row_fits r \<Longrightarrow> rows d (row_job_id r) \<noteq> None \<Longrightarrow>
      sql_insert db r d = (Inl IntegrityError, d)"
    and insert_rejected: "up d \<Longrightarrow> \<not> row_fits r \<Longrightarrow> sql_insert db r d = (Inl SQLAlchemyError, d)"
    and update_law: "up d \<Longrightarrow> (\<And>r. r \<in> set rs \<Longrightarrow> row_fits r \<and> flat_row r \<and> rows d (row_job_id r) \<noteq> None) \<Longrightarrow>
      distinct (map row_job_id rs) \<Longrightarrow>
      \<exists>d' f. sql_update db rs d = (Inr (), d') \<and> up d' \<and>
             (\<forall>r \<in> set rs. same_row r (f (row_job_id r))) \<and>
             rows d' = (\<lambda>i. if i \<in> row_job_id ` set rs then Some (f i) else rows d i)"
    and ping_law: "up d \<Longrightarrow> sql_select_1 db d = Inr ()"

definition domain_of :: "EvaluationJobRow option \<Rightarrow> EvaluationJob option" where
  "domain_of r =
     (case r of None \<Rightarrow> None
      | Some row \<Rightarrow> (case to_domain row of Inl _ \<Rightarrow> None | Inr j \<Rightarrow> Some j))"

definition good_row :: "EvaluationJobRow \<Rightarrow> bool" where
  "good_row r \<longleftrightarrow> row_fits r \<and> flat_row r \<and> \<not> isl (to_domain r)"

definition pg_view :: "('d \<Rightarrow> uuid \<rightharpoonup> EvaluationJobRow) \<Rightarrow> 'd \<Rightarrow> store" where
  "pg_view rows d i = domain_of (rows d i)"

definition pg_inv :: "('d \<Rightarrow> uuid \<rightharpoonup> EvaluationJobRow) \<Rightarrow> ('d \<Rightarrow> bool) \<Rightarrow> 'd \<Rightarrow> bool" where
  "pg_inv rows up d \<longleftrightarrow> up d \<and> (\<forall>r \<in> ran (rows d). good_row r)"

definition settle_pg :: "datetime option \<Rightarrow> datetime option" where
  "settle_pg ca = None"

lemma good_rowE:
  assumes "good_row r"
  obtains j where "to_domain r = Inr j"
  using assms by (cases "to_domain r") (auto simp: good_row_def)

lemma good_same_row: "same_row r r' \<Longrightarrow> good_row r \<Longrightarrow> good_row r'"
  by (auto simp: good_row_def same_row_domain)

lemma domain_same_row: "same_row r r' \<Longrightarrow> flat_row r \<Longrightarrow> domain_of (Some r') = domain_of (Some r)"
  by (simp add: domain_of_def same_row_domain)

context sql_session
begin

lemma inv_row: "pg_inv rows up d \<Longrightarrow> rows d i = Some r \<Longrightarrow> good_row r \<and> row_job_id r = i"
  by (auto simp: pg_inv_def rows_key intro: ranI)

lemma view_None: "pg_inv rows up d \<Longrightarrow> pg_view rows d i = None \<longleftrightarrow> rows d i = None"
  using inv_row [of d i]
  by (cases "rows d i") (auto simp: pg_view_def domain_of_def elim: good_rowE)

lemma view_Some: "pg_inv rows up d \<Longrightarrow> pg_view rows d i = Some j \<longleftrightarrow>
    (\<exists>r. rows d i = Some r \<and> to_domain r = Inr j)"
  by (auto simp: pg_view_def domain_of_def split: option.splits sum.splits)

lemma view_ran: "pg_inv rows up d \<Longrightarrow> j \<in> ran (pg_view rows d) \<longleftrightarrow> (\<exists>r \<in> ran (rows d). to_domain r = Inr j)"
  by (auto simp: ran_def view_Some)

lemma pg_get_conv:
  assumes "pg_inv rows up d"
  shows "pg_get db i d = (case pg_view rows d i of None \<Rightarrow> Inl raise_NotFound | Some j \<Rightarrow> Inr j)"
proof (cases "rows d i")
  case (Some r)
  from inv_row [OF assms Some] obtain j where "to_domain r = Inr j" by (auto elim: good_rowE)
  with Some assms show ?thesis
    by (simp add: pg_get_def pg_view_def domain_of_def get_row pg_inv_def)
qed (use assms in \<open>simp add: pg_get_def pg_view_def domain_of_def get_row pg_inv_def\<close>)

text \<open>Committing rows that still fit: the jobs they stand for are the stored ones.\<close>

lemma commit_rows:
  assumes inv: "pg_inv rows up d" and "distinct (map row_job_id rs)"
    and rs: "\<And>r. r \<in> set rs \<Longrightarrow> good_row r \<and> rows d (row_job_id r) \<noteq> None"
  obtains d' where "sql_update db rs d = (Inr (), d')" and "pg_inv rows up d'"
    and "\<And>r. r \<in> set rs \<Longrightarrow> pg_view rows d' (row_job_id r) = domain_of (Some r)"
    and "\<And>i. i \<notin> row_job_id ` set rs \<Longrightarrow> pg_view rows d' i = pg_view rows d i"
proof -
  have "\<And>r. r \<in> set rs \<Longrightarrow> row_fits r \<and> flat_row r \<and> rows d (row_job_id r) \<noteq> None"
    using rs by (simp add: good_row_def)
  then obtain d' f where u: "sql_update db rs d = (Inr (), d')" "up d'"
      "\<forall>r \<in> set rs. same_row r (f (row_job_id r))"
      "rows d' = (\<lambda>i. if i \<in> row_job_id ` set rs then Some (f i) else rows d i)"
    using update_law [of d rs] assms by (auto simp: pg_inv_def)
  have "good_row x" if "x \<in> ran (rows d')" for x
  proof -
    from that obtain i where i: "rows d' i = Some x" by (auto simp: ran_def)
    show ?thesis
    proof (cases "i \<in> row_job_id ` set rs")
      case True
      with i u(3,4) rs show ?thesis by (auto intro: good_same_row)
    next
      case False
      with i u(4) inv_row [OF inv, of i x] show ?thesis by simp
    qed
  qed
  with u(2) have "pg_inv rows up d'" by (simp add: pg_inv_def)
  moreover have "pg_view rows d' (row_job_id r) = domain_of (Some r)" if "r \<in> set rs" for r
    using that u(3,4) rs by (auto simp: pg_view_def good_row_def intro!: domain_same_row)
  moreover have "pg_view rows d' i = pg_view rows d i" if "i \<notin> row_job_id ` set rs" for i
    using that u(4) by (simp add: pg_view_def)
  ultimately show ?thesis using that u(1) by blast
qed

lemma commit_row_law:
  assumes inv: "pg_inv rows up d" and "good_row r" and "rows d (row_job_id r) \<noteq> None"
    and j: "to_domain r = Inr j"
  shows "\<exists>d'. commit_row db r c d = (Inr j, d', c) \<and> pg_inv rows up d' \<and>
    pg_view rows d' = (pg_view rows d)(row_job_id r \<mapsto> j)"
proof -
  obtain d' where d': "sql_update db [r] d = (Inr (), d')" "pg_inv rows up d'"
      "pg_view rows d' (row_job_id r) = domain_of (Some r)"
      "\<And>i. i \<notin> row_job_id ` set [r] \<Longrightarrow> pg_view rows d' i = pg_view rows d i"
    using commit_rows [of d "[r]"] assms by auto
  have "pg_view rows d' = (pg_view rows d)(row_job_id r \<mapsto> j)"
    using d'(3,4) j by (auto simp: domain_of_def)
  with d'(1,2) show ?thesis
    by (simp add: commit_row_def pg_get_conv)
qed

lemma select_all:
  assumes inv: "pg_inv rows up d" and "list_all plain_condition (sel_where q)"
    and "case sel_limit q of None \<Rightarrow> True | Some n \<Rightarrow> 0 \<le> n"
  obtains rs where "sql_rows db q d = Inr (sql_limited (sel_limit q) rs)" and "distinct rs"
    and "set rs = {r \<in> ran (rows d). list_all (\<lambda>w. sql_holds w r) (sel_where q)}"
    and "sql_ordered (sel_order q) rs"
  using select_law [of d q] assms by (auto simp: pg_inv_def)

end

subsection \<open>What the changes of a row do to its job\<close>

lemma row_status_domain: "to_domain r = Inr j \<Longrightarrow> row_status r = status_value s \<longleftrightarrow> status j = s"
  by (auto simp: to_domain_Inr JobStatus_of_Inr)

lemma to_domain_id: "to_domain r = Inr j \<Longrightarrow> job_id j = row_job_id r"
  by (simp add: to_domain_Inr)

lemma row_claimable:
  "to_domain r = Inr j \<Longrightarrow>
     row_status r = status_value QUEUED \<and> row_attempt_count r < row_max_attempts r \<longleftrightarrow> claimable j"
  using row_status_domain [of r j QUEUED] by (simp add: claimable_def to_domain_Inr)

lemma row_stale:
  "to_domain r = Inr j \<Longrightarrow>
     row_status r = status_value RUNNING \<and> row_claimed_at r \<noteq> None \<and> sql_holds (Claimed_at_lt cutoff) r \<longleftrightarrow>
     stale cutoff j"
  using row_status_domain [of r j RUNNING] by (auto simp: stale_def to_domain_Inr split: option.splits)

lemma change_row_domain:
  assumes "to_domain r = Inr j"
  shows "to_domain (r\<lparr>row_status := status_value RUNNING,
        row_attempt_count := row_attempt_count r + 1, row_claimed_at := Some t, row_updated_at := t\<rparr>) =
      Inr (claimed t t j)"
    and "to_domain (recover_row t r) = Inr (recovered t j)"
    and "to_domain (r\<lparr>row_status := status_value RUNNING, row_updated_at := t\<rparr>) = Inr (started t j)"
    and "valid_EvaluationResult x \<Longrightarrow>
      to_domain (r\<lparr>row_status := status_value SUCCEEDED, row_result_payload := Some (dump_result x),
        row_claimed_at := None, row_updated_at := t\<rparr>) = Inr (succeeded x None t j)"
    and "to_domain (r\<lparr>row_status := status_value FAILED, row_error_message := Some m,
        row_claimed_at := None, row_updated_at := t\<rparr>) = Inr (failed m None t j)"
  using assms JobStatus_of_value [of RUNNING] JobStatus_of_value [of FAILED]
    JobStatus_of_value [of QUEUED] JobStatus_of_value [of SUCCEEDED]
  by (simp_all add: to_domain_Inr job_updates recover_row_def recovered_def
      timed_out_message_def stopped_message_def del: JobStatus_of_value status_value.simps)

lemma change_row_fits:
  assumes "row_fits r" and "flat_row r"
  shows "row_attempt_count r < row_max_attempts r \<Longrightarrow>
      row_fits (r\<lparr>row_status := status_value s, row_attempt_count := row_attempt_count r + 1,
        row_claimed_at := ca, row_updated_at := t\<rparr>)"
    and "row_fits (r\<lparr>row_status := status_value s, row_updated_at := t\<rparr>)"
    and "plain_text (justification x) \<Longrightarrow>
      row_fits (r\<lparr>row_status := status_value s, row_result_payload := Some (dump_result x),
        row_claimed_at := ca, row_updated_at := t\<rparr>)"
    and "plain_text m \<Longrightarrow> row_fits (r\<lparr>row_status := status_value s, row_error_message := Some m,
        row_claimed_at := ca, row_updated_at := t\<rparr>)"
    and "flat_row (r\<lparr>row_status := status_value s, row_attempt_count := n,
        row_claimed_at := ca, row_updated_at := t\<rparr>)"
    and "flat_row (r\<lparr>row_status := status_value s, row_updated_at := t\<rparr>)"
    and "flat_row (r\<lparr>row_status := status_value s, row_result_payload := Some (dump_result x),
        row_claimed_at := ca, row_updated_at := t\<rparr>)"
    and "flat_row (r\<lparr>row_status := status_value s, row_error_message := Some m,
        row_claimed_at := ca, row_updated_at := t\<rparr>)"
  using assms by (simp_all add: row_fits_def flat_row_def int32_def)

lemma recover_messages_plain: "plain_text timed_out_message" "plain_text stopped_message"
  by (simp_all add: plain_text_def timed_out_message_def stopped_message_def)

lemma recover_row_conv:
  "recover_row t r =
     r\<lparr>row_status := status_value (if row_attempt_count r \<ge> row_max_attempts r then FAILED else QUEUED),
       row_error_message :=
         Some (if row_attempt_count r \<ge> row_max_attempts r then timed_out_message else stopped_message),
       row_claimed_at := None, row_updated_at := t\<rparr>"
  by (simp add: recover_row_def timed_out_message_def stopped_message_def)

lemma change_row_good:
  assumes g: "good_row r" and j: "to_domain r = Inr j"
  shows "claimable j \<Longrightarrow> good_row (r\<lparr>row_status := status_value RUNNING,
        row_attempt_count := row_attempt_count r + 1, row_claimed_at := Some t, row_updated_at := t\<rparr>)"
    and "good_row (recover_row t r)"
    and "good_row (r\<lparr>row_status := status_value RUNNING, row_updated_at := t\<rparr>)"
    and "valid_EvaluationResult x \<Longrightarrow> plain_text (justification x) \<Longrightarrow>
      good_row (r\<lparr>row_status := status_value SUCCEEDED, row_result_payload := Some (dump_result x),
        row_claimed_at := None, row_updated_at := t\<rparr>)"
    and "plain_text m \<Longrightarrow> good_row (r\<lparr>row_status := status_value FAILED, row_error_message := Some m,
        row_claimed_at := None, row_updated_at := t\<rparr>)"
proof -
  from g have f: "row_fits r" "flat_row r" by (simp_all add: good_row_def)
  note ok = change_row_fits [OF f] change_row_domain [OF j] good_row_def
  show "claimable j \<Longrightarrow> good_row (r\<lparr>row_status := status_value RUNNING,
        row_attempt_count := row_attempt_count r + 1, row_claimed_at := Some t, row_updated_at := t\<rparr>)"
    using row_claimable [OF j] by (simp add: ok del: status_value.simps)
  show "good_row (recover_row t r)"
    using recover_messages_plain change_row_domain(2) [OF j, of t]
    by (simp add: ok recover_row_conv del: status_value.simps)
qed (simp_all add: change_row_fits change_row_domain [OF j] g [unfolded good_row_def] good_row_def
    del: status_value.simps)

lemma recover_row_id [simp]: "row_job_id (recover_row t r) = row_job_id r"
  by (simp add: recover_row_def)

lemma collect_map_Inr: "(\<And>x. x \<in> set xs \<Longrightarrow> f x = Inr (g x)) \<Longrightarrow> collect (map f xs) = Inr (map g xs)"
  by (induction xs) simp_all

context sql_session
begin

lemma inj_rows: "inj_on row_job_id (ran (rows d))"
  by (auto simp: inj_on_def ran_def) (metis option.inject rows_key)

lemma rows_ran: "r \<in> ran (rows d) \<longleftrightarrow> rows d (row_job_id r) = Some r"
  by (auto simp: ran_def dest: rows_key)

lemma row_of_job:
  assumes "pg_inv rows up d" and "r \<in> ran (rows d)"
  obtains j where "to_domain r = Inr j" and "j \<in> ran (pg_view rows d)" and "good_row r"
    and "rows d (row_job_id r) = Some r" and "job_id j = row_job_id r" and "pg_view rows d (job_id j) = Some j"
proof -
  from assms have g: "good_row r" and r: "rows d (row_job_id r) = Some r"
    by (auto simp: pg_inv_def rows_ran)
  from g obtain j where j: "to_domain r = Inr j" by (rule good_rowE)
  moreover from j have "job_id j = row_job_id r" by (simp add: to_domain_Inr)
  moreover from this j r have "pg_view rows d (job_id j) = Some j"
    by (simp add: view_Some [OF assms(1)])
  ultimately show ?thesis using that g r by (blast intro: ranI)
qed

lemma get_for_tenant_conv:
  assumes inv: "pg_inv rows up d" and "plain_text tenant"
  shows "pg_get_for_tenant db i tenant d =
    (case pg_view rows d i of None \<Rightarrow> Inl raise_NotFound
     | Some j \<Rightarrow> if tenant_id j = tenant then Inr j else Inl raise_NotFound)"
proof -
  let ?q = "select_rows\<lparr>sel_where := [Job_id_eq i, Tenant_id_eq tenant]\<rparr>"
  obtain rs where q: "sql_rows db ?q d = Inr rs" and d: "distinct rs"
    and rs: "set rs = {r \<in> ran (rows d). row_job_id r = i \<and> row_tenant_id r = tenant}"
    by (rule select_all [OF inv, of ?q]) (use assms(2) in \<open>auto simp: select_rows_def sql_limited_def\<close>)
  show ?thesis
  proof (cases "rows d i")
    case None
    then have "set rs = {}" using rs by (auto simp: rows_ran)
    with q None show ?thesis by (simp add: pg_get_for_tenant_def pg_view_def domain_of_def)
  next
    case (Some r)
    from inv_row [OF inv Some] obtain j where j: "to_domain r = Inr j" and id: "row_job_id r = i"
      by (auto elim: good_rowE)
    then have t: "tenant_id j = row_tenant_id r" by (simp add: to_domain_Inr)
    have v: "pg_view rows d i = Some j" using Some j by (simp add: pg_view_def domain_of_def)
    show ?thesis
    proof (cases "row_tenant_id r = tenant")
      case True
      then have "set rs = {r}" using rs Some id by (auto simp: rows_ran)
      with d have "rs = [r]" by (cases rs) (auto simp: subset_singleton_iff)
      with q v t True j show ?thesis by (simp add: pg_get_for_tenant_def)
    next
      case False
      then have "set rs = {}" using rs Some id by (auto simp: rows_ran)
      with q v t False show ?thesis by (simp add: pg_get_for_tenant_def)
    qed
  qed
qed

lemma list_recent_conv:
  assumes inv: "pg_inv rows up d" and limit: "0 \<le> limit" and "plain_text tenant"
    and "\<And>p. proj = Some p \<Longrightarrow> plain_text p"
  shows "\<exists>js. pg_list_recent db tenant proj limit d = Inr (take (nat limit) js) \<and> distinct js \<and>
    set js = {j \<in> ran (pg_view rows d). tenant_id j = tenant \<and> project_matches proj j} \<and>
    sorted_wrt (\<lambda>a b. created_at b \<le> created_at a) js"
proof -
  let ?b = "select_rows\<lparr>sel_where := [Tenant_id_eq tenant], sel_order := Created_at_desc,
                        sel_limit := Some limit\<rparr>"
  let ?q = "case proj of None \<Rightarrow> ?b | Some p \<Rightarrow> ?b\<lparr>sel_where := sel_where ?b @ [Project_id_eq p]\<rparr>"
  let ?row = "\<lambda>r. row_tenant_id r = tenant \<and> (case proj of None \<Rightarrow> True | Some p \<Rightarrow> row_project_id r = p)"
  obtain rs where q: "sql_rows db ?q d = Inr (take (nat limit) rs)" and dist: "distinct rs"
    and rs: "set rs = {r \<in> ran (rows d). ?row r}"
    and sorted: "sorted_wrt (\<lambda>a b. row_created_at b \<le> row_created_at a) rs"
    by (rule select_all [OF inv, of ?q])
      (use assms in \<open>auto simp: select_rows_def sql_limited_def sql_ordered_def split: option.splits\<close>)
  let ?j = "\<lambda>r. projr (to_domain r)"
  have j: "to_domain r = Inr (?j r)" if "r \<in> set rs" for r
    using that rs row_of_job [OF inv, of r] by force
  have "collect (map to_domain (take (nat limit) rs)) = Inr (map ?j (take (nat limit) rs))"
    by (rule collect_map_Inr) (auto dest!: in_set_takeD j)
  then have "pg_list_recent db tenant proj limit d = Inr (take (nat limit) (map ?j rs))"
    using q by (simp add: pg_list_recent_def take_map)
  moreover have "distinct (map ?j rs)"
  proof -
    have "inj_on ?j (set rs)"
    proof (rule inj_onI)
      fix a b assume ab: "a \<in> set rs" "b \<in> set rs" "?j a = ?j b"
      then have "row_job_id a = row_job_id b" using j [of a] j [of b] by (metis to_domain_id)
      with ab rs show "a = b" by (auto dest: inj_onD [OF inj_rows])
    qed
    with dist show ?thesis by (simp add: distinct_map)
  qed
  moreover have "set (map ?j rs) = {j \<in> ran (pg_view rows d). tenant_id j = tenant \<and> project_matches proj j}"
  proof (intro set_eqI iffI)
    fix x assume "x \<in> set (map ?j rs)"
    then obtain r where r: "r \<in> set rs" "x = ?j r" by auto
    with j rs have "to_domain r = Inr x" "r \<in> ran (rows d)" "?row r" by auto
    then show "x \<in> {j \<in> ran (pg_view rows d). tenant_id j = tenant \<and> project_matches proj j}"
      by (auto simp: view_ran [OF inv] to_domain_Inr project_matches_def split: option.splits)
  next
    fix x assume x: "x \<in> {j \<in> ran (pg_view rows d). tenant_id j = tenant \<and> project_matches proj j}"
    then obtain r where r: "r \<in> ran (rows d)" "to_domain r = Inr x" by (auto simp: view_ran [OF inv])
    then have "?row r" using x by (auto simp: to_domain_Inr project_matches_def split: option.splits)
    with r rs show "x \<in> set (map ?j rs)" by force
  qed
  moreover have "sorted_wrt (\<lambda>a b. created_at b \<le> created_at a) (map ?j rs)"
    using sorted unfolding sorted_wrt_map
    by (rule sorted_wrt_mono_rel [rotated]) (use j in \<open>simp add: to_domain_Inr\<close>)
  ultimately show ?thesis by blast
qed

end

lemma pg_ops_select [simp]:
  "create_op (pg_ops db) = pg_create db" "get_op (pg_ops db) = pg_get db"
  "get_for_tenant_op (pg_ops db) = pg_get_for_tenant db" "list_recent_op (pg_ops db) = pg_list_recent db"
  "claim_next_queued_op (pg_ops db) = pg_claim_next_queued db"
  "recover_stale_running_op (pg_ops db) = pg_recover_stale_running db"
  "set_running_op (pg_ops db) = pg_set_running db" "set_succeeded_op (pg_ops db) = pg_set_succeeded db"
  "set_failed_op (pg_ops db) = pg_set_failed db" "health_check_op (pg_ops db) = pg_health_check db"
  by (simp_all add: pg_ops_def)

lemma validate_transition_value [simp]:
  "validate_transition (status_value s) A = (if s \<in> A then Inr () else Inl raise_InvalidStateTransition)"
  by (simp add: validate_transition_def)

context sql_session
begin

lemma select_jobs:
  assumes inv: "pg_inv rows up d" and PQ: "\<And>r j. to_domain r = Inr j \<Longrightarrow> P r \<longleftrightarrow> Q j"
  shows "{r \<in> ran (rows d). P r} = {r \<in> ran (rows d). \<exists>j. to_domain r = Inr j \<and> Q j}"
proof -
  have "P r \<longleftrightarrow> (\<exists>j. to_domain r = Inr j \<and> Q j)" if r: "r \<in> ran (rows d)" for r
  proof -
    obtain j where "to_domain r = Inr j" using row_of_job [OF inv r] .
    with PQ [OF this] show ?thesis by simp
  qed
  then show ?thesis by (intro Collect_cong conj_cong refl)
qed

text \<open>The first row of the claim's select, and the rows of the recovery's select.\<close>

lemma claim_select:
  assumes inv: "pg_inv rows up d"
  obtains rs where "sql_rows db claim_statement d = Inr (take 1 rs)"
    and "set rs = {r \<in> ran (rows d). \<exists>j. to_domain r = Inr j \<and> claimable j}"
    and "sorted_wrt (\<lambda>a b. row_created_at a \<le> row_created_at b) rs"
proof -
  obtain rs where q: "sql_rows db claim_statement d = Inr (take 1 rs)"
    and rs: "set rs = {r \<in> ran (rows d). row_status r = status_value QUEUED \<and> row_attempt_count r < row_max_attempts r}"
    and sorted: "sorted_wrt (\<lambda>a b. row_created_at a \<le> row_created_at b) rs"
    by (rule select_all [OF inv, of claim_statement])
      (auto simp: claim_statement_def select_rows_def sql_limited_def sql_ordered_def simp del: status_value.simps)
  have "set rs = {r \<in> ran (rows d). \<exists>j. to_domain r = Inr j \<and> claimable j}"
    unfolding rs by (rule select_jobs [OF inv row_claimable])
  with that q sorted show ?thesis by blast
qed

lemma claim_none:
  assumes inv: "pg_inv rows up d" and none: "\<forall>j \<in> ran (pg_view rows d). \<not> claimable j"
  shows "pg_claim_next_queued db c d = (Inr None, d, c)"
proof -
  obtain rs where rs: "sql_rows db claim_statement d = Inr (take 1 rs)"
      "set rs = {r \<in> ran (rows d). \<exists>j. to_domain r = Inr j \<and> claimable j}"
    by (rule claim_select [OF inv])
  have "set rs = {}" unfolding rs(2) using none view_ran [OF inv] by blast
  with rs(1) show ?thesis by (simp add: pg_claim_next_queued_def)
qed

lemma claim_some:
  assumes inv: "pg_inv rows up d" and some: "\<exists>j \<in> ran (pg_view rows d). claimable j"
  shows "\<exists>j t1 t2 d' c'. pg_view rows d (job_id j) = Some j \<and> claimable j \<and>
    (\<forall>j' \<in> ran (pg_view rows d). claimable j' \<longrightarrow> created_at j \<le> created_at j') \<and>
    pg_claim_next_queued db c d = (Inr (Some (claimed t1 t2 j)), d', c') \<and>
    moved c c' t1 \<and> moved c c' t2 \<and> pg_inv rows up d' \<and>
    pg_view rows d' = (pg_view rows d)(job_id j \<mapsto> claimed t1 t2 j)"
proof -
  obtain rs where q: "sql_rows db claim_statement d = Inr (take 1 rs)"
    and rs: "set rs = {r \<in> ran (rows d). \<exists>j. to_domain r = Inr j \<and> claimable j}"
    and sorted: "sorted_wrt (\<lambda>a b. row_created_at a \<le> row_created_at b) rs"
    by (rule claim_select [OF inv])
  from some obtain j0 r0 where "claimable j0" "r0 \<in> ran (rows d)" "to_domain r0 = Inr j0"
    using view_ran [OF inv] by blast
  then have "r0 \<in> set rs" using rs by blast
  then obtain r rest where rr: "rs = r # rest" by (cases rs) auto
  then have "r \<in> set rs" by simp
  then obtain j where r: "r \<in> ran (rows d)" and j: "to_domain r = Inr j" "claimable j" using rs by blast
  obtain j' where j': "to_domain r = Inr j'" "good_row r" "rows d (row_job_id r) = Some r"
      "job_id j' = row_job_id r" "pg_view rows d (job_id j') = Some j'"
    by (rule row_of_job [OF inv r])
  then have [simp]: "j' = j" using j(1) by simp
  note g = j'(2) and row = j'(3) and id = j'(4) [simplified] and v = j'(5) [simplified]
  let ?t = "c 0"
  let ?r = "r\<lparr>row_status := status_value RUNNING, row_attempt_count := row_attempt_count r + 1,
      row_claimed_at := Some ?t, row_updated_at := ?t\<rparr>"
  obtain d' where d': "commit_row db ?r (shift 1 c) d = (Inr (claimed ?t ?t j), d', shift 1 c)"
      "pg_inv rows up d'" "pg_view rows d' = (pg_view rows d)(row_job_id ?r \<mapsto> claimed ?t ?t j)"
    using commit_row_law [OF inv change_row_good(1) [OF g j] _ change_row_domain(1) [OF j(1)], of "c 0" "shift 1 c"] row
    by auto
  have oldest: "created_at j \<le> created_at j'" if j': "j' \<in> ran (pg_view rows d)" "claimable j'" for j'
  proof -
    obtain r' where r': "r' \<in> ran (rows d)" "to_domain r' = Inr j'" using j'(1) view_ran [OF inv] by blast
    then have "r' \<in> set rs" using rs j'(2) by blast
    then have "row_created_at r \<le> row_created_at r'" using sorted rr by auto
    with r'(2) j(1) show ?thesis by (simp add: to_domain_Inr)
  qed
  have "pg_claim_next_queued db c d = (Inr (Some (claimed ?t ?t j)), d', shift 1 c)"
    using q rr d'(1) by (simp add: pg_claim_next_queued_def claim_row_def now_eq del: status_value.simps)
  moreover have "moved c (shift 1 c) ?t" using moved_first [of c 0] by simp
  moreover have "pg_view rows d' = (pg_view rows d)(job_id j \<mapsto> claimed ?t ?t j)"
    using d'(3) id by simp
  ultimately show ?thesis using v j(2) oldest d'(2) by blast
qed

lemma recover_select:
  assumes inv: "pg_inv rows up d"
  obtains rs where "sql_rows db (recover_statement cutoff) d = Inr rs" and "distinct rs"
    and "set rs = {r \<in> ran (rows d). \<exists>j. to_domain r = Inr j \<and> stale cutoff j}"
proof -
  obtain rs where q: "sql_rows db (recover_statement cutoff) d = Inr rs" "distinct rs"
    and rs: "set rs = {r \<in> ran (rows d). row_status r = status_value RUNNING \<and> row_claimed_at r \<noteq> None \<and>
        sql_holds (Claimed_at_lt cutoff) r}"
    by (rule select_all [OF inv, of "recover_statement cutoff"])
      (auto simp: recover_statement_def select_rows_def sql_limited_def simp del: status_value.simps sql_holds.simps(7))
  have "set rs = {r \<in> ran (rows d). \<exists>j. to_domain r = Inr j \<and> stale cutoff j}"
    unfolding rs by (rule select_jobs [OF inv row_stale])
  with that q show ?thesis by blast
qed

lemma recover_law:
  assumes inv: "pg_inv rows up d"
  shows "\<exists>d' k ts. pg_recover_stale_running db cutoff c d =
      (Inr (card {i. \<exists>j. pg_view rows d i = Some j \<and> stale cutoff j}), d', shift k c) \<and> pg_inv rows up d' \<and>
    pg_view rows d' = (\<lambda>i. map_option (\<lambda>j. if stale cutoff j then recovered (ts i) j else j) (pg_view rows d i))"
proof -
  obtain rs where q: "sql_rows db (recover_statement cutoff) d = Inr rs" and dist: "distinct rs"
    and rs: "set rs = {r \<in> ran (rows d). \<exists>j. to_domain r = Inr j \<and> stale cutoff j}"
    by (rule recover_select [OF inv])
  let ?t = "c 0" and ?stale = "{i. \<exists>j. pg_view rows d i = Some j \<and> stale cutoff j}"
  have ids: "row_job_id ` set rs = ?stale"
    unfolding rs using view_Some [OF inv] rows_ran rows_key by (auto simp: image_iff) metis+
  have inj: "distinct (map row_job_id rs)"
    using dist inj_on_subset [OF inj_rows, of "set rs" d] rs by (auto simp: distinct_map)
  have len: "length rs = card ?stale"
    using distinct_card [OF inj] ids by simp
  let ?rs = "map (recover_row ?t) rs"
  have "distinct (map row_job_id ?rs)" using inj by (simp add: comp_def)
  moreover have "good_row r \<and> rows d (row_job_id r) \<noteq> None" if "r \<in> set ?rs" for r
  proof -
    from that obtain r0 where r0: "r0 \<in> set rs" "r = recover_row ?t r0" by auto
    with rs have "r0 \<in> ran (rows d)" by blast
    with r0 row_of_job [OF inv] show ?thesis
      by (metis change_row_good(2) option.distinct(1) recover_row_id)
  qed
  ultimately obtain d' where u: "sql_update db ?rs d = (Inr (), d')" "pg_inv rows up d'"
      "\<And>r. r \<in> set ?rs \<Longrightarrow> pg_view rows d' (row_job_id r) = domain_of (Some r)"
      "\<And>i. i \<notin> row_job_id ` set ?rs \<Longrightarrow> pg_view rows d' i = pg_view rows d i"
    using commit_rows [OF inv, of ?rs] by blast
  have ids': "row_job_id ` set ?rs = ?stale"
    using ids by (simp add: image_image)
  have "pg_view rows d' i = map_option (\<lambda>j. if stale cutoff j then recovered ?t j else j) (pg_view rows d i)" for i
  proof (cases "i \<in> ?stale")
    case True
    then have "i \<in> row_job_id ` set rs" by (simp only: ids)
    then obtain r where r: "r \<in> set rs" "row_job_id r = i" by (rule imageE) simp
    from r(1) obtain j where j: "to_domain r = Inr j" "stale cutoff j" "r \<in> ran (rows d)"
      unfolding rs by blast
    then have "pg_view rows d i = Some j" using r view_Some [OF inv] rows_ran by blast
    with u(3) [of "recover_row ?t r"] r j show ?thesis by (simp add: domain_of_def change_row_domain)
  next
    case False
    with u(4) [of i] ids' show ?thesis by (cases "pg_view rows d i") auto
  qed
  then have view: "pg_view rows d' = (\<lambda>i. map_option (\<lambda>j. if stale cutoff j then recovered ((\<lambda>_. ?t) i) j else j)
      (pg_view rows d i))" by (rule ext)
  moreover have "pg_recover_stale_running db cutoff c d = (Inr (card ?stale), d', shift 1 c)"
    using q u(1) by (simp add: pg_recover_stale_running_def now_eq len del: status_value.simps)
  ultimately show ?thesis
    using u(2) by (intro exI [of _ d'] exI [of _ 1] exI [of _ "\<lambda>_. ?t"] conjI)
qed

end

context sql_session
begin

lemma change_row_missing:
  "pg_inv rows up d \<Longrightarrow> pg_view rows d i = None \<Longrightarrow> change_row db i A f c d = (Inl raise_NotFound, d, c)"
  by (simp add: change_row_def view_None get_row pg_inv_def)

lemma change_row_rejected:
  assumes "pg_inv rows up d" and "pg_view rows d i = Some j" and "status j \<notin> A"
  shows "change_row db i A f c d = (Inl raise_InvalidStateTransition, d, c)"
proof -
  obtain r where "rows d i = Some r" "to_domain r = Inr j" using assms view_Some by blast
  with assms(1,3) row_status_domain [of r j "status j"] show ?thesis
    by (simp add: change_row_def get_row pg_inv_def)
qed

lemma change_row_law:
  assumes inv: "pg_inv rows up d" and v: "pg_view rows d i = Some j" and st: "status j \<in> A"
    and f: "\<And>r. good_row r \<Longrightarrow> to_domain r = Inr j \<Longrightarrow>
      good_row (f (c 0) r) \<and> to_domain (f (c 0) r) = Inr j' \<and> row_job_id (f (c 0) r) = row_job_id r"
  shows "\<exists>d'. change_row db i A f c d = (Inr j', d', shift 1 c) \<and> moved c (shift 1 c) (c 0) \<and>
    pg_inv rows up d' \<and> pg_view rows d' = (pg_view rows d)(i \<mapsto> j')"
proof -
  obtain r where r: "rows d i = Some r" "to_domain r = Inr j" using inv v view_Some by blast
  with inv_row [OF inv r(1)] f have r': "good_row (f (c 0) r)" "to_domain (f (c 0) r) = Inr j'"
    "row_job_id (f (c 0) r) = i" by auto
  from commit_row_law [OF inv r'(1) _ r'(2), of "shift 1 c"] r(1) r'(3) obtain d' where
    "commit_row db (f (c 0) r) (shift 1 c) d = (Inr j', d', shift 1 c)" "pg_inv rows up d'"
    "pg_view rows d' = (pg_view rows d)(i \<mapsto> j')" by auto
  then show ?thesis
    using r inv st row_status_domain [OF r(2), of "status j"] moved_first [of c 0]
    by (simp add: change_row_def get_row pg_inv_def now_eq)
qed

lemma set_running_law:
  assumes "pg_inv rows up d" and "pg_view rows d i = Some j" and "status j = QUEUED"
  shows "\<exists>t d' c'. pg_set_running db i c d = (Inr (started t j), d', c') \<and> moved c c' t \<and>
    pg_inv rows up d' \<and> pg_view rows d' = (pg_view rows d)(i \<mapsto> started t j)"
  unfolding pg_set_running_def pg_transition_def
  by (rule exI, rule ex_comm [THEN iffD1], rule exI, rule change_row_law [OF assms(1,2)])
    (simp_all add: assms change_row_good change_row_domain del: status_value.simps)

lemma set_succeeded_law:
  assumes "pg_inv rows up d" and "pg_view rows d i = Some j" and "status j = RUNNING"
    and "valid_EvaluationResult r" and "plain_text (justification r)"
  shows "\<exists>t d' c'. pg_set_succeeded db i r c d = (Inr (succeeded r None t j), d', c') \<and> moved c c' t \<and>
    pg_inv rows up d' \<and> pg_view rows d' = (pg_view rows d)(i \<mapsto> succeeded r None t j)"
  unfolding pg_set_succeeded_def
  by (rule exI, rule ex_comm [THEN iffD1], rule exI, rule change_row_law [OF assms(1,2)])
    (simp_all add: assms change_row_good change_row_domain del: status_value.simps)

lemma set_failed_law:
  assumes "pg_inv rows up d" and "pg_view rows d i = Some j" and "\<not> final j" and "plain_text m"
  shows "\<exists>t d' c'. pg_set_failed db i m c d = (Inr (failed m None t j), d', c') \<and> moved c c' t \<and>
    pg_inv rows up d' \<and> pg_view rows d' = (pg_view rows d)(i \<mapsto> failed m None t j)"
proof -
  have st: "status j \<in> {QUEUED, RUNNING}" using assms(3) by (cases "status j") (simp_all add: final_def)
  show ?thesis
    unfolding pg_set_failed_def
    by (rule exI, rule ex_comm [THEN iffD1], rule exI, rule change_row_law [OF assms(1,2) st])
      (simp_all add: assms change_row_good change_row_domain del: status_value.simps)
qed

lemma create_conv:
  assumes inv: "pg_inv rows up d" and wf: "wf_job j" and fits: "job_fits plain_text j"
    and new: "pg_view rows d (job_id j) = None"
  shows "\<exists>d'. pg_create db j d = (Inr j, d') \<and> pg_inv rows up d' \<and>
    pg_view rows d' = (pg_view rows d)(job_id j \<mapsto> j)"
proof -
  have id: "row_job_id (to_row j) = job_id j" by (simp add: to_row_def)
  have f: "row_fits (to_row j)" using row_fits_to_row [OF wf] fits by simp
  have "rows d (row_job_id (to_row j)) = None" using new view_None [OF inv] id by simp
  with insert_law [OF _ f flat_to_row] inv obtain d' r' where
    ins: "sql_insert db (to_row j) d = (Inr (), d')" "up d'" "same_row (to_row j) r'"
      "rows d' = (rows d)(job_id j \<mapsto> r')"
    by (metis id pg_inv_def)
  have dom: "to_domain (to_row j) = Inr j"
    using wf by (intro to_domain_to_row) (simp_all add: wf_job_def)
  then have good: "good_row r'" using f by (intro good_same_row [OF ins(3)]) (simp add: good_row_def)
  have "domain_of (Some r') = Some j"
    using dom domain_same_row [OF ins(3)] by (simp add: domain_of_def)
  then have "pg_view rows d' = (pg_view rows d)(job_id j \<mapsto> j)"
    by (auto simp: pg_view_def ins(4))
  moreover have "pg_inv rows up d'"
    using inv ins(2) good by (auto simp: pg_inv_def ins(4) ran_def)
  ultimately show ?thesis using ins(1) by (simp add: pg_create_def)
qed

lemma create_duplicate:
  assumes "pg_inv rows up d" and "wf_job j" and "job_fits plain_text j" and "pg_view rows d (job_id j) \<noteq> None"
  shows "pg_create db j d = (Inl IntegrityError, d)"
proof -
  have "row_fits (to_row j)" using row_fits_to_row [OF assms(2)] assms(3) by simp
  moreover have "rows d (row_job_id (to_row j)) \<noteq> None"
    using assms(4) view_None [OF assms(1)] by (simp add: to_row_def)
  ultimately show ?thesis
    using insert_duplicate [of d "to_row j"] assms(1) by (simp add: pg_create_def pg_inv_def)
qed

lemma create_rejected:
  assumes "pg_inv rows up d" and "wf_job j" and "\<not> job_fits plain_text j"
  shows "pg_create db j d = (Inl SQLAlchemyError, d)"
  using assms insert_rejected [of d "to_row j"] row_fits_to_row [OF assms(2)]
  by (simp add: pg_create_def pg_inv_def)

lemma reads_unfit:
  assumes "pg_inv rows up d"
  shows "\<not> plain_text tenant \<Longrightarrow> pg_get_for_tenant db i tenant d = Inl SQLAlchemyError"
    and "\<not> plain_text tenant \<or> (\<exists>p. proj = Some p \<and> \<not> plain_text p) \<Longrightarrow>
      pg_list_recent db tenant proj limit d = Inl SQLAlchemyError"
  using assms
  by (auto simp: pg_get_for_tenant_def pg_list_recent_def select_rejected pg_inv_def select_rows_def Let_def
      split: option.split)

lemma view_dom_finite: "finite (dom (pg_view rows d))"
  by (rule finite_subset [OF _ rows_finite [of d]]) (auto simp: pg_view_def domain_of_def split: option.splits)

lemma health_check_up: "pg_inv rows up d \<Longrightarrow> pg_health_check db d = Inr True"
  by (simp add: pg_health_check_def ping_law pg_inv_def)

end

text \<open>The repository on any database that keeps the laws of a session meets the contract.\<close>

sublocale sql_session \<subseteq> pg: job_repository "pg_ops db" "pg_view rows" "pg_inv rows up" plain_text settle_pg
proof (unfold_locales, goal_cases)
  case 1 then show ?case by (simp add: settle_pg_def)
next
  case 2 then show ?case by (simp add: plain_text_def)
next
  case (3 d i j) then show ?case by (metis view_Some rows_key to_domain_id)
next
  case 4 show ?case by (rule view_dom_finite)
next
  case 5 then show ?case by (simp add: pg_get_conv)
next
  case 6 then show ?case by (simp add: get_for_tenant_conv)
next
  case 7 then show ?case by (simp add: reads_unfit)
next
  case 8 then show ?case using list_recent_conv by simp
next
  case 9 then show ?case using reads_unfit(2) by simp
next
  case 10 then show ?case using create_conv by simp
next
  case 11 then show ?case using claim_none by simp
next
  case 12 then show ?case using claim_some by simp
next
  case 13 then show ?case using recover_law by simp
next
  case 16 then show ?case by (simp add: set_running_law)
next
  case 19 then show ?case by (simp add: set_succeeded_law settle_pg_def)
next
  case 22 then show ?case by (simp add: set_failed_law settle_pg_def)
qed (auto simp: pg_set_running_def pg_transition_def pg_set_succeeded_def pg_set_failed_def
    change_row_missing change_row_rejected final_def)

subsection \<open>A table in memory\<close>

text \<open>The rows in the order of their insertion. A \<open>JSONB\<close> object is stored with its shorter keys
  first.\<close>

fun jsonb :: "json \<Rightarrow> json" where
  "jsonb (JObj d) = JObj (sort_key (\<lambda>(k, v). length k) d)"
| "jsonb x = x"

definition stored_row :: "EvaluationJobRow \<Rightarrow> EvaluationJobRow" where
  "stored_row r =
     r\<lparr>row_request_payload := jsonb (row_request_payload r),
       row_result_payload := map_option jsonb (row_result_payload r)\<rparr>"

definition table_rows :: "EvaluationJobRow list \<Rightarrow> uuid \<rightharpoonup> EvaluationJobRow" where
  "table_rows d i = find (\<lambda>r. row_job_id r = i) d"

definition table_up :: "EvaluationJobRow list \<Rightarrow> bool" where
  "table_up d \<longleftrightarrow> distinct (map row_job_id d)"

definition table_sort :: "sql_order \<Rightarrow> EvaluationJobRow list \<Rightarrow> EvaluationJobRow list" where
  "table_sort ord rs =
     (case ord of No_order \<Rightarrow> rs | Created_at_asc \<Rightarrow> sort_key row_created_at rs
      | Created_at_desc \<Rightarrow> sort_key (\<lambda>r. - row_created_at r) rs)"

definition table_select :: "sql_select \<Rightarrow> EvaluationJobRow list \<Rightarrow> exn + EvaluationJobRow list" where
  "table_select q d =
     (if list_all plain_condition (sel_where q)
      then Inr (sql_limited (sel_limit q)
             (table_sort (sel_order q) (filter (\<lambda>r. list_all (\<lambda>w. sql_holds w r) (sel_where q)) d)))
      else Inl SQLAlchemyError)"

definition table_insert :: "EvaluationJobRow \<Rightarrow> EvaluationJobRow list \<Rightarrow> (exn + unit) \<times> EvaluationJobRow list" where
  "table_insert r d =
     (if \<not> row_fits r then (Inl SQLAlchemyError, d)
      else if table_rows d (row_job_id r) \<noteq> None then (Inl IntegrityError, d)
      else (Inr (), d @ [stored_row r]))"

definition table_update :: "EvaluationJobRow list \<Rightarrow> EvaluationJobRow list \<Rightarrow> (exn + unit) \<times> EvaluationJobRow list" where
  "table_update rs d =
     (if list_all row_fits rs
      then (Inr (), map (\<lambda>r. case table_rows rs (row_job_id r) of None \<Rightarrow> r | Some x \<Rightarrow> stored_row x) d)
      else (Inl SQLAlchemyError, d))"

definition table_ops :: "EvaluationJobRow list sql_ops" where
  "table_ops =
     \<lparr>sql_insert = table_insert, sql_get = (\<lambda>i d. Inr (table_rows d i)), sql_rows = table_select,
      sql_update = table_update, sql_select_1 = (\<lambda>d. Inr ())\<rparr>"

lemma stored_row_id [simp]: "row_job_id (stored_row r) = row_job_id r"
  by (simp add: stored_row_def)

lemma same_jsonb: "same_payload x (jsonb x)"
  by (cases x) simp_all

lemma same_stored_row: "same_row r (stored_row r)"
  using same_jsonb
  by (auto simp: same_row_def stored_row_def option.rel_map intro!: option.rel_refl)

lemma table_rows_key: "table_rows d i = Some r \<Longrightarrow> row_job_id r = i \<and> r \<in> set d"
  by (auto simp: table_rows_def find_Some_iff)

lemma table_rows_in: "table_up d \<Longrightarrow> r \<in> set d \<Longrightarrow> table_rows d (row_job_id r) = Some r"
  by (induction d) (auto simp: table_rows_def table_up_def image_iff)

lemma table_rows_None: "table_rows d i = None \<longleftrightarrow> i \<notin> row_job_id ` set d"
  by (auto simp: table_rows_def find_None_iff)

lemma table_ran: "table_up d \<Longrightarrow> ran (table_rows d) = set d"
  by (auto simp: ran_def dest: table_rows_key table_rows_in)

lemma table_dom: "dom (table_rows d) = row_job_id ` set d"
  using table_rows_None by (auto simp: dom_def)

lemma table_rows_append:
  "table_rows (d @ [r]) i = (case table_rows d i of None \<Rightarrow> if row_job_id r = i then Some r else None | Some x \<Rightarrow> Some x)"
  by (induction d) (auto simp: table_rows_def)

lemma table_rows_map:
  "(\<And>r. row_job_id (f r) = row_job_id r) \<Longrightarrow> table_rows (map f d) i = map_option f (table_rows d i)"
  by (induction d) (auto simp: table_rows_def)

lemma table_sort_facts [simp]:
  "set (table_sort ord rs) = set rs" "distinct (table_sort ord rs) = distinct rs"
  "sql_ordered ord (table_sort ord rs)"
proof -
  have s: "sorted_wrt (\<lambda>a b. f a \<le> f b) (sort_key f rs)" for f :: "EvaluationJobRow \<Rightarrow> int"
    using sorted_sort_key [of f rs] by (simp add: sorted_map)
  show "sql_ordered ord (table_sort ord rs)"
    using s [of row_created_at] s [of "\<lambda>r. - row_created_at r"]
    by (simp add: sql_ordered_def table_sort_def split: sql_order.split)
qed (simp_all add: table_sort_def split: sql_order.split)

lemma table_update_rows:
  assumes "table_up d" and "list_all row_fits rs" and "table_up rs"
    and "\<And>r. r \<in> set rs \<Longrightarrow> table_rows d (row_job_id r) \<noteq> None"
  shows "\<exists>d'. table_update rs d = (Inr (), d') \<and> table_up d' \<and>
    table_rows d' = (\<lambda>i. if i \<in> row_job_id ` set rs then Some (stored_row (the (table_rows rs i)))
                         else table_rows d i)"
proof -
  let ?f = "\<lambda>r. case table_rows rs (row_job_id r) of None \<Rightarrow> r | Some x \<Rightarrow> stored_row x"
  have id: "row_job_id (?f r) = row_job_id r" for r
    by (auto split: option.split dest: table_rows_key)
  have "table_rows (map ?f d) i = (if i \<in> row_job_id ` set rs
      then Some (stored_row (the (table_rows rs i))) else table_rows d i)" for i
  proof (cases "i \<in> row_job_id ` set rs")
    case True
    then obtain r where r: "r \<in> set rs" "row_job_id r = i" by auto
    with assms(4) obtain x where x: "table_rows d i = Some x" by auto
    then have "row_job_id x = i" by (simp add: table_rows_key)
    with r x table_rows_in [OF assms(3) r(1)] show ?thesis
      by (auto simp: table_rows_map [of ?f, OF id])
  next
    case False
    then have "table_rows rs i = None" by (simp add: table_rows_None)
    then show ?thesis
      using False table_rows_key [of d i]
      by (cases "table_rows d i") (auto simp: table_rows_map [of ?f, OF id])
  qed
  moreover have "table_up (map ?f d)"
    using assms(1) id by (simp add: table_up_def comp_def)
  ultimately show ?thesis
    using assms(2) by (simp add: table_update_def fun_eq_iff)
qed

interpretation table: sql_session table_ops table_rows table_up
proof (unfold_locales, goal_cases)
  case 1 then show ?case by (simp add: table_rows_key)
next
  case 2 show ?case by (simp add: table_dom)
next
  case 3 then show ?case by (simp add: table_ops_def)
next
  case (4 d q)
  let ?rs = "table_sort (sel_order q) (filter (\<lambda>r. list_all (\<lambda>w. sql_holds w r) (sel_where q)) d)"
  have "distinct d" using 4(1) by (simp add: table_up_def distinct_map)
  then show ?case
    using 4 by (intro exI [of _ ?rs]) (simp add: table_ops_def table_select_def table_ran)
next
  case 5 then show ?case by (simp add: table_ops_def table_select_def)
next
  case (6 d r)
  then have "table_up (d @ [stored_row r])" by (simp add: table_up_def table_rows_None)
  moreover have "table_rows (d @ [stored_row r]) = (table_rows d)(row_job_id r \<mapsto> stored_row r)"
    using 6(4) by (auto simp: table_rows_append fun_eq_iff split: option.split)
  ultimately show ?case
    using 6 same_stored_row
    by (intro exI [of _ "d @ [stored_row r]"] exI [of _ "stored_row r"]) (simp add: table_ops_def table_insert_def)
next
  case 7 then show ?case by (simp add: table_ops_def table_insert_def)
next
  case 8 then show ?case by (simp add: table_ops_def table_insert_def)
next
  case (9 d rs)
  then have up: "table_up rs" by (simp add: table_up_def)
  have "list_all row_fits rs" using 9(2) by (simp add: list_all_iff)
  from table_update_rows [OF 9(1) this up] 9(2) obtain d' where
    "table_update rs d = (Inr (), d')" "table_up d'"
    "table_rows d' = (\<lambda>i. if i \<in> row_job_id ` set rs then Some (stored_row (the (table_rows rs i)))
                          else table_rows d i)" by blast
  moreover have "same_row r (stored_row (the (table_rows rs (row_job_id r))))" if "r \<in> set rs" for r
    using table_rows_in [OF up that] same_stored_row by simp
  ultimately show ?case
    by (intro exI [of _ d'] exI [of _ "\<lambda>i. stored_row (the (table_rows rs i))"])
      (simp add: table_ops_def)
next
  case 10 then show ?case by (simp add: table_ops_def)
qed

context sql_session
begin

lemma cmds_refine:
  "cmds_ok plain_text (pg_ops db) (pg_view rows) xs sc \<Longrightarrow> pg_inv rows up (fst sc) \<Longrightarrow>
     pg_inv rows up (fst (exec_cmds (pg_ops db) xs sc)) \<and>
     spec_cmds settle_pg xs (pg_view rows (fst sc)) (pg_view rows (fst (exec_cmds (pg_ops db) xs sc)))"
  by (rule pg.exec_cmds_refine)

lemma cmds_wf:
  "cmds_ok plain_text (pg_ops db) (pg_view rows) xs sc \<Longrightarrow> pg_inv rows up (fst sc) \<Longrightarrow>
     wf_store (pg_view rows (fst sc)) \<Longrightarrow>
     pg_inv rows up (fst (exec_cmds (pg_ops db) xs sc)) \<and>
     wf_store (pg_view rows (fst (exec_cmds (pg_ops db) xs sc)))"
  by (rule pg.exec_cmds_wf)

end

subsection \<open>Properties of the repository\<close>

lemma demo_table_inv [simp]: "pg_inv table_rows table_up []" and demo_table_view [simp]: "pg_view table_rows [] = Map.empty"
  by (simp_all add: pg_inv_def table_up_def table_rows_def pg_view_def domain_of_def ran_def fun_eq_iff)

definition demo_history :: "repo_cmd list" where
  "demo_history =
     [CCreate (demo_job 1 10), CCreate (demo_job 2 20), CClaim, CRecover 1000, CClaim,
      CSetSucceeded 1 demo_result, CSetFailed 1 ''late'']"

definition demo_ticks :: clock where
  "demo_ticks n = 100 + int n"

lemma demo_history_ok:
  "cmds_ok plain_text (pg_ops table_ops) (pg_view table_rows) demo_history ([], demo_ticks)"
  by code_simp

text \<open>C15. A job survives the trip through the table: the row made of a well-formed job, with the keys
  of its JSON columns in whatever order \<open>JSONB\<close> gives them back, is read as the same job.\<close>

theorem pg_row_roundtrip:
  assumes "wf_job j" and "same_row (to_row j) r"
  shows "to_domain r = Inr j"
  using same_row_domain(1) [OF assms(2) flat_to_row] to_domain_to_row [of j] assms(1)
  by (simp add: wf_job_def)

theorem pg_row_roundtrip_witness:
  "to_domain (stored_row (to_row (demo_job 7 5))) = Inr (demo_job 7 5)"
proof -
  have "wf_job (demo_job 7 5)" using demo_job_fresh [of 7 5] by (simp add: fresh_job_def)
  from pg_row_roundtrip [OF this same_stored_row] show ?thesis .
qed

text \<open>C9. Every sequence of calls on a PostgreSQL repository has the effect of the abstract
  repository, for any database that keeps the laws of a session: creations, claims of an oldest
  claimable job, guarded transitions that clear \<open>claimed_at\<close> when they end a job, and recovery of
  exactly the stale jobs.\<close>

theorem pg_refines_spec:
  assumes "sql_session db rows up" and "pg_inv rows up d"
    and "cmds_ok plain_text (pg_ops db) (pg_view rows) cmds (d, c)"
  shows "spec_cmds settle_pg cmds (pg_view rows d) (pg_view rows (fst (exec_cmds (pg_ops db) cmds (d, c))))"
  using sql_session.cmds_refine [OF assms(1,3)] assms(2) by simp

theorem pg_refines_spec_witness:
  "spec_cmds settle_pg demo_history Map.empty
     (pg_view table_rows (fst (exec_cmds (pg_ops table_ops) demo_history ([], demo_ticks))))"
  using pg_refines_spec [OF table.sql_session_axioms demo_table_inv demo_history_ok] by simp

text \<open>C14. Whatever calls the service makes, every row of the table fits its columns (tenant and
  project within 128 characters, the status within 32, no NUL character, counters within 32 bits)
  and is read back without an error as a well-formed job under its own key.\<close>

theorem pg_rows_typed:
  assumes "sql_session db rows up" and "pg_inv rows up d" and "wf_store (pg_view rows d)"
    and "cmds_ok plain_text (pg_ops db) (pg_view rows) cmds (d, c)"
    and "rows (fst (exec_cmds (pg_ops db) cmds (d, c))) i = Some r"
  shows "row_fits r \<and> row_job_id r = i \<and> (\<exists>j. to_domain r = Inr j \<and> job_id j = i \<and> wf_job j)"
proof -
  let ?d = "fst (exec_cmds (pg_ops db) cmds (d, c))"
  have inv: "pg_inv rows up ?d" and wf: "wf_store (pg_view rows ?d)"
    using sql_session.cmds_wf [OF assms(1,4)] assms(2,3) by simp_all
  from sql_session.inv_row [OF assms(1) inv assms(5)] have g: "good_row r" "row_job_id r = i" by auto
  then obtain j where j: "to_domain r = Inr j" by (auto elim: good_rowE)
  then have "pg_view rows ?d i = Some j" using sql_session.view_Some [OF assms(1) inv] assms(5) by blast
  with wf g j show ?thesis by (auto simp: wf_store_def good_row_def)
qed

theorem pg_rows_typed_witness:
  "\<exists>r. table_rows (fst (exec_cmds (pg_ops table_ops) demo_history ([], demo_ticks))) 1 = Some r \<and> row_fits r"
proof -
  let ?d = "fst (exec_cmds (pg_ops table_ops) demo_history ([], demo_ticks))"
  have "\<not> Option.is_none (table_rows ?d 1)" by code_simp
  then obtain r where r: "table_rows ?d 1 = Some r" by (auto simp: Option.is_none_def)
  from pg_rows_typed [OF table.sql_session_axioms demo_table_inv _ demo_history_ok r] r show ?thesis
    by (simp add: wf_store_def)
qed



end
