(* ===== verification/Deployment.thy ===== *)
theory Deployment
  imports HttpService PostgresLaws
begin

text \<open>
  The deployment with processes of its own for the API and for the workers, which share a PostgreSQL
  database: the worker process (\<^verbatim>\<open>app/worker.py\<close>) finishes what is due and leaves, and a job that is
  submitted over HTTP is scored by a worker process and read back over HTTP. The worker and the
  API are interpreted on every database that keeps the laws of \<open>sql_session\<close>.
\<close>

text \<open>A sleep that takes exactly its time, and an evaluator whose provider is down.\<close>

definition prompt_sleep :: "'s world sleep" where
  "prompt_sleep d w = (d, w)"

lemma prompt_sleep_considerate [simp]: "considerate view invar i prompt_sleep"
  and prompt_sleep_quiet [simp]: "quiet_sleep prompt_sleep"
  by (simp_all add: considerate_def quiet_sleep_def prompt_sleep_def)

definition raising_scorer :: "'s scorer" where
  "raising_scorer req w = (Inl (OtherError ''provider down''), w)"

subsection \<open>The worker process on PostgreSQL\<close>

sublocale sql_session \<subseteq> pg_worker: evaluation_worker "pg_ops db" "pg_view rows" "pg_inv rows up" plain_text settle_pg
  by unfold_locales

context sql_session
begin

lemma pg_process_finishes:
  assumes "pg_inv rows up (repository w)" and "quiet_sleep sleep" and "\<And>w. fst (sleep (1 / 100) w) < timeout"
    and "card (open_ids (pg_view rows (repository w))) \<le> n"
    and "cutoff = wall w 0 - timedelta_seconds (worker_stale_job_seconds settings)"
  shows "\<exists>w'. run_worker (pg_ops db) (evaluator_score sleep timeout) sleep settings n True w =
        (Exited (Inr ()), True, w') \<and> pg_inv rows up (repository w') \<and>
      (\<forall>i j. pg_view rows (repository w) i = Some j \<and> due cutoff j \<longrightarrow>
         (\<exists>j'. pg_view rows (repository w') i = Some j' \<and> owner_of j' = owner_of j \<and> status j' = SUCCEEDED \<and>
               (\<exists>x. score_mock_response (request j) = Inr x \<and> result j' = Some x)))"
proof -
  let ?k = "worker_start (new_worker settings)"
  let ?w = "emit_log ''INFO'' ''evaluation worker started'' [] None
      (emit_log ''INFO'' ''worker process started'' [] None w)"
  have k: "stale_job_seconds ?k = worker_stale_job_seconds settings" "worker_task ?k = Some WorkerRunning"
    by (simp_all add: worker_start_def new_worker_def)
  from pg_worker.finishes_due [of ?w sleep timeout n cutoff ?k] assms k(1) obtain w' where
    l: "worker_loop (pg_ops db) (evaluator_score sleep timeout) sleep ?k (replicate n False) ?w = (WorkerRunning, w')"
    and w': "pg_inv rows up (repository w')"
      "\<forall>i j. pg_view rows (repository w) i = Some j \<and> due cutoff j \<longrightarrow>
         (\<exists>j'. pg_view rows (repository w') i = Some j' \<and> owner_of j' = owner_of j \<and> status j' = SUCCEEDED \<and>
               (\<exists>x. score_mock_response (request j) = Inr x \<and> result j' = Some x))"
    by auto
  have "worker_run (pg_ops db) (evaluator_score sleep timeout) sleep ?k (replicate n False @ [True])
      (emit_log ''INFO'' ''worker process started'' [] None w) =
      (WorkerStopped, emit_log ''INFO'' ''evaluation worker stopped'' [] None w')"
    by (simp add: worker_run_def worker_loop_append l)
  then have "run_worker (pg_ops db) (evaluator_score sleep timeout) sleep settings n True w =
      (Exited (Inr ()), True, emit_log ''INFO'' ''worker process stopped'' [] None
        (emit_log ''INFO'' ''evaluation worker stopped'' [] None w'))"
    by (simp add: run_worker_def Let_def worker_stop_def k(2))
  with w' show ?thesis by simp
qed

lemma pg_process_crashes:
  assumes "pg_inv rows up (repository w)" and "quiet_scorer sc" and "\<And>req w. fst (sc req w) = Inl e"
    and "cutoff = wall w 0 - timedelta_seconds (worker_stale_job_seconds settings)"
    and "pg_view rows (repository w) i0 = Some j0" and "due cutoff j0"
  shows "\<exists>w'. run_worker (pg_ops db) sc sleep settings (Suc n) signalled w =
      (if signalled then Exited (Inl e) else Waiting, False, w')"
proof -
  let ?k = "worker_start (new_worker settings)"
  let ?w = "emit_log ''INFO'' ''evaluation worker started'' [] None
      (emit_log ''INFO'' ''worker process started'' [] None w)"
  have k: "stale_job_seconds ?k = worker_stale_job_seconds settings" "worker_task ?k = Some WorkerRunning"
    by (simp_all add: worker_start_def new_worker_def)
  from pg_worker.loop_crashes [of ?w sc e cutoff ?k i0 j0 sleep] assms k(1) obtain w' where
    "worker_loop (pg_ops db) sc sleep ?k (False # replicate n False @ (if signalled then [True] else [])) ?w =
      (WorkerCrashed e, w')"
    by (simp del: worker_loop.simps) blast
  then show ?thesis
    by (simp add: run_worker_def worker_run_def Let_def worker_stop_def k(2) del: worker_loop.simps)
qed

end

definition demo_pg :: "EvaluationJobRow list" where
  "demo_pg = [stored_row (to_row (demo_job 1 20))]"

lemma demo_pg_facts:
  "pg_inv table_rows table_up demo_pg" "pg_view table_rows demo_pg 1 = Some (demo_job 1 20)"
  "card (open_ids (pg_view table_rows demo_pg)) \<le> 1"
proof -
  have wf: "wf_job (demo_job 1 20)" using demo_job_fresh [of 1 20] by (simp add: fresh_job_def)
  have fits: "job_fits plain_text (demo_job 1 20)"
    by (simp add: job_fits_def demo_job_def request_fits_def demo_request_def plain_text_def)
  have ins: "pg_create table_ops (demo_job 1 20) [] = (Inr (demo_job 1 20), demo_pg)"
    by code_simp
  have inv: "pg_inv table_rows table_up demo_pg \<and>
      pg_view table_rows demo_pg = (pg_view table_rows [])(1 \<mapsto> demo_job 1 20)"
    using table.create_conv [OF demo_table_inv wf fits] ins by simp
  then show "pg_inv table_rows table_up demo_pg" "pg_view table_rows demo_pg 1 = Some (demo_job 1 20)" by simp_all
  have "open_ids (pg_view table_rows demo_pg) \<subseteq> {1}"
    using inv by (auto simp: open_ids_def split: if_splits)
  from card_mono [OF _ this] show "card (open_ids (pg_view table_rows demo_pg)) \<le> 1" by simp
qed

definition demo_pg_world :: "EvaluationJobRow list world" where
  "demo_pg_world = world_init demo_pg demo_clock (\<lambda>n. of_nat n)"



subsection \<open>From a submission to its result\<close>

sublocale sql_session \<subseteq> pg_api: evaluation_api "pg_ops db" "pg_view rows" "pg_inv rows up" plain_text settle_pg
  by unfold_locales

context sql_session
begin

lemmas pg_submit_stored = pg_api.submit_stored and pg_poll_succeeded = pg_api.poll_succeeded

end

text \<open>C1. The service does what it is for: a request that the API accepts with 202, on any database
  that keeps the session laws, is scored by a worker process that shares the database, if evaluations
  finish in time and nobody else changes the table meanwhile, and from then on its tenant gets, at
  the path of the returned identifier, the job succeeded with exactly the mock score of the request,
  unless the rate limit turns the poll away. The worker process leaves cleanly.\<close>

theorem submission_is_scored_and_served:
  assumes "sql_session db rows up" and "starlette fw" and "fastapi_laws fa"
    and "pg_inv rows up (repository (app_world st))"
    and "pg_view rows (repository (app_world st)) (in_uuid4 inb) = None"
    and "sc_method post = ''POST''" and "sc_path post = ''/v1/evaluations''"
    and "submit_args inb = Some payload"
    and "get_request_context k settings (in_now inb) (in_authorization inb) = Inr ctx"
    and "tenant_from_context_or_request ctx (sub_tenant_id payload) = Inr t"
    and "to_evaluation_request payload t = Inr req" and "request_fits plain_text req"
    and "service_app fw fa k settings (pg_ops db) fresh inb (post, st) = (Inr r1, x1, st1)" and "http_status r1 = 202"
    and "repository w = repository (app_world st1)" and "quiet_sleep sleep"
    and "\<And>w. fst (sleep (1 / 100) w) < timeout" and "card (open_ids (pg_view rows (repository w))) \<le> n"
    and "sc_method get = ''GET''" and "sc_path get = job_path (in_uuid4 inb)"
    and "get_request_context k settings (in_now inb2) (in_authorization inb2) = Inr reader"
    and "query_text inb2 ''tenant_id'' = Some q" and "tenant_from_context_or_request reader q = Inr t"
  shows "serves_submission (in_uuid4 inb) r1 \<and>
    (\<exists>w2 res. run_worker (pg_ops db) (evaluator_score sleep timeout) sleep settings2 n True w =
      (Exited (Inr ()), True, w2) \<and> score_mock_response req = Inr res \<and>
    (\<forall>st2. repository (app_world st2) = repository w2 \<longrightarrow>
      (\<exists>r2 x2. service_app fw fa k settings (pg_ops db) fresh2 inb2 (get, st2) = (Inr r2, x2) \<and>
        (http_status r2 = 429 \<or> serves_result (in_uuid4 inb) t res r2))))"
proof -
  from sql_session.pg_submit_stored [OF assms(1-14)] obtain job where
    job: "job_id job = in_uuid4 inb" "request job = req" "tenant_id job = t" "claimable job"
      "pg_inv rows up (repository w)" "pg_view rows (repository w) (in_uuid4 inb) = Some job"
    and answer: "serves_submission (in_uuid4 inb) r1"
    using assms(15) by auto
  have due: "due c job" for c using job(4) by (simp add: due_def)
  from sql_session.pg_process_finishes [OF assms(1) job(5) assms(16-18) refl, of settings2] job(6) due
  obtain w2 j' res where w2: "run_worker (pg_ops db) (evaluator_score sleep timeout) sleep settings2 n True w =
      (Exited (Inr ()), True, w2)" "pg_inv rows up (repository w2)"
    and j': "pg_view rows (repository w2) (in_uuid4 inb) = Some j'" "owner_of j' = owner_of job"
      "status j' = SUCCEEDED" "score_mock_response req = Inr res" "result j' = Some res"
    using job(2) by metis
  have t: "tenant_id j' = t" using j'(2) job(3) by (simp add: owner_of_def)
  have v: "valid_EvaluationResult res" using j'(4) mock_result_valid [of req] by (simp add: mock_result)
  have p: "plain_text t"
    using assms(12) to_evaluation_request_Inr(2) [OF assms(11)] by (simp add: request_fits_def)
  have "\<exists>r2 x2. service_app fw fa k settings (pg_ops db) fresh2 inb2 (get, st2) = (Inr r2, x2) \<and>
      (http_status r2 = 429 \<or> serves_result (in_uuid4 inb) t res r2)"
    if st2: "repository (app_world st2) = repository w2" for st2
    using sql_session.pg_poll_succeeded [OF assms(1-3) _ _ assms(19-22), of st2 j' res fresh2] st2 w2(2) j'(1,3,5) v
      assms(23) p t by simp
  with answer w2(1) j'(4) show ?thesis by blast
qed

theorem submission_is_scored_and_served_witness:
  "\<exists>r1 x1 st1 n w2 r2 x2. service_app plain_framework plain_fastapi (demo_codec JNull) default_settings (pg_ops table_ops)
      ''fresh'' demo_inbound (post_scope, fresh_app []) = (Inr r1, x1, st1) \<and> http_status r1 = 202 \<and>
    run_worker (pg_ops table_ops) (evaluator_score prompt_sleep 5) prompt_sleep default_settings n True
      (world_init (repository (app_world st1)) demo_clock (\<lambda>n. of_nat n)) = (Exited (Inr ()), True, w2) \<and>
    service_app plain_framework plain_fastapi (demo_codec JNull) default_settings (pg_ops table_ops) ''fresh''
      (demo_inbound\<lparr>in_query := [(''tenant_id'', ''acme'')]\<rparr>) (job_scope 5, fresh_app (repository w2)) = (Inr r2, x2) \<and>
    http_status r2 \<in> {200, 429}"
proof -
  let ?inb2 = "demo_inbound\<lparr>in_query := [(''tenant_id'', ''acme'')]\<rparr>"
  have e: "pg_view table_rows [] i = None" for i by (simp add: pg_view_def table_rows_def domain_of_def)
  from table.pg_api.demo_post_status [OF demo_table_inv e] obtain r1 x1 st1 where
    p: "service_app plain_framework plain_fastapi (demo_codec JNull) default_settings (pg_ops table_ops)
      ''fresh'' demo_inbound (post_scope, fresh_app []) = (Inr r1, x1, st1)" "http_status r1 = 202"
    by auto
  let ?w = "world_init (repository (app_world st1)) demo_clock (\<lambda>n. of_nat n)"
  have i: "in_uuid4 demo_inbound = 5" by (simp add: demo_inbound_def)
  have w: "repository ?w = repository (app_world st1)" by (simp add: world_init_def)
  have g: "sc_method (job_scope 5) = ''GET''" "sc_path (job_scope 5) = job_path (in_uuid4 demo_inbound)"
    by (simp_all add: job_scope_def demo_scope_def i)
  have q: "query_text ?inb2 ''tenant_id'' = Some (Some ''acme'')"
    by (simp add: query_text_def query_value_def len_between_def)
  have fit: "request_fits plain_text demo_request"
    by (simp add: request_fits_def demo_request_def plain_text_def)
  have t: "tenant_from_context_or_request None (sub_tenant_id \<lparr>sub_tenant_id = Some ''acme'', sub_project_id = ''docs'',
      sub_question = ''What is caching?'', sub_answer = ''Caching keeps results.'', sub_rubric = None\<rparr>) = Inr ''acme''"
    "tenant_from_context_or_request None (Some ''acme'') = Inr ''acme''"
    by (simp_all add: tenant_from_context_or_request_def)
  have inv: "pg_inv table_rows table_up (repository (app_world (fresh_app [])))"
    "pg_view table_rows (repository (app_world (fresh_app []))) (in_uuid4 demo_inbound) = None" by simp_all
  have s: "fst (prompt_sleep (1 / 100) w) < 5" for w :: "EvaluationJobRow list world" by (simp add: prompt_sleep_def)
  from submission_is_scored_and_served [OF table.sql_session_axioms plain.starlette_axioms plain_api.fastapi_laws_axioms
      inv post_scope_simps demo_submit_args demo_context t(1) demo_request_accepted fit p w prompt_sleep_quiet s order_refl
      g demo_context q t(2), of default_settings "''fresh''"]
  obtain w2 res where w2: "run_worker (pg_ops table_ops) (evaluator_score prompt_sleep 5) prompt_sleep default_settings
      (card (open_ids (pg_view table_rows (repository ?w)))) True ?w = (Exited (Inr ()), True, w2)"
    and polls: "\<forall>st2. repository (app_world st2) = repository w2 \<longrightarrow>
      (\<exists>r2 x2. service_app plain_framework plain_fastapi (demo_codec JNull) default_settings (pg_ops table_ops) ''fresh''
          ?inb2 (job_scope 5, st2) = (Inr r2, x2) \<and>
        (http_status r2 = 429 \<or> serves_result (in_uuid4 demo_inbound) ''acme'' res r2))"
    by blast
  from polls [rule_format, OF fresh_app_repository [of "repository w2"]] obtain r2 x2 where
    "service_app plain_framework plain_fastapi (demo_codec JNull) default_settings (pg_ops table_ops) ''fresh''
       ?inb2 (job_scope 5, fresh_app (repository w2)) = (Inr r2, x2)" "http_status r2 \<in> {200, 429}"
    by (auto simp: serves_result_def)
  with p w2 show ?thesis by blast
qed

end
