(* ===== verification/Observability.thy ===== *)
theory Observability
  imports Runtime Config
begin

text \<open>
  \<^verbatim>\<open>app/core/logging.py\<close>: the JSON log formatter and the configuration of logging; and the
  configuration of tracing in \<^verbatim>\<open>app/core/tracing.py\<close>.

  A log call of the world is formatted when it is made, under the request identifier of its context.
  \<open>isoformat\<close> (of a UTC time), the text of a traceback, \<open>repr\<close> of an exception and \<open>json.dumps\<close> are
  arguments. OpenTelemetry is the parameter \<open>otel\<close>: the two exporters, setting the global provider,
  and instrumenting the application.
\<close>

subsection \<open>Log lines\<close>

record formats =
  isoformat :: "datetime \<Rightarrow> string"
  format_exception :: "exn \<Rightarrow> string"
  exn_repr :: "exn \<Rightarrow> string"
  dumps :: "json \<Rightarrow> string"

definition extra_json :: "formats \<Rightarrow> extra_value \<Rightarrow> json" where
  "extra_json f v = (case v of LStr s \<Rightarrow> JStr s | LInt n \<Rightarrow> JInt n | LRepr e \<Rightarrow> JStr (exn_repr f e))"

definition log_keys :: "string list" where
  "log_keys = [''tenant_id'', ''project_id'', ''job_id'', ''event_type'']"

text \<open>\<open>payload\<close> of \<open>JsonFormatter.format\<close>; a call's \<open>extra\<close> becomes attributes of the record, so
  \<open>hasattr\<close> is membership there.\<close>

definition log_payload :: "formats \<Rightarrow> datetime \<Rightarrow> string \<Rightarrow> string \<Rightarrow> log_call \<Rightarrow> (string \<times> json) list" where
  "log_payload f t request_id logger_name lc =
     (let base = [(''timestamp'', JStr (isoformat f t)), (''level'', JStr (log_level lc)),
                  (''logger'', JStr logger_name), (''message'', JStr (log_message lc)),
                  (''request_id'', JStr request_id)];
          exc = (case log_exc_info lc of
                   None \<Rightarrow> []
                 | Some e \<Rightarrow> [(''exception'', JStr (format_exception f e))]);
          extra = concat (map (\<lambda>key. case map_of (log_extra lc) key of
                                      None \<Rightarrow> []
                                    | Some v \<Rightarrow> [(key, extra_json f v)]) log_keys)
      in base @ exc @ extra)"

definition format_log :: "formats \<Rightarrow> datetime \<Rightarrow> string \<Rightarrow> string \<Rightarrow> log_call \<Rightarrow> string" where
  "format_log f t request_id logger_name lc =
     dumps f (JObj (log_payload f t request_id logger_name lc))"

text \<open>\<open>configure_logging\<close>: the level in upper case has to be one that \<open>logging\<close> knows; \<open>force\<close> replaces
  the handlers that were there. A handler is known by its formatter.\<close>

datatype handler_format = JsonFormatter | OtherFormatter

record root_logger =
  root_level :: string
  root_handlers :: "handler_format list"

definition level_names :: "string list" where
  "level_names = [''CRITICAL'', ''FATAL'', ''ERROR'', ''WARN'', ''WARNING'', ''INFO'', ''DEBUG'', ''NOTSET'']"

definition configure_logging :: "string \<Rightarrow> root_logger \<Rightarrow> (exn + unit) \<times> root_logger" where
  "configure_logging level lg =
     (let name = upper level;
          lg1 = lg\<lparr>root_handlers := [JsonFormatter]\<rparr>
      in if name \<in> set level_names then (Inr (), lg1\<lparr>root_level := name\<rparr>)
         else (Inl (ValueError (''Unknown level: '' @ [CHR 0x27] @ name @ [CHR 0x27])), lg1))"

subsection \<open>Tracing\<close>

record ('x, 't) otel =
  ConsoleSpanExporter :: 'x
  OTLPSpanExporter :: "string option \<Rightarrow> 'x"
  set_tracer_provider :: "string \<Rightarrow> 'x \<Rightarrow> 't \<Rightarrow> 't"
  instrument_app :: "string \<Rightarrow> 't \<Rightarrow> 't"

definition build_span_exporter ::
    "('x, 't) otel \<Rightarrow> otel_exporter_value \<Rightarrow> string option \<Rightarrow> exn + 'x" where
  "build_span_exporter T exporter endpoint =
     (case exporter of
        console \<Rightarrow> Inr (ConsoleSpanExporter T)
      | otlp \<Rightarrow>
          (case endpoint of
             Some e \<Rightarrow> if e \<noteq> [] then Inr (OTLPSpanExporter T (Some e)) else Inr (OTLPSpanExporter T None)
           | None \<Rightarrow> Inr (OTLPSpanExporter T None))
      | no_exporter \<Rightarrow> Inl (ValueError ''Unsupported OpenTelemetry exporter: none''))"

definition configure_tracing ::
    "('x, 't) otel \<Rightarrow> string \<Rightarrow> bool \<Rightarrow> otel_exporter_value \<Rightarrow> string option \<Rightarrow> 't \<Rightarrow> (exn + unit) \<times> 't" where
  "configure_tracing T service enabled exporter endpoint st =
     (if \<not> enabled \<or> exporter = no_exporter then (Inr (), st)
      else case build_span_exporter T exporter endpoint of
             Inl e \<Rightarrow> (Inl e, st)
           | Inr x \<Rightarrow> (Inr (), instrument_app T ''/health/live,/health/ready'' (set_tracer_provider T service x st)))"

definition configure_worker_tracing ::
    "('x, 't) otel \<Rightarrow> string \<Rightarrow> bool \<Rightarrow> otel_exporter_value \<Rightarrow> string option \<Rightarrow> 't \<Rightarrow> (exn + unit) \<times> 't" where
  "configure_worker_tracing T service enabled exporter endpoint st =
     (if \<not> enabled \<or> exporter = no_exporter then (Inr (), st)
      else case build_span_exporter T exporter endpoint of
             Inl e \<Rightarrow> (Inl e, st)
           | Inr x \<Rightarrow> (Inr (), set_tracer_provider T (service @ ''-worker'') x st))"

subsection \<open>Facts\<close>

lemma concat_option_keys:
  "map_of (concat (map (\<lambda>k. case g k of None \<Rightarrow> [] | Some v \<Rightarrow> [(k, f v)]) ks)) k =
     (if k \<in> set ks then map_option f (g k) else None)"
  by (induction ks) (auto split: option.split)

lemma configure_tracing_total:
  "fst (configure_tracing T service enabled exporter endpoint st) = Inr ()"
  "fst (configure_worker_tracing T service enabled exporter endpoint st) = Inr ()"
  by (cases exporter; cases endpoint;
      simp add: configure_tracing_def configure_worker_tracing_def build_span_exporter_def)+

definition base_keys :: "string list" where
  "base_keys = [''timestamp'', ''level'', ''logger'', ''message'', ''request_id'', ''exception'']"

lemma log_payload_lookup:
  "k \<notin> set base_keys \<Longrightarrow>
     map_of (log_payload f t rid name lc) k =
       (if k \<in> set log_keys then map_option (extra_json f) (map_of (log_extra lc) k) else None)"
  by (simp add: log_payload_def Let_def base_keys_def map_add_def concat_option_keys split: option.split)


definition demo_formats :: formats where
  "demo_formats = \<lparr>isoformat = (\<lambda>t. ''2026-05-24T00:00:00+00:00''), format_exception = (\<lambda>e. ''Traceback''),
     exn_repr = (\<lambda>e. ''TimeoutError()''), dumps = (\<lambda>j. [])\<rparr>"

definition demo_warning :: log_call where
  "demo_warning = \<lparr>log_level = ''WARNING'', log_message = ''recovered stale running jobs'',
     log_extra = [(''job_count'', LInt 3)], log_exc_info = None\<rparr>"


end
