(* ===== verification/Startup.thy ===== *)
theory Startup
  imports Deployment Observability
begin

text \<open>
  How the processes start: the beginning of \<open>run_worker\<close> and \<open>main\<close> in \<^verbatim>\<open>app/worker.py\<close>, and in
  \<^verbatim>\<open>app/main.py\<close> the module's own \<open>create_app()\<close> and the beginning of \<open>lifespan\<close>.

  A \<open>process_state\<close> is what start-up changes outside the service's own objects: the root logger and
  the global tracing. Start-up reads the environment through \<open>get_settings\<close> (the API process twice,
  when the module is imported and when the lifespan begins), and ends in the settings with a
  repository or in an exception, which ends the process. \<open>connect\<close> and \<open>create_tables\<close> are the
  constructor of the PostgreSQL repository and its \<open>init_schema\<close>.
\<close>

record 't process_state =
  ps_logger :: root_logger
  ps_tracing :: 't

subsection \<open>The worker process\<close>

text \<open>\<open>run_worker\<close> up to the repository.\<close>

definition worker_startup ::
    "pydantic \<Rightarrow> environment \<Rightarrow> ('x, 't) otel \<Rightarrow> (string \<Rightarrow> 'd) \<Rightarrow> ('d \<Rightarrow> exn + 'd) \<Rightarrow> 't process_state \<Rightarrow>
       (exn + Settings \<times> 'd built_repository) \<times> 't process_state" where
  "worker_startup P env T connect create_tables p =
     (case get_settings P env of
        Inl e \<Rightarrow> (Inl e, p)
      | Inr settings \<Rightarrow>
          (case configure_logging (log_level_setting settings) (ps_logger p) of
             (Inl e, lg) \<Rightarrow> (Inl e, p\<lparr>ps_logger := lg\<rparr>)
           | (Inr _, lg) \<Rightarrow>
               (case configure_worker_tracing T (service_name settings) (otel_enabled settings)
                       (otel_exporter settings) (otel_otlp_endpoint settings) (ps_tracing p) of
                  (Inl e, tr) \<Rightarrow> (Inl e, p\<lparr>ps_logger := lg, ps_tracing := tr\<rparr>)
                | (Inr _, tr) \<Rightarrow>
                    (map_sum id (Pair settings) (build_repository connect create_tables settings),
                     p\<lparr>ps_logger := lg, ps_tracing := tr\<rparr>))))"

text \<open>\<open>main\<close>: start-up, then the worker on the repository that was built, with an evaluator that has
  the timeout of the settings. The clocks are those of the process; \<open>passes\<close> and \<open>signalled\<close> are those
  of \<open>run_worker\<close>.\<close>

datatype 'd worker_process =
    NotStarted exn
  | OnMemory process_end bool "InMemoryJobRepository world"
  | OnPostgres process_end bool "'d world"

definition worker_main ::
    "pydantic \<Rightarrow> environment \<Rightarrow> ('x, 't) otel \<Rightarrow> (string \<Rightarrow> 'd) \<Rightarrow> ('d \<Rightarrow> exn + 'd) \<Rightarrow> 'd sql_ops \<Rightarrow>
       InMemoryJobRepository world sleep \<Rightarrow> 'd world sleep \<Rightarrow> clock \<Rightarrow> (nat \<Rightarrow> seconds) \<Rightarrow> nat \<Rightarrow> bool \<Rightarrow>
       't process_state \<Rightarrow> 'd worker_process \<times> 't process_state" where
  "worker_main P env T connect create_tables db mem_sleep pg_sleep clk pf passes signalled p =
     (case worker_startup P env T connect create_tables p of
        (Inl e, p1) \<Rightarrow> (NotStarted e, p1)
      | (Inr (settings, MemoryRepository s), p1) \<Rightarrow>
          (case run_worker mem_ops (evaluator_score mem_sleep (evaluator_timeout_seconds settings)) mem_sleep
                  settings passes signalled (world_init s clk pf) of
             (ended, done_close, w) \<Rightarrow> (OnMemory ended done_close w, p1))
      | (Inr (settings, PostgresRepository d), p1) \<Rightarrow>
          (case run_worker (pg_ops db) (evaluator_score pg_sleep (evaluator_timeout_seconds settings)) pg_sleep
                  settings passes signalled (world_init d clk pf) of
             (ended, done_close, w) \<Rightarrow> (OnPostgres ended done_close w, p1)))"

subsection \<open>The API process\<close>

text \<open>The module: \<open>app = create_app()\<close>, which ends with \<open>configure_tracing\<close>. The application is a
  function of what \<open>new_request_id()\<close> returns and of the request.\<close>

definition api_module ::
    "pydantic \<Rightarrow> environment \<Rightarrow> ('x, 't) otel \<Rightarrow> 's web_framework \<Rightarrow> 's fastapi \<Rightarrow> jwt_codec \<Rightarrow> 's repo_ops \<Rightarrow>
       't process_state \<Rightarrow> (exn + (string \<Rightarrow> inbound \<Rightarrow> 's endpoint)) \<times> 't process_state" where
  "api_module P env T fw fa k R p =
     (case get_settings P env of
        Inl e \<Rightarrow> (Inl e, p)
      | Inr settings \<Rightarrow>
          (case configure_tracing T (service_name settings) (otel_enabled settings) (otel_exporter settings)
                  (otel_otlp_endpoint settings) (ps_tracing p) of
             (Inl e, tr) \<Rightarrow> (Inl e, p\<lparr>ps_tracing := tr\<rparr>)
           | (Inr _, tr) \<Rightarrow> (Inr (service_app fw fa k settings R), p\<lparr>ps_tracing := tr\<rparr>)))"

text \<open>The beginning of \<open>lifespan\<close>, up to the repository.\<close>

definition lifespan_startup ::
    "pydantic \<Rightarrow> environment \<Rightarrow> (string \<Rightarrow> 'd) \<Rightarrow> ('d \<Rightarrow> exn + 'd) \<Rightarrow> 't process_state \<Rightarrow>
       (exn + Settings \<times> 'd built_repository) \<times> 't process_state" where
  "lifespan_startup P env connect create_tables p =
     (case get_settings P env of
        Inl e \<Rightarrow> (Inl e, p)
      | Inr settings \<Rightarrow>
          (case configure_logging (log_level_setting settings) (ps_logger p) of
             (Inl e, lg) \<Rightarrow> (Inl e, p\<lparr>ps_logger := lg\<rparr>)
           | (Inr _, lg) \<Rightarrow>
               (map_sum id (Pair settings) (build_repository connect create_tables settings),
                p\<lparr>ps_logger := lg\<rparr>)))"

text \<open>A server such as uvicorn: it imports the module, then enters the lifespan.\<close>

definition api_startup ::
    "pydantic \<Rightarrow> environment \<Rightarrow> ('x, 't) otel \<Rightarrow> 's web_framework \<Rightarrow> 's fastapi \<Rightarrow> jwt_codec \<Rightarrow> 's repo_ops \<Rightarrow>
       (string \<Rightarrow> 'd) \<Rightarrow> ('d \<Rightarrow> exn + 'd) \<Rightarrow> 't process_state \<Rightarrow>
       (exn + Settings \<times> 'd built_repository) \<times> 't process_state" where
  "api_startup P env T fw fa k R connect create_tables p =
     (case api_module P env T fw fa k R p of
        (Inl e, p1) \<Rightarrow> (Inl e, p1)
      | (Inr app, p1) \<Rightarrow> lifespan_startup P env connect create_tables p1)"

subsection \<open>When a process starts\<close>

lemma fst_eq_iff: "fst x = a \<longleftrightarrow> (\<exists>y. x = (a, y))"
  by (cases x) simp

lemma tracing_outcome:
  "\<exists>tr. configure_worker_tracing T service enabled exporter endpoint st = (Inr (), tr)"
  "\<exists>tr. configure_tracing T service enabled exporter endpoint st = (Inr (), tr)"
  using configure_tracing_total [of T service enabled exporter endpoint st] by (auto simp: fst_eq_iff)

text \<open>Both processes fail and succeed alike; only what they leave in logger and tracing differs.\<close>

lemma startups_agree:
  "fst (api_startup P env T fw fa k R connect create_tables p) = fst (worker_startup P env T connect create_tables p')"
proof (cases "get_settings P env")
  case (Inr s)
  obtain tr1 tr2 where
    "configure_tracing T (service_name s) (otel_enabled s) (otel_exporter s) (otel_otlp_endpoint s) (ps_tracing p) =
       (Inr (), tr1)"
    "configure_worker_tracing T (service_name s) (otel_enabled s) (otel_exporter s) (otel_otlp_endpoint s)
       (ps_tracing p') = (Inr (), tr2)"
    by (metis tracing_outcome)
  then show ?thesis
    by (simp add: api_startup_def api_module_def lifespan_startup_def worker_startup_def Inr configure_logging_def Let_def)
qed (simp add: api_startup_def api_module_def worker_startup_def)

lemma build_repository_Inr:
  "(\<exists>b. build_repository connect create_tables s = Inr b) \<longleftrightarrow>
     storage_backend s = ''memory'' \<or>
     storage_backend s = ''postgres'' \<and>
       (auto_create_schema s \<longrightarrow> (\<exists>d. create_tables (connect (database_url s)) = Inr d))"
  by (cases "create_tables (connect (database_url s))") (auto simp: build_repository_def Let_def)

lemma worker_tracing_result:
  "if enabled \<and> exporter \<noteq> no_exporter
   then \<exists>x. snd (configure_worker_tracing T service enabled exporter endpoint st) =
          set_tracer_provider T (service @ ''-worker'') x st
   else snd (configure_worker_tracing T service enabled exporter endpoint st) = st"
  by (cases exporter) (auto simp: configure_worker_tracing_def build_span_exporter_def split: option.split)

lemma worker_startup_Inr:
  "worker_startup P env T connect create_tables p = (Inr (s, b), p1) \<longleftrightarrow>
     get_settings P env = Inr s \<and> upper (log_level_setting s) \<in> set level_names \<and>
     build_repository connect create_tables s = Inr b \<and>
     p1 = \<lparr>ps_logger = \<lparr>root_level = upper (log_level_setting s), root_handlers = [JsonFormatter]\<rparr>,
           ps_tracing = snd (configure_worker_tracing T (service_name s) (otel_enabled s) (otel_exporter s)
             (otel_otlp_endpoint s) (ps_tracing p))\<rparr>"
proof (cases "get_settings P env")
  case (Inr s')
  obtain tr where
    "configure_worker_tracing T (service_name s') (otel_enabled s') (otel_exporter s') (otel_otlp_endpoint s')
       (ps_tracing p) = (Inr (), tr)"
    by (metis tracing_outcome(1))
  then show ?thesis
    by (cases "build_repository connect create_tables s'")
      (auto simp: worker_startup_def Inr configure_logging_def Let_def)
qed (simp add: worker_startup_def)


definition demo_otel :: "(string, string list) otel" where
  "demo_otel =
     \<lparr>ConsoleSpanExporter = ''console'', OTLPSpanExporter = (\<lambda>e. case e of None \<Rightarrow> ''otlp'' | Some u \<Rightarrow> u),
      set_tracer_provider = (\<lambda>service x log. log @ [service]), instrument_app = (\<lambda>urls log. log @ [urls])\<rparr>"

definition demo_process :: "string list process_state" where
  "demo_process = \<lparr>ps_logger = \<lparr>root_level = ''WARNING'', root_handlers = []\<rparr>, ps_tracing = []\<rparr>"

text \<open>The defaults, and an environment that asks for the in-memory repository.\<close>

definition memory_environment :: environment where
  "memory_environment = \<lparr>environ = [(''APP_STORAGE_BACKEND'', ''memory'')], dotenv = []\<rparr>"

lemma default_settings_read [simp]: "get_settings P no_variables = Inr default_settings"
  by (rule get_settings_unset) (simp add: no_variables_def env_value_def lookup_name_def)

lemma memory_settings_read:
  "get_settings P memory_environment = Inr (default_settings\<lparr>storage_backend := ''memory''\<rparr>)"
proof -
  have "lower ''APP_STORAGE_BACKEND'' = ''app_storage_backend''" by code_simp
  then have v: "env_value memory_environment name = (if name = ''storage_backend'' then Some ''memory'' else None)" for name
    by (auto simp: env_value_def lookup_name_def memory_environment_def)
  show ?thesis
    by (simp add: get_settings_def v read_origins_unset with_field_def read_field_def default_settings_def)
qed


subsection \<open>The worker from its environment\<close>

text \<open>A worker on an empty repository of its own finds nothing, pass after pass.\<close>

lemma empty_iteration:
  assumes "repository w = mem_init" and "quiet_sleep sleep"
  shows "\<exists>w'. worker_iteration mem_ops sc sleep k w = (Inr (), w') \<and> repository w' = mem_init"
  using assms
  by (simp add: worker_iteration_def Let_def call_def mem_recover_stale_running_def mem_claim_next_queued_def
      mem_init_def quiet_sleep_def split_beta)

lemma empty_loop:
  assumes "repository w = mem_init" and "quiet_sleep sleep"
  shows "\<exists>w'. worker_loop mem_ops sc sleep k (replicate n False) w = (WorkerRunning, w') \<and> repository w' = mem_init"
  using assms(1)
proof (induction n arbitrary: w)
  case (Suc n)
  from empty_iteration [OF Suc.prems assms(2), of sc k] Suc.IH show ?case by auto
qed simp

lemma empty_worker:
  assumes "repository w = mem_init" and "quiet_sleep sleep"
  shows "\<exists>w'. run_worker mem_ops sc sleep settings n True w = (Exited (Inr ()), True, w') \<and> repository w' = mem_init"
proof -
  from empty_loop [of "emit_log ''INFO'' ''evaluation worker started'' [] None
      (emit_log ''INFO'' ''worker process started'' [] None w)" sleep sc "worker_start (new_worker settings)" n] assms
  obtain w' where "worker_loop mem_ops sc sleep (worker_start (new_worker settings)) (replicate n False)
      (emit_log ''INFO'' ''evaluation worker started'' [] None (emit_log ''INFO'' ''worker process started'' [] None w)) =
        (WorkerRunning, w')" "repository w' = mem_init" by auto
  then show ?thesis
    by (simp add: run_worker_def worker_run_def worker_loop_append Let_def worker_stop_def worker_start_def new_worker_def)
qed

text \<open>C11. The worker process from its environment to its end. When the settings name PostgreSQL, it
  connects to the URL of the settings, and if evaluations finish within the timeout of the settings
  and nobody else changes the table, then after as many passes as there are open jobs a stop signal
  ends it without an error and with the repository closed, and every job that was due at the start
  belongs to the same tenant with the same request and has succeeded with the mock score of that
  request. When they name the in-memory repository, the worker starts all the same, on an empty
  repository of its own, never works on a job and leaves just as cleanly.\<close>

theorem worker_main_outcome:
  assumes "get_settings P env = Inr s" and "upper (log_level_setting s) \<in> set level_names"
    and "quiet_sleep mem_sleep" and "quiet_sleep pg_sleep"
    and "sql_session db rows up" and "\<And>w. fst (pg_sleep (1 / 100) w) < evaluator_timeout_seconds s"
    and "auto_create_schema s \<Longrightarrow> create_tables (connect (database_url s)) = Inr d"
    and "\<not> auto_create_schema s \<Longrightarrow> connect (database_url s) = d"
    and "pg_inv rows up d" and "card (open_ids (pg_view rows d)) \<le> n"
    and "cutoff = clk 0 - timedelta_seconds (worker_stale_job_seconds s)"
  shows "(storage_backend s = ''postgres'' \<longrightarrow>
      (\<exists>w p1. worker_main P env T connect create_tables db mem_sleep pg_sleep clk pf n True p =
          (OnPostgres (Exited (Inr ())) True w, p1) \<and> pg_inv rows up (repository w) \<and>
        (\<forall>i j. pg_view rows d i = Some j \<and> due cutoff j \<longrightarrow>
           (\<exists>j'. pg_view rows (repository w) i = Some j' \<and> owner_of j' = owner_of j \<and> status j' = SUCCEEDED \<and>
                 (\<exists>x. score_mock_response (request j) = Inr x \<and> result j' = Some x))))) \<and>
    (storage_backend s = ''memory'' \<longrightarrow>
      (\<exists>w p1. worker_main P env T connect create_tables db mem_sleep pg_sleep clk pf n True p =
          (OnMemory (Exited (Inr ())) True w, p1) \<and> repository w = mem_init))"
proof (intro conjI impI)
  assume pg: "storage_backend s = ''postgres''"
  then have "build_repository connect create_tables s = Inr (PostgresRepository d)"
    using assms(7,8) by (cases "auto_create_schema s") (simp_all add: build_repository_def)
  then obtain p1 where st: "worker_startup P env T connect create_tables p = (Inr (s, PostgresRepository d), p1)"
    using assms(1,2) by (simp add: worker_startup_Inr)
  have w: "repository (world_init d clk pf) = d" "wall (world_init d clk pf) = clk"
    by (simp_all add: world_init_def)
  from sql_session.pg_process_finishes [OF assms(5), of "world_init d clk pf" pg_sleep "evaluator_timeout_seconds s" n cutoff s]
    assms(4,6,9,10,11)
  show "\<exists>w p1. worker_main P env T connect create_tables db mem_sleep pg_sleep clk pf n True p =
          (OnPostgres (Exited (Inr ())) True w, p1) \<and> pg_inv rows up (repository w) \<and>
        (\<forall>i j. pg_view rows d i = Some j \<and> due cutoff j \<longrightarrow>
           (\<exists>j'. pg_view rows (repository w) i = Some j' \<and> owner_of j' = owner_of j \<and> status j' = SUCCEEDED \<and>
                 (\<exists>x. score_mock_response (request j) = Inr x \<and> result j' = Some x)))"
    unfolding w by (auto simp: worker_main_def st)
next
  assume mem: "storage_backend s = ''memory''"
  then obtain p1 where st: "worker_startup P env T connect create_tables p = (Inr (s, MemoryRepository mem_init), p1)"
    using assms(1,2) by (simp add: worker_startup_Inr build_repository_def)
  from empty_worker [of "world_init mem_init clk pf" mem_sleep
      "evaluator_score mem_sleep (evaluator_timeout_seconds s)" s n] assms(3)
  show "\<exists>w p1. worker_main P env T connect create_tables db mem_sleep pg_sleep clk pf n True p =
          (OnMemory (Exited (Inr ())) True w, p1) \<and> repository w = mem_init"
    by (auto simp: worker_main_def st world_init_def)
qed

text \<open>On the table of \<open>demo_pg\<close> and on memory.\<close>

theorem worker_main_outcome_witness:
  "(\<exists>w p1 j'. worker_main demo_pydantic no_variables demo_otel (\<lambda>url. demo_pg) Inr table_ops prompt_sleep prompt_sleep
        demo_clock (\<lambda>n. of_nat n) 1 True demo_process = (OnPostgres (Exited (Inr ())) True w, p1) \<and>
      pg_view table_rows (repository w) 1 = Some j' \<and> status j' = SUCCEEDED) \<and>
   (\<exists>w p1. worker_main demo_pydantic memory_environment demo_otel (\<lambda>url. demo_pg) Inr table_ops prompt_sleep prompt_sleep
        demo_clock (\<lambda>n. of_nat n) 1 True demo_process = (OnMemory (Exited (Inr ())) True w, p1) \<and>
      repository w = mem_init)"
proof -
  have due: "due c (demo_job 1 20)" for c by (simp add: due_def claimable_def demo_job_def)
  have l: "upper ''INFO'' \<in> set level_names" by code_simp
  have one: "card (open_ids (pg_view table_rows demo_pg)) \<le> 1" by (rule demo_pg_facts(3))
  note main = worker_main_outcome [where P = demo_pydantic and T = demo_otel and connect = "\<lambda>url. demo_pg"
      and create_tables = Inr and p = demo_process and pf = "\<lambda>n. of_nat n" and clk = demo_clock and n = 1
      and d = demo_pg and mem_sleep = prompt_sleep and pg_sleep = prompt_sleep, OF _ _ _ _ table.sql_session_axioms]
  have "\<exists>w p1. worker_main demo_pydantic no_variables demo_otel (\<lambda>url. demo_pg) Inr table_ops prompt_sleep prompt_sleep
        demo_clock (\<lambda>n. of_nat n) 1 True demo_process = (OnPostgres (Exited (Inr ())) True w, p1) \<and>
      pg_inv table_rows table_up (repository w) \<and>
      (\<forall>i j. pg_view table_rows demo_pg i = Some j \<and>
          due (demo_clock 0 - timedelta_seconds (worker_stale_job_seconds default_settings)) j \<longrightarrow>
         (\<exists>j'. pg_view table_rows (repository w) i = Some j' \<and> owner_of j' = owner_of j \<and> status j' = SUCCEEDED \<and>
               (\<exists>x. score_mock_response (request j) = Inr x \<and> result j' = Some x)))"
    by (rule main [THEN conjunct1, rule_format, of no_variables default_settings])
      (use l one in \<open>simp_all add: demo_pg_facts(1) prompt_sleep_def [of "1 / 100"]\<close>,
       simp_all add: default_settings_def)
  moreover have "\<exists>w p1. worker_main demo_pydantic memory_environment demo_otel (\<lambda>url. demo_pg) Inr table_ops prompt_sleep prompt_sleep
        demo_clock (\<lambda>n. of_nat n) 1 True demo_process = (OnMemory (Exited (Inr ())) True w, p1) \<and>
      repository w = mem_init"
    by (rule main [THEN conjunct2, rule_format, OF memory_settings_read])
      (use l one in \<open>simp_all add: demo_pg_facts(1) prompt_sleep_def [of "1 / 100"]\<close>,
       simp_all add: default_settings_def)
  ultimately show ?thesis using demo_pg_facts(2) due by blast
qed

subsection \<open>The OpenAPI export\<close>

text \<open>\<^verbatim>\<open>scripts/export_openapi.py\<close>: it turns tracing off unless the environment says otherwise, imports
  \<^verbatim>\<open>app.main\<close>, which creates an application, creates another one and writes the schema that FastAPI
  derives from it. \<open>openapi\<close> and \<open>json_text\<close> (\<open>json.dumps\<close> with indentation and sorted keys) are
  arguments; files are their text by path.\<close>

definition environ_setdefault :: "string \<Rightarrow> string \<Rightarrow> environment \<Rightarrow> environment" where
  "environ_setdefault name v env =
     (if name \<in> fst ` set (environ env) then env else env\<lparr>environ := environ env @ [(name, v)]\<rparr>)"

definition export_openapi ::
    "pydantic \<Rightarrow> environment \<Rightarrow> ('x, 't) otel \<Rightarrow> 's web_framework \<Rightarrow> 's fastapi \<Rightarrow> jwt_codec \<Rightarrow> 's repo_ops \<Rightarrow>
       ((string \<Rightarrow> inbound \<Rightarrow> 's endpoint) \<Rightarrow> json) \<Rightarrow> (json \<Rightarrow> string) \<Rightarrow> (string \<rightharpoonup> string) \<Rightarrow> 't process_state \<Rightarrow>
       (exn + unit) \<times> (string \<rightharpoonup> string) \<times> 't process_state" where
  "export_openapi P env T fw fa k R openapi json_text files p =
     (let env1 = environ_setdefault ''APP_OTEL_ENABLED'' ''false'' env
      in case api_module P env1 T fw fa k R p of
           (Inl e, p1) \<Rightarrow> (Inl e, files, p1)
         | (Inr main_app, p1) \<Rightarrow>
             (case api_module P env1 T fw fa k R p1 of
                (Inl e, p2) \<Rightarrow> (Inl e, files, p2)
              | (Inr app, p2) \<Rightarrow>
                  (Inr (), files(''openapi/openapi.json'' \<mapsto> json_text (openapi app) @ [CHR 0x0A]), p2)))"

text \<open>Without a variable of its own the export leaves tracing alone, whatever \<^verbatim>\<open>.env\<close> says, and writes
  the schema of the application that the same settings give.\<close>

lemma setdefault_value:
  assumes "\<And>v. (''APP_OTEL_ENABLED'', v) \<notin> set (environ env)"
  shows "env_value (environ_setdefault ''APP_OTEL_ENABLED'' v env) ''otel_enabled'' = Some v"
proof -
  have "lower ''APP_OTEL_ENABLED'' = ''app_otel_enabled''" by code_simp
  with assms show ?thesis
    by (auto simp: environ_setdefault_def env_value_def lookup_name_def)
qed

lemma export_untraced:
  assumes "\<And>v. (''APP_OTEL_ENABLED'', v) \<notin> set (environ env)" and "parse_bool P ''false'' = Some False"
    and s: "get_settings P (environ_setdefault ''APP_OTEL_ENABLED'' ''false'' env) = Inr s"
  shows "export_openapi P env T fw fa k R openapi json_text files p =
    (Inr (), files(''openapi/openapi.json'' \<mapsto> json_text (openapi (service_app fw fa k s R)) @ [CHR 0x0A]), p)"
proof -
  have "\<not> otel_enabled s"
    using get_settings_otel [OF s] setdefault_value [OF assms(1), of "''false''"] assms(2)
    by (simp add: read_field_def)
  then have "api_module P (environ_setdefault ''APP_OTEL_ENABLED'' ''false'' env) T fw fa k R p =
      (Inr (service_app fw fa k s R), p)" for p :: "'a process_state"
    by (simp add: api_module_def s configure_tracing_def)
  then show ?thesis by (simp add: export_openapi_def Let_def)
qed

end
