(* ===== verification/Combined.thy ===== *)
theory Combined
  imports HttpService
begin

text \<open>
  The combined role: the API process works on its own in-memory queue (\<^verbatim>\<open>app/main.py\<close> with
  \<^verbatim>\<open>app/services/queue.py\<close>). The consumer calls \<open>EvaluationJobService.process\<close> for one identifier
  after the other.

  The first lemmas are a frame rule for \<open>process\<close>: whatever becomes of the identifier it is called
  with, no other job changes. The property follows a submission from its HTTP request through the
  backlog to the response that serves its result.
\<close>

subsection \<open>Processing one job leaves the others alone\<close>

text \<open>An evaluator that gives only valid results, and leaves the repository alone.\<close>

definition valid_scorer :: "(string \<Rightarrow> bool) \<Rightarrow> 's scorer \<Rightarrow> bool" where
  "valid_scorer fits sc \<longleftrightarrow>
     (\<forall>req w res. fst (sc req w) = Inr res \<longrightarrow> valid_EvaluationResult res \<and> fits (justification res))"

definition kept_except :: "('s \<Rightarrow> store) \<Rightarrow> ('s \<Rightarrow> bool) \<Rightarrow> uuid \<Rightarrow> 's world \<Rightarrow> 's world \<Rightarrow> bool" where
  "kept_except view invar i w w' \<longleftrightarrow>
     invar (repository w') \<and> (\<forall>k. k \<noteq> i \<longrightarrow> view (repository w') k = view (repository w) k)"

lemma kept_except_trans [trans]:
  "kept_except view invar i w w1 \<Longrightarrow> kept_except view invar i w1 w2 \<Longrightarrow> kept_except view invar i w w2"
  by (simp add: kept_except_def)

lemma kept_except_same: "invar (repository w) \<Longrightarrow> repository w' = repository w \<Longrightarrow> kept_except view invar i w w'"
  by (simp add: kept_except_def)

lemma kept_exceptD: "kept_except view invar i w w' \<Longrightarrow> invar (repository w')"
  by (simp add: kept_except_def)

context job_service
begin

lemma set_running_kept:
  assumes "invar (repository w)"
  shows "kept_except view invar i w (snd (call (set_running_op ops i) w))"
proof (cases "view (repository w) i")
  case None
  with set_running_missing [OF assms] assms show ?thesis by (simp add: call_eq kept_except_def)
next
  case (Some j)
  show ?thesis
  proof (cases "status j = QUEUED")
    case True
    from set_running_law [OF assms Some True, of "wall w"] show ?thesis by (auto simp: call_eq kept_except_def)
  qed (use set_running_rejected [OF assms Some] assms in \<open>simp add: call_eq kept_except_def\<close>)
qed

lemma set_succeeded_kept:
  assumes "invar (repository w)" and "valid_EvaluationResult r" and "fits (justification r)"
  shows "kept_except view invar i w (snd (call (set_succeeded_op ops i r) w))"
proof (cases "view (repository w) i")
  case None
  with set_succeeded_missing [OF assms(1)] assms(1) show ?thesis by (simp add: call_eq kept_except_def)
next
  case (Some j)
  show ?thesis
  proof (cases "status j = RUNNING")
    case True
    from set_succeeded_law [OF assms(1) Some True assms(2,3), of "wall w"] show ?thesis
      by (auto simp: call_eq kept_except_def)
  qed (use set_succeeded_rejected [OF assms(1) Some] assms(1) in \<open>simp add: call_eq kept_except_def\<close>)
qed

lemma set_failed_kept:
  assumes "invar (repository w)" and "fits m"
  shows "kept_except view invar i w (snd (call (set_failed_op ops i m) w))"
proof (cases "view (repository w) i")
  case None
  with set_failed_missing [OF assms(1)] assms(1) show ?thesis by (simp add: call_eq kept_except_def)
next
  case (Some j)
  show ?thesis
  proof (cases "final j")
    case False
    from set_failed_law [OF assms(1) Some False assms(2), of "wall w"] show ?thesis
      by (auto simp: call_eq kept_except_def)
  qed (use set_failed_rejected [OF assms(1) Some] assms(1) in \<open>simp add: call_eq kept_except_def\<close>)
qed

lemma reraise_failure_kept:
  assumes "invar (repository w)" and "job_id job = i"
  shows "kept_except view invar i w (snd (reraise_failure ops i job e w))"
proof -
  have "repository (snd (reraise_failure ops i job e w)) =
      repository (snd (call (set_failed_op ops i ''Evaluation failed.'') w))"
    using assms(2) by (simp add: reraise_failure_def record_failure_def split: prod.split sum.split)
  with set_failed_kept [OF assms(1) failure_message_fits, of i] show ?thesis by (simp add: kept_except_def)
qed

lemma score_and_store_kept:
  assumes "invar (repository w)" and "quiet_scorer sc" and "valid_scorer fits sc"
  shows "kept_except view invar i w (snd (score_and_store ops sc i job w))"
proof -
  define w1 where "w1 = audit_record ''evaluation.job_running'' (tenant_id job) (project_id job) (uuid_str i) [] w"
  obtain r w2 where sc: "sc (request job) w1 = (r, w2)" by (cases "sc (request job) w1")
  have w2: "repository w2 = repository w"
    using assms(2) sc unfolding quiet_scorer_def w1_def by (metis repository_frame(4) snd_conv)
  show ?thesis
  proof (cases r)
    case (Inl e)
    with sc w2 assms(1) show ?thesis
      by (simp add: score_and_store_def w1_def [symmetric] Let_def kept_except_def)
  next
    case (Inr res)
    then have v: "valid_EvaluationResult res" "fits (justification res)"
      using assms(3) sc unfolding valid_scorer_def by (metis fst_conv)+
    have "repository (snd (score_and_store ops sc i job w)) = repository (snd (call (set_succeeded_op ops i res) w2))"
      using sc Inr by (simp add: score_and_store_def w1_def [symmetric] Let_def split: prod.split sum.split)
    with set_succeeded_kept [of w2, OF _ v, of i] w2 assms(1) show ?thesis by (simp add: kept_except_def)
  qed
qed

lemma process_kept:
  assumes inv: "invar (repository w)" and sc: "quiet_scorer sc" "valid_scorer fits sc"
  shows "kept_except view invar i w (snd (process ops sc i w))"
proof (cases "view (repository w) i")
  case None
  with process_missing [OF inv None, of sc] inv show ?thesis by (simp add: kept_except_def)
next
  case (Some job)
  have id: "job_id job = i" using inv Some by (rule view_key)
  define w1 where "w1 = traced_span ''job.process'' (job_attributes (tenant_id job) (project_id job) i) w"
  have w1: "invar (repository w1)" "kept_except view invar i w w1" using inv by (simp_all add: w1_def kept_except_def)
  obtain r w2 where c: "call (set_running_op ops i) w1 = (r, w2)" by (cases "call (set_running_op ops i) w1")
  have w2: "kept_except view invar i w w2"
    using kept_except_trans [OF w1(2) set_running_kept [OF w1(1), of i]] c by simp
  obtain r3 w3 where s: "score_and_store ops sc i job w2 = (r3, w3)" by (cases "score_and_store ops sc i job w2")
  have w3: "kept_except view invar i w w3"
    using kept_except_trans [OF w2 score_and_store_kept [OF kept_exceptD [OF w2] sc, of i job]] s by simp
  have fails: "kept_except view invar i w (snd (reraise_failure ops i job e w'))" if "kept_except view invar i w w'" for w' e
    using kept_except_trans [OF that reraise_failure_kept [OF kept_exceptD [OF that] id]] .
  show ?thesis
    using fails [OF w2] fails [OF w3] w3 c s inv Some
    by (auto simp: process_def get_law w1_def [symmetric] Let_def split: sum.split)
qed

end

text \<open>The queue is none of its business.\<close>

definition queue_quiet :: "'s scorer \<Rightarrow> bool" where
  "queue_quiet sc \<longleftrightarrow> (\<forall>req w. queue (snd (sc req w)) = queue w)"

lemma queue_call: "call f w = (r, w') \<Longrightarrow> queue w' = queue w"
  by (auto simp: call_def split: prod.splits)

lemma queue_record_failure [simp]: "queue (record_failure R job m e w) = queue w"
  by (auto simp: record_failure_def dest: queue_call split: prod.splits sum.splits)

lemma score_and_store_queue:
  assumes "queue_quiet sc"
  shows "queue (snd (score_and_store R sc i job w)) = queue w"
proof -
  define w1 where "w1 = audit_record ''evaluation.job_running'' (tenant_id job) (project_id job) (uuid_str i) [] w"
  obtain r w2 where sc: "sc (request job) w1 = (r, w2)" by (cases "sc (request job) w1")
  have "queue w2 = queue w"
    using assms sc unfolding queue_quiet_def w1_def by (metis queue_frame(4) snd_conv)
  with sc show ?thesis
    by (auto simp: score_and_store_def w1_def [symmetric] Let_def dest: queue_call split: prod.splits sum.splits)
qed

lemma process_queue:
  assumes "queue_quiet sc"
  shows "queue (snd (process R sc i w)) = queue w"
proof -
  have "queue w' = queue w0" if "score_and_store R sc i job w0 = (r, w')" for job w0 r w'
    using score_and_store_queue [OF assms, of R i job w0] that by simp
  then show ?thesis
    by (auto simp: process_def reraise_failure_def Let_def dest: queue_call split: prod.splits sum.splits)
qed

lemma evaluator_queue_quiet:
  assumes "\<And>d w. queue (snd (sleep d w)) = queue w"
  shows "queue_quiet (evaluator_score sleep timeout)"
  unfolding queue_quiet_def
proof (intro allI)
  fix req w
  show "queue (snd (evaluator_score sleep timeout req w)) = queue w"
    by (rule evaluator_score_preserves [OF surjective_pairing, where P = "\<lambda>x. queue x = queue w"])
      (use assms in auto)
qed

lemma evaluator_valid:
  assumes "\<And>m. CHR 0x00 \<notin> set m \<Longrightarrow> fits m"
  shows "valid_scorer fits (evaluator_score sleep timeout)"
  unfolding valid_scorer_def evaluator_score_outcome mock_result
  by (auto simp: Let_def mock_result_valid assms split: prod.splits if_splits)

subsection \<open>A backlog\<close>

text \<open>While the consumer sleeps in an evaluation, nobody else uses the service.\<close>

definition idle_sleep :: "'s world sleep \<Rightarrow> bool" where
  "idle_sleep sleep \<longleftrightarrow>
     (\<forall>d w. repository (snd (sleep d w)) = repository w \<and> queue (snd (sleep d w)) = queue w \<and>
            audit_events (snd (sleep d w)) = audit_events w)"

lemma idle_sleep_quiet: "idle_sleep sleep \<Longrightarrow> quiet_sleep sleep"
  by (simp add: idle_sleep_def quiet_sleep_def)

lemma idle_sleep_considerate: "idle_sleep sleep \<Longrightarrow> considerate view invar i sleep"
  by (simp add: idle_sleep_def considerate_def events_of_def)

lemma set_task_simps [simp]: "repository (set_task t w) = repository w"
  "queue_items (queue (set_task t w)) = queue_items (queue w)" "queue_task (queue (set_task t w)) = t"
  "queue_stopping (queue (set_task t w)) = queue_stopping (queue w)"
  by (simp_all add: set_task_def)

lemma one_round_repository:
  "repository (one_round handler i w) = repository (snd (handler i (set_task (TaskHandling i) (pop_item w))))"
  by (auto simp: one_round_def handle_item_def finish_item_def set_task_def Let_def split: prod.split sum.split)

lemma run_waiting:
  assumes "queue_task (queue w) \<in> {TaskLooping, TaskWaiting}" and "\<not> queue_stopping (queue w)"
    and "queue_items (queue w) \<noteq> []"
  shows "queue_run handler (Suc n) w = queue_run handler (Suc n) (set_task TaskLooping w)"
  using assms
  by (cases "queue_items (queue w)")
    (auto simp: queue_step_def take_item_def set_task_def pop_item_def finish_item_def Let_def qsize_def with_metrics_def
      split: option.split)

context job_service
begin

text \<open>The consumer works through identifiers of other jobs, whatever becomes of them.\<close>

lemma backlog_kept:
  assumes "quiet_scorer sc" and "valid_scorer fits sc" and "i \<notin> set ids" and "invar (repository w)"
  shows "invar (repository (fold (one_round (process ops sc)) ids w)) \<and>
    view (repository (fold (one_round (process ops sc)) ids w)) i = view (repository w) i"
  using assms(3,4)
proof (induction ids arbitrary: w)
  case (Cons k ids)
  let ?w = "set_task (TaskHandling k) (pop_item w)"
  have r: "repository ?w = repository w" by (simp add: set_task_def pop_item_def)
  with process_kept [OF _ assms(1,2), of ?w k] Cons.prems
  have "invar (repository (one_round (process ops sc) k w))"
    "view (repository (one_round (process ops sc) k w)) i = view (repository w) i"
    by (auto simp: one_round_repository kept_except_def)
  with Cons.IH [of "one_round (process ops sc) k w"] Cons.prems(1) show ?case by simp
qed simp

lemma backlog_then_job:
  assumes idle: "idle_sleep sleep" and time: "\<And>w. fst (sleep (1 / 100) w) < timeout"
    and inv: "invar (repository w)" and v: "view (repository w) i = Some j" and q: "status j = QUEUED"
    and task: "queue_task (queue w) \<in> {TaskLooping, TaskWaiting}" and st: "\<not> queue_stopping (queue w)"
    and items: "queue_items (queue w) = map Some (ids @ [i])" and i: "i \<notin> set ids"
  shows "\<exists>w' j'. queue_run (process ops (evaluator_score sleep timeout)) (2 * length ids + 3) w = w' \<and>
    invar (repository w') \<and> view (repository w') i = Some j' \<and> owner_of j' = owner_of j \<and> status j' = SUCCEEDED \<and>
    result j' = Some (mock_result (request j)) \<and> queue_items (queue w') = [] \<and> queue_task (queue w') = TaskWaiting"
proof -
  let ?h = "process ops (evaluator_score sleep timeout)" and ?w = "set_task TaskLooping w"
  let ?w1 = "fold (one_round ?h) ids ?w"
  have hq: "queue (snd (?h k w)) = queue w" for k w
    using idle by (intro process_queue evaluator_queue_quiet) (simp add: idle_sleep_def)
  have qs: "quiet_scorer (evaluator_score sleep timeout)" by (rule evaluator_quiet [OF idle_sleep_quiet [OF idle]])
  have run: "queue_run ?h (2 * length ids + 3) w = set_task TaskWaiting (one_round ?h i ?w1)"
    and empty: "queue_items (queue (one_round ?h i ?w1)) = []"
    using queue_run_drains [of ?h ?w "ids @ [i]", OF hq] run_waiting [OF task st, of ?h "2 * length ids + 2"] items st
    by (simp_all add: set_task_def eval_nat_numeral del: queue_run.simps)
  from backlog_kept [OF qs evaluator_valid [OF fits_plain] i, where w = ?w] inv v
  have w1: "invar (repository ?w1)" "view (repository ?w1) i = Some j" by (simp_all add: set_task_def)
  let ?w2 = "set_task (TaskHandling i) (pop_item ?w1)"
  have r2: "repository ?w2 = repository ?w1" by (simp add: set_task_def pop_item_def)
  have und: "undisturbed view invar i (request j) (evaluator_score sleep timeout)"
    by (rule evaluator_undisturbed [OF idle_sleep_considerate [OF idle]])
  have res: "fst (evaluator_score sleep timeout (request j) w) = Inr (mock_result (request j))" for w
    using evaluator_score_in_time [of sleep timeout "request j" w] time by (simp add: mock_result)
  from process_succeeds [OF _ _ q und res mock_result_valid, of ?w2] w1 r2 fits_plain
  obtain t0 t where "invar (repository (snd (?h i ?w2)))"
    "view (repository (snd (?h i ?w2))) i =
      Some (succeeded (mock_result (request j)) (settle (claimed_at j)) t (started t0 j))"
    by auto
  then show ?thesis
    by (simp add: run empty one_round_repository succeeded_def started_def owner_of_def)
qed

end

subsection \<open>From a submission to its result\<close>

text \<open>C2. In the combined role the service does what it is for, without a worker: a request that is
  accepted with 202 is scored by the queue's consumer once it has worked off the backlog before it,
  whatever becomes of the jobs in that backlog, if evaluations finish in time and nobody else uses
  the service meanwhile; the consumer then waits for the next identifier with an empty queue, and the
  tenant gets, at the path of the returned identifier, the job succeeded with exactly the mock score
  of the request, unless the rate limit turns the poll away. Two advances per waiting job and three
  for this one are enough.\<close>

theorem combined_submission_is_served:
  assumes "starlette fw" and "fastapi_laws fa"
    and "mem_inv (repository (app_world st))" and "mem_view (repository (app_world st)) (in_uuid4 inb) = None"
    and "queue_items (queue (app_world st)) = map Some ids" and "in_uuid4 inb \<notin> set ids"
    and "queue_task (queue (app_world st)) \<in> {TaskLooping, TaskWaiting}" and "\<not> queue_stopping (queue (app_world st))"
    and "sc_method post = ''POST''" and "sc_path post = ''/v1/evaluations''"
    and "submit_args inb = Some payload"
    and "get_request_context k settings (in_now inb) (in_authorization inb) = Inr ctx"
    and "tenant_from_context_or_request ctx (sub_tenant_id payload) = Inr t"
    and "to_evaluation_request payload t = Inr req"
    and "service_app fw fa k settings mem_ops fresh inb (post, st) = (Inr r1, x1, st1)" and "http_status r1 = 202"
    and "idle_sleep sleep" and "\<And>w. fst (sleep (1 / 100) w) < timeout"
    and "sc_method get = ''GET''" and "sc_path get = job_path (in_uuid4 inb)"
    and "get_request_context k settings (in_now inb2) (in_authorization inb2) = Inr reader"
    and "query_text inb2 ''tenant_id'' = Some q" and "tenant_from_context_or_request reader q = Inr t"
  shows "serves_submission (in_uuid4 inb) r1 \<and>
    (\<exists>w2 res. queue_run (process mem_ops (evaluator_score sleep timeout)) (2 * length ids + 3) (app_world st1) = w2 \<and>
      queue_items (queue w2) = [] \<and> queue_task (queue w2) = TaskWaiting \<and> score_mock_response req = Inr res \<and>
      (\<forall>st2. app_world st2 = w2 \<longrightarrow>
        (\<exists>r2 x2. service_app fw fa k settings mem_ops fresh2 inb2 (get, st2) = (Inr r2, x2) \<and>
          (http_status r2 = 429 \<or> serves_result (in_uuid4 inb) t res r2))))"
proof -
  from memory_api.submit_stored [OF assms(1-4) assms(9-14) _ assms(15,16)] obtain job where
    job: "request job = req" "tenant_id job = t" "claimable job" "mem_inv (repository (app_world st1))"
      "mem_view (repository (app_world st1)) (in_uuid4 inb) = Some job"
    and answer: "serves_submission (in_uuid4 inb) r1"
    and q: "queue (app_world st1) = (queue (app_world st))\<lparr>queue_items := map Some ids @ [Some (in_uuid4 inb)],
      queue_unfinished := queue_unfinished (queue (app_world st)) + 1\<rparr>"
    using assms(5) by auto
  have "status job = QUEUED" using job(3) by (simp add: claimable_def)
  from memory.backlog_then_job [OF assms(17,18) job(4,5) this, of ids] q assms(6-8) obtain w2 j' where
    w2: "queue_run (process mem_ops (evaluator_score sleep timeout)) (2 * length ids + 3) (app_world st1) = w2"
      "mem_inv (repository w2)" "queue_items (queue w2) = []" "queue_task (queue w2) = TaskWaiting"
    and j': "mem_view (repository w2) (in_uuid4 inb) = Some j'" "owner_of j' = owner_of job" "status j' = SUCCEEDED"
      "result j' = Some (mock_result req)"
    using job(1) by auto
  have "tenant_id j' = t" using j'(2) job(2) by (simp add: owner_of_def)
  then have "\<exists>r2 x2. service_app fw fa k settings mem_ops fresh2 inb2 (get, st2) = (Inr r2, x2) \<and>
      (http_status r2 = 429 \<or> serves_result (in_uuid4 inb) t (mock_result req) r2)" if "app_world st2 = w2" for st2
    using memory_api.poll_succeeded [OF assms(1,2) _ _ assms(19-22), of st2 j' "mock_result req" fresh2] that w2(2)
      j'(1,3,4) assms(23) by (simp add: mock_result_valid)
  with answer w2(1,3,4) mock_result [of req] show ?thesis by blast
qed

text \<open>A combined process whose consumer runs, with one identifier in the queue that is not stored.\<close>

definition combined_app :: "InMemoryJobRepository app_state" where
  "combined_app = (fresh_app mem_init)\<lparr>app_world := queue_start (enqueue 9 (app_world (fresh_app mem_init)))\<rparr>"

lemma combined_app_simps [simp]: "repository (app_world combined_app) = mem_init" "rate_limiter combined_app = limiter_init"
  "queue_items (queue (app_world combined_app)) = map Some [9]" "queue_task (queue (app_world combined_app)) = TaskLooping"
  "\<not> queue_stopping (queue (app_world combined_app))"
  by (simp_all add: combined_app_def fresh_app_def queue_start_def world_init_def queue_init_def enqueue_def queue_put_def
      with_metrics_def Let_def)

lemma prompt_idle: "idle_sleep (\<lambda>d w. (d, w))"
  by (simp add: idle_sleep_def)

theorem combined_submission_is_served_witness:
  "\<exists>r1 x1 st1 w2 r2 x2. service_app plain_framework plain_fastapi (demo_codec JNull) default_settings mem_ops
      ''fresh'' demo_inbound (post_scope, combined_app) = (Inr r1, x1, st1) \<and> http_status r1 = 202 \<and>
    queue_run (process mem_ops (evaluator_score (\<lambda>d w. (d, w)) 5)) 5 (app_world st1) = w2 \<and>
    service_app plain_framework plain_fastapi (demo_codec JNull) default_settings mem_ops ''fresh''
      (demo_inbound\<lparr>in_query := [(''tenant_id'', ''acme'')]\<rparr>) (job_scope 5, combined_app\<lparr>app_world := w2\<rparr>) = (Inr r2, x2) \<and>
    http_status r2 \<in> {200, 429}"
proof -
  let ?inb2 = "demo_inbound\<lparr>in_query := [(''tenant_id'', ''acme'')]\<rparr>"
  have inv: "mem_inv (repository (app_world combined_app))" "mem_view (repository (app_world combined_app)) 5 = None"
    by (simp_all add: mem_inv_def mem_view_def mem_init_def keyed_def)
  from memory_api.demo_post_accepted [OF inv] obtain r1 x1 st1 where
    p: "service_app plain_framework plain_fastapi (demo_codec JNull) default_settings mem_ops
      ''fresh'' demo_inbound (post_scope, combined_app) = (Inr r1, x1, st1)" "http_status r1 = 202"
    by auto
  have i: "in_uuid4 demo_inbound = 5" by (simp add: demo_inbound_def)
  have new: "mem_view (repository (app_world combined_app)) (in_uuid4 demo_inbound) = None"
    "in_uuid4 demo_inbound \<notin> set [9]" using inv(2) by (simp_all add: i)
  have g: "sc_method (job_scope 5) = ''GET''" "sc_path (job_scope 5) = job_path (in_uuid4 demo_inbound)"
    by (simp_all add: job_scope_def demo_scope_def i)
  have q: "query_text ?inb2 ''tenant_id'' = Some (Some ''acme'')"
    by (simp add: query_text_def query_value_def len_between_def)
  have t: "tenant_from_context_or_request None (sub_tenant_id \<lparr>sub_tenant_id = Some ''acme'', sub_project_id = ''docs'',
      sub_question = ''What is caching?'', sub_answer = ''Caching keeps results.'', sub_rubric = None\<rparr>) = Inr ''acme''"
    "tenant_from_context_or_request None (Some ''acme'') = Inr ''acme''"
    by (simp_all add: tenant_from_context_or_request_def)
  have task: "queue_task (queue (app_world combined_app)) \<in> {TaskLooping, TaskWaiting}" by simp
  have s: "fst ((\<lambda>d w. (d, w)) (1 / 100 :: seconds) w) < (5 :: seconds)" for w :: "InMemoryJobRepository world" by simp
  from combined_submission_is_served [OF plain.starlette_axioms plain_api.fastapi_laws_axioms inv(1) new(1)
      combined_app_simps(3) new(2) task combined_app_simps(5) post_scope_simps demo_submit_args demo_context t(1)
      demo_request_accepted p prompt_idle s g demo_context q t(2), of "''fresh''"]
  obtain w2 res where "queue_run (process mem_ops (evaluator_score (\<lambda>d w. (d, w)) 5)) 5 (app_world st1) = w2"
    and polls: "\<forall>st2. app_world st2 = w2 \<longrightarrow>
      (\<exists>r2 x2. service_app plain_framework plain_fastapi (demo_codec JNull) default_settings mem_ops ''fresh''
          ?inb2 (job_scope 5, st2) = (Inr r2, x2) \<and>
        (http_status r2 = 429 \<or> serves_result (in_uuid4 demo_inbound) ''acme'' res r2))"
    by (auto simp del: queue_run.simps)
  moreover from polls [rule_format, of "combined_app\<lparr>app_world := w2\<rparr>"] obtain r2 x2 where
    "service_app plain_framework plain_fastapi (demo_codec JNull) default_settings mem_ops ''fresh''
       ?inb2 (job_scope 5, combined_app\<lparr>app_world := w2\<rparr>) = (Inr r2, x2)" "http_status r2 \<in> {200, 429}"
    by (auto simp: serves_result_def)
  ultimately show ?thesis using p by blast
qed

end
