(* ===== verification/ClaimLocks.thy ===== *)
theory ClaimLocks
  imports Postgres
begin

text \<open>
  Concurrent claims on the PostgreSQL table: several worker processes run
  \<open>claim_next_queued\<close> of \<^verbatim>\<open>app/storage/postgres.py\<close> at the same time, and the two statements of one
  claim (the select that locks a row, and the commit) interleave with those of others.

  A session that has selected a row holds its lock until it commits or rolls back. The select takes
  an oldest row among the claimable ones that nobody has locked (\<open>SKIP LOCKED\<close>). Recovery skips
  locked rows, the three transitions wait for the lock, so both act on rows that are not locked.
  \<open>claims_log\<close> is the history of claims: session, job and attempt.
\<close>

type_synonym session = nat

record db_state =
  db_table :: "uuid \<rightharpoonup> EvaluationJobRow"
  db_locks :: "uuid \<rightharpoonup> session"
  db_pending :: "session \<rightharpoonup> EvaluationJobRow"
  claims_log :: "(session \<times> uuid \<times> int) list"

definition candidate :: "db_state \<Rightarrow> EvaluationJobRow \<Rightarrow> bool" where
  "candidate s r \<longleftrightarrow>
     db_table s (row_job_id r) = Some r \<and> db_locks s (row_job_id r) = None \<and>
     list_all (\<lambda>w. sql_holds w r) (sel_where claim_statement)"

definition lock_row :: "session \<Rightarrow> EvaluationJobRow \<Rightarrow> db_state \<Rightarrow> db_state" where
  "lock_row p r s =
     s\<lparr>db_locks := (db_locks s)(row_job_id r \<mapsto> p), db_pending := (db_pending s)(p \<mapsto> r)\<rparr>"

definition release :: "session \<Rightarrow> EvaluationJobRow \<Rightarrow> db_state \<Rightarrow> db_state" where
  "release p r s =
     s\<lparr>db_locks := (db_locks s)(row_job_id r := None), db_pending := (db_pending s)(p := None)\<rparr>"

definition commit_claim :: "session \<Rightarrow> datetime \<Rightarrow> EvaluationJobRow \<Rightarrow> db_state \<Rightarrow> db_state" where
  "commit_claim p t r s =
     (let r1 = claim_row t r in
      (release p r s)\<lparr>db_table := (db_table s)(row_job_id r \<mapsto> r1),
                      claims_log := claims_log s @ [(p, row_job_id r, row_attempt_count r1)]\<rparr>)"

inductive db_step :: "db_state \<Rightarrow> db_state \<Rightarrow> bool" where
  select: "db_pending s p = None \<Longrightarrow> candidate s r \<Longrightarrow>
    \<forall>r'. candidate s r' \<longrightarrow> row_created_at r \<le> row_created_at r' \<Longrightarrow>
    db_step s (lock_row p r s)"
| commit: "db_pending s p = Some r \<Longrightarrow> db_step s (commit_claim p t r s)"
| rollback: "db_pending s p = Some r \<Longrightarrow> db_step s (release p r s)"
| recover: "db_table s i = Some r \<Longrightarrow> db_locks s i = None \<Longrightarrow>
    list_all (\<lambda>w. sql_holds w r) (sel_where (recover_statement cutoff)) \<Longrightarrow>
    db_step s (s\<lparr>db_table := (db_table s)(i \<mapsto> recover_row t r)\<rparr>)"
| change: "db_table s i = Some r \<Longrightarrow> db_locks s i = None \<Longrightarrow>
    db_step s (s\<lparr>db_table := (db_table s)(i \<mapsto>
      r\<lparr>row_status := st, row_result_payload := res, row_error_message := msg,
        row_claimed_at := ca, row_updated_at := t\<rparr>)\<rparr>)"
| insert: "db_table s (row_job_id r) = None \<Longrightarrow> row_attempt_count r = 0 \<Longrightarrow> 0 \<le> row_max_attempts r \<Longrightarrow>
    db_step s (s\<lparr>db_table := (db_table s)(row_job_id r \<mapsto> r)\<rparr>)"

definition db_start :: db_state where
  "db_start = \<lparr>db_table = Map.empty, db_locks = Map.empty, db_pending = Map.empty, claims_log = []\<rparr>"

subsection \<open>The invariant\<close>

text \<open>A pending row is the current one and locked by its session, a locked row is pending there, the
  counters are within the budget, and the attempts claims_log out for a job are different and not above
  its counter.\<close>

definition attempts_of :: "uuid \<Rightarrow> db_state \<Rightarrow> int list" where
  "attempts_of i s = map (\<lambda>(p, j, n). n) (filter (\<lambda>(p, j, n). j = i) (claims_log s))"

definition lock_inv :: "db_state \<Rightarrow> bool" where
  "lock_inv s \<longleftrightarrow>
     (\<forall>p r. db_pending s p = Some r \<longrightarrow>
        db_table s (row_job_id r) = Some r \<and> db_locks s (row_job_id r) = Some p \<and>
        row_attempt_count r < row_max_attempts r) \<and>
     (\<forall>i r. db_table s i = Some r \<longrightarrow> row_job_id r = i \<and> 0 \<le> row_attempt_count r \<and> row_attempt_count r \<le> row_max_attempts r)"

definition handed_ok :: "EvaluationJobRow option \<Rightarrow> int list \<Rightarrow> bool" where
  "handed_ok r ns \<longleftrightarrow>
     distinct ns \<and> (case r of None \<Rightarrow> ns = [] | Some x \<Rightarrow> set ns \<subseteq> {1 .. row_attempt_count x})"

definition handed_inv :: "db_state \<Rightarrow> bool" where
  "handed_inv s \<longleftrightarrow> (\<forall>i. handed_ok (db_table s i) (attempts_of i s))"

lemma attempts_of_release [simp]: "attempts_of i (release p r s) = attempts_of i s"
  and attempts_of_lock [simp]: "attempts_of i (lock_row p r s) = attempts_of i s"
  and attempts_of_table [simp]: "attempts_of i (s\<lparr>db_table := m\<rparr>) = attempts_of i s"
  by (simp_all add: attempts_of_def release_def lock_row_def)

lemma attempts_of_commit [simp]:
  "attempts_of i (commit_claim p t r s) =
     attempts_of i s @ (if row_job_id r = i then [row_attempt_count r + 1] else [])"
  by (simp add: attempts_of_def commit_claim_def release_def claim_row_def Let_def)

lemma commit_claim_table [simp]:
  "db_table (commit_claim p t r s) = (db_table s)(row_job_id r \<mapsto> claim_row t r)"
  by (simp add: commit_claim_def Let_def)

lemma recover_row_keeps [simp]:
  "row_job_id (recover_row t r) = row_job_id r" "row_attempt_count (recover_row t r) = row_attempt_count r"
  "row_max_attempts (recover_row t r) = row_max_attempts r"
  by (simp_all add: recover_row_def)

lemma lock_inv_start [simp]: "lock_inv db_start" and handed_inv_start [simp]: "handed_inv db_start"
  by (simp_all add: lock_inv_def handed_inv_def handed_ok_def db_start_def attempts_of_def)

lemma lock_inv_pending:
  "lock_inv s \<Longrightarrow> db_pending s p = Some r \<Longrightarrow>
     db_table s (row_job_id r) = Some r \<and> db_locks s (row_job_id r) = Some p \<and>
     row_attempt_count r < row_max_attempts r"
  by (auto simp: lock_inv_def)

lemma lock_inv_row:
  "lock_inv s \<Longrightarrow> db_table s i = Some r \<Longrightarrow>
     row_job_id r = i \<and> 0 \<le> row_attempt_count r \<and> row_attempt_count r \<le> row_max_attempts r"
  unfolding lock_inv_def by (drule conjunct2, drule spec, drule spec, erule (1) mp)

lemma lock_inv_other:
  assumes "lock_inv s" and "db_pending s p = Some r" and "db_pending s q = Some r'" and "q \<noteq> p"
  shows "row_job_id r' \<noteq> row_job_id r"
  using lock_inv_pending [OF assms(1,2)] lock_inv_pending [OF assms(1,3)] assms(4) by (metis option.inject)

lemma lock_invI:
  assumes "\<And>p r. db_pending s p = Some r \<Longrightarrow>
      db_table s (row_job_id r) = Some r \<and> db_locks s (row_job_id r) = Some p \<and>
      row_attempt_count r < row_max_attempts r"
    and "\<And>i r. db_table s i = Some r \<Longrightarrow>
      row_job_id r = i \<and> 0 \<le> row_attempt_count r \<and> row_attempt_count r \<le> row_max_attempts r"
  shows "lock_inv s"
  using assms by (simp add: lock_inv_def)

lemma lock_inv_lock:
  assumes inv: "lock_inv s" and "candidate s r"
  shows "lock_inv (lock_row p r s)"
proof (rule lock_invI)
  have r: "db_table s (row_job_id r) = Some r" "db_locks s (row_job_id r) = None"
      "row_attempt_count r < row_max_attempts r"
    using assms(2) by (simp_all add: candidate_def claim_statement_def select_rows_def)
  fix q r'
  assume q: "db_pending (lock_row p r s) q = Some r'"
  show "db_table (lock_row p r s) (row_job_id r') = Some r' \<and>
      db_locks (lock_row p r s) (row_job_id r') = Some q \<and> row_attempt_count r' < row_max_attempts r'"
  proof (cases "q = p")
    case False
    with q have "db_pending s q = Some r'" by (simp add: lock_row_def)
    from lock_inv_pending [OF inv this] r(2) show ?thesis by (auto simp: lock_row_def)
  qed (use q r in \<open>simp add: lock_row_def\<close>)
qed (use lock_inv_row [OF inv] in \<open>simp add: lock_row_def\<close>)

lemma lock_inv_release:
  assumes inv: "lock_inv s" and p: "db_pending s p = Some r"
  shows "lock_inv (release p r s)"
proof (rule lock_invI)
  fix q r'
  assume q: "db_pending (release p r s) q = Some r'"
  then have "db_pending s q = Some r'" "q \<noteq> p" by (auto simp: release_def split: if_splits)
  with lock_inv_other [OF inv p] lock_inv_pending [OF inv]
  show "db_table (release p r s) (row_job_id r') = Some r' \<and>
      db_locks (release p r s) (row_job_id r') = Some q \<and> row_attempt_count r' < row_max_attempts r'"
    by (simp add: release_def)
qed (use lock_inv_row [OF inv] in \<open>simp add: release_def\<close>)

lemma lock_inv_table:
  assumes inv: "lock_inv s" and i: "db_locks s i = None"
    and r': "row_job_id r' = i" "0 \<le> row_attempt_count r'" "row_attempt_count r' \<le> row_max_attempts r'"
  shows "lock_inv (s\<lparr>db_table := (db_table s)(i \<mapsto> r')\<rparr>)"
proof (rule lock_invI)
  fix q x
  assume "db_pending (s\<lparr>db_table := (db_table s)(i \<mapsto> r')\<rparr>) q = Some x"
  then have x: "db_pending s q = Some x" by simp
  from lock_inv_pending [OF inv x] i have "row_job_id x \<noteq> i" by auto
  with lock_inv_pending [OF inv x]
  show "db_table (s\<lparr>db_table := (db_table s)(i \<mapsto> r')\<rparr>) (row_job_id x) = Some x \<and>
      db_locks (s\<lparr>db_table := (db_table s)(i \<mapsto> r')\<rparr>) (row_job_id x) = Some q \<and>
      row_attempt_count x < row_max_attempts x"
    by simp
next
  fix k x
  assume "db_table (s\<lparr>db_table := (db_table s)(i \<mapsto> r')\<rparr>) k = Some x"
  with lock_inv_row [OF inv] r'
  show "row_job_id x = k \<and> 0 \<le> row_attempt_count x \<and> row_attempt_count x \<le> row_max_attempts x"
    by (auto split: if_splits)
qed

lemma lock_inv_handed [simp]: "lock_inv (s\<lparr>claims_log := h\<rparr>) = lock_inv s"
  by (simp add: lock_inv_def)

lemma lock_inv_commit:
  assumes inv: "lock_inv s" and p: "db_pending s p = Some r"
  shows "lock_inv (commit_claim p t r s)"
proof -
  have r: "db_table s (row_job_id r) = Some r" "row_attempt_count r < row_max_attempts r"
    using lock_inv_pending [OF inv p] by simp_all
  have "lock_inv ((release p r s)\<lparr>db_table := (db_table (release p r s))(row_job_id r \<mapsto> claim_row t r)\<rparr>)"
    using lock_inv_row [OF inv r(1)] r(2)
    by (intro lock_inv_table lock_inv_release [OF inv p]) (simp_all add: release_def claim_row_def)
  then show ?thesis by (simp add: commit_claim_def Let_def release_def)
qed

lemma handed_inv_table:
  assumes "handed_inv s" and "db_table s i = Some r" and "row_attempt_count r' = row_attempt_count r"
  shows "handed_inv (s\<lparr>db_table := (db_table s)(i \<mapsto> r')\<rparr>)"
proof -
  have "handed_ok (Some r) (attempts_of i s)" using assms(1,2) by (metis handed_inv_def)
  with assms(3) have "handed_ok (Some r') (attempts_of i s)" by (simp add: handed_ok_def)
  with assms(1) show ?thesis by (simp add: handed_inv_def)
qed

lemma db_step_lock_inv: "db_step s s' \<Longrightarrow> lock_inv s \<Longrightarrow> lock_inv s'"
proof (induction rule: db_step.induct)
  case (recover s i r cutoff t)
  then show ?case using lock_inv_row [of s i r] by (intro lock_inv_table) auto
next
  case (change s i r st res msg ca t)
  then show ?case using lock_inv_row [of s i r] by (intro lock_inv_table) auto
next
  case (insert s r)
  have "db_pending s q = Some x \<Longrightarrow> row_job_id x \<noteq> row_job_id r" for q x
    using insert lock_inv_pending [of s q x] by auto
  with insert show ?case
    by (intro lock_invI) (auto dest: lock_inv_pending lock_inv_row split: if_splits)
qed (simp_all add: lock_inv_lock lock_inv_commit lock_inv_release)

lemma db_step_handed_inv: "db_step s s' \<Longrightarrow> lock_inv s \<Longrightarrow> handed_inv s \<Longrightarrow> handed_inv s'"
proof (induction rule: db_step.induct)
  case (commit s p r t)
  then have r: "db_table s (row_job_id r) = Some r" by (auto simp: lock_inv_def)
  have "0 \<le> row_attempt_count r" using commit(2) r by (auto simp: lock_inv_def)
  moreover have "handed_ok (Some r) (attempts_of (row_job_id r) s)"
    using commit(3) r by (metis handed_inv_def)
  ultimately have "handed_ok (Some (claim_row t r)) (attempts_of (row_job_id r) s @ [row_attempt_count r + 1])"
    by (fastforce simp: handed_ok_def claim_row_def)
  with commit(3) show ?case by (simp add: handed_inv_def)
next
  case (recover s i r cutoff t)
  then show ?case by (intro handed_inv_table) simp_all
next
  case (change s i r st res msg ca t)
  then show ?case by (intro handed_inv_table) simp_all
next
  case (insert s r)
  then show ?case by (auto simp: handed_inv_def handed_ok_def dest: spec [of _ "row_job_id r"])
qed (simp_all add: handed_inv_def release_def lock_row_def attempts_of_def)

lemma reachable_inv: "db_step\<^sup>*\<^sup>* db_start s \<Longrightarrow> lock_inv s \<and> handed_inv s"
  by (induction rule: rtranclp_induct) (auto dest: db_step_lock_inv db_step_handed_inv)

subsection \<open>Exclusive claims\<close>

text \<open>A job is claims_log out at most as often as its budget says.\<close>

lemma attempts_bounded:
  assumes "lock_inv s" and "handed_inv s" and "db_table s i = Some r"
  shows "int (length (attempts_of i s)) \<le> row_max_attempts r"
proof -
  have "handed_ok (Some r) (attempts_of i s)" using assms(2,3) by (metis handed_inv_def)
  then have "distinct (attempts_of i s)" "set (attempts_of i s) \<subseteq> {1 .. row_attempt_count r}"
    by (simp_all add: handed_ok_def)
  then have "length (attempts_of i s) \<le> card {1 .. row_attempt_count r}"
    by (metis card_mono distinct_card finite_atLeastAtMost_int)
  moreover have "0 \<le> row_attempt_count r" "row_attempt_count r \<le> row_max_attempts r"
    using assms(1,3) by (auto simp: lock_inv_def)
  ultimately show ?thesis by simp
qed


text \<open>Two jobs; session 1 selects the older one, session 2 skips its lock and selects the other, then
  both commit.\<close>

definition demo_row :: "uuid \<Rightarrow> datetime \<Rightarrow> EvaluationJobRow" where
  "demo_row i t = to_row (demo_job i t)"

definition demo_rows :: db_state where
  "demo_rows = db_start\<lparr>db_table := [1 \<mapsto> demo_row 1 10, 2 \<mapsto> demo_row 2 20]\<rparr>"

definition demo_race :: db_state where
  "demo_race =
     commit_claim 2 101 (demo_row 2 20) (commit_claim 1 100 (demo_row 1 10)
       (lock_row 2 (demo_row 2 20) (lock_row 1 (demo_row 1 10) demo_rows)))"

lemma demo_row_facts [simp]:
  "row_job_id (demo_row i t) = i" "row_attempt_count (demo_row i t) = 0" "row_max_attempts (demo_row i t) = 3"
  "row_created_at (demo_row i t) = t"
  "list_all (\<lambda>w. sql_holds w (demo_row i t)) (sel_where claim_statement)"
  by (simp_all add: demo_row_def to_row_def demo_job_def claim_statement_def select_rows_def)

lemma demo_race_reachable: "db_step\<^sup>*\<^sup>* db_start demo_race"
proof -
  let ?a = "db_start\<lparr>db_table := [1 \<mapsto> demo_row 1 10]\<rparr>"
  let ?b = "lock_row 1 (demo_row 1 10) demo_rows"
  let ?c = "lock_row 2 (demo_row 2 20) ?b"
  let ?d = "commit_claim 1 100 (demo_row 1 10) ?c"
  have "db_step db_start ?a"
    using db_step.insert [of db_start "demo_row 1 10"] by (simp add: db_start_def)
  moreover have "db_step ?a demo_rows"
    using db_step.insert [of ?a "demo_row 2 20"] by (simp add: db_start_def demo_rows_def fun_upd_twist)
  moreover have "db_step demo_rows ?b"
    by (rule db_step.select) (auto simp: demo_rows_def db_start_def candidate_def split: if_splits)
  moreover have "db_step ?b ?c"
    by (rule db_step.select) (auto simp: demo_rows_def db_start_def candidate_def lock_row_def split: if_splits)
  moreover have "db_step ?c ?d" by (rule db_step.commit) (simp add: lock_row_def)
  moreover have "db_step ?d demo_race"
    unfolding demo_race_def by (rule db_step.commit) (simp add: lock_row_def commit_claim_def release_def Let_def)
  ultimately show ?thesis by (meson rtranclp.rtrancl_into_rtrancl rtranclp.rtrancl_refl)
qed


end
