(* ===== verification/Schema.thy ===== *)
theory Schema
  imports Errors
begin

text \<open>
  The database schema: the two Alembic revisions under \<^verbatim>\<open>migrations/versions\<close> and the tables that
  \<open>init_schema\<close> of \<^verbatim>\<open>app/storage/postgres.py\<close> creates from the mapped class.

  A table has its columns in order, a primary key, named indexes and its data, one association list
  per row. The operations of \<open>alembic.op\<close> are DDL statements: they raise when the object they create
  exists or the one they change is missing, and a column added with a server default has that value
  in the rows that are there already.
\<close>

datatype sql_type = UUID | VARCHAR nat | TEXT | JSONB | INTEGER | TIMESTAMPTZ

datatype sql_value = VNull | VInt int | VText string | VJson json | VUuid uuid | VTime datetime

record sql_column =
  col_name :: string
  col_type :: sql_type
  col_nullable :: bool
  col_default :: "sql_value option"

record sql_table =
  tb_columns :: "sql_column list"
  tb_primary_key :: "string list"
  tb_indexes :: "(string \<times> string list) list"
  tb_data :: "(string \<times> sql_value) list list"

type_synonym database = "(string \<times> sql_table) list"

definition column :: "string \<Rightarrow> sql_type \<Rightarrow> bool \<Rightarrow> sql_column" where
  "column n t nullable = \<lparr>col_name = n, col_type = t, col_nullable = nullable, col_default = None\<rparr>"

subsection \<open>Statements\<close>

definition on_table :: "string \<Rightarrow> (sql_table \<Rightarrow> exn + sql_table) \<Rightarrow> database \<Rightarrow> exn + database" where
  "on_table name f db =
     (case map_of db name of
        None \<Rightarrow> Inl SQLAlchemyError
      | Some t \<Rightarrow> map_sum id (\<lambda>t1. AList.update name t1 db) (f t))"

definition has_table :: "string \<Rightarrow> database \<Rightarrow> bool" where
  "has_table name db \<longleftrightarrow> map_of db name \<noteq> None"

definition column_names :: "sql_table \<Rightarrow> string list" where
  "column_names t = map col_name (tb_columns t)"

definition index_names :: "sql_table \<Rightarrow> string list" where
  "index_names t = map fst (tb_indexes t)"

definition get_columns :: "string \<Rightarrow> database \<Rightarrow> string list" where
  "get_columns name db = (case map_of db name of None \<Rightarrow> [] | Some t \<Rightarrow> column_names t)"

definition get_indexes :: "string \<Rightarrow> database \<Rightarrow> string list" where
  "get_indexes name db = (case map_of db name of None \<Rightarrow> [] | Some t \<Rightarrow> index_names t)"

definition create_table :: "string \<Rightarrow> sql_column list \<Rightarrow> string list \<Rightarrow> database \<Rightarrow> exn + database" where
  "create_table name cols pk db =
     (if has_table name db then Inl SQLAlchemyError
      else Inr (AList.update name \<lparr>tb_columns = cols, tb_primary_key = pk, tb_indexes = [], tb_data = []\<rparr> db))"

definition drop_table :: "string \<Rightarrow> database \<Rightarrow> exn + database" where
  "drop_table name db = (if has_table name db then Inr (AList.delete name db) else Inl SQLAlchemyError)"

definition create_index :: "string \<Rightarrow> string \<Rightarrow> string list \<Rightarrow> database \<Rightarrow> exn + database" where
  "create_index ix name cols =
     on_table name (\<lambda>t.
       if ix \<in> set (index_names t) \<or> \<not> set cols \<subseteq> set (column_names t) then Inl SQLAlchemyError
       else Inr (t\<lparr>tb_indexes := tb_indexes t @ [(ix, cols)]\<rparr>))"

definition drop_index :: "string \<Rightarrow> string \<Rightarrow> database \<Rightarrow> exn + database" where
  "drop_index ix name =
     on_table name (\<lambda>t.
       if ix \<notin> set (index_names t) then Inl SQLAlchemyError
       else Inr (t\<lparr>tb_indexes := filter (\<lambda>(n, _). n \<noteq> ix) (tb_indexes t)\<rparr>))"

definition add_column :: "string \<Rightarrow> sql_column \<Rightarrow> database \<Rightarrow> exn + database" where
  "add_column name c =
     on_table name (\<lambda>t.
       if col_name c \<in> set (column_names t) \<or> (\<not> col_nullable c \<and> col_default c = None \<and> tb_data t \<noteq> [])
       then Inl SQLAlchemyError
       else Inr (t\<lparr>tb_columns := tb_columns t @ [c],
                   tb_data := map (\<lambda>r. r @ [(col_name c, case col_default c of None \<Rightarrow> VNull | Some v \<Rightarrow> v)])
                                  (tb_data t)\<rparr>))"

definition alter_default :: "string \<Rightarrow> string \<Rightarrow> sql_value option \<Rightarrow> database \<Rightarrow> exn + database" where
  "alter_default name cn d =
     on_table name (\<lambda>t.
       if cn \<notin> set (column_names t) then Inl SQLAlchemyError
       else Inr (t\<lparr>tb_columns := map (\<lambda>c. if col_name c = cn then c\<lparr>col_default := d\<rparr> else c) (tb_columns t)\<rparr>))"

text \<open>Dropping a column drops the indexes on it.\<close>

definition drop_column :: "string \<Rightarrow> string \<Rightarrow> database \<Rightarrow> exn + database" where
  "drop_column name cn =
     on_table name (\<lambda>t.
       if cn \<notin> set (column_names t) then Inl SQLAlchemyError
       else Inr (t\<lparr>tb_columns := filter (\<lambda>c. col_name c \<noteq> cn) (tb_columns t),
                   tb_indexes := filter (\<lambda>(n, cs). cn \<notin> set cs) (tb_indexes t),
                   tb_data := map (filter (\<lambda>(n, v). n \<noteq> cn)) (tb_data t)\<rparr>))"

text \<open>Statements one after the other, up to the first that raises.\<close>

fun run_ops :: "(database \<Rightarrow> exn + database) list \<Rightarrow> database \<Rightarrow> exn + database" where
  "run_ops [] db = Inr db"
| "run_ops (f # fs) db = (case f db of Inl e \<Rightarrow> Inl e | Inr db1 \<Rightarrow> run_ops fs db1)"

definition when_op :: "bool \<Rightarrow> (database \<Rightarrow> exn + database) \<Rightarrow> database \<Rightarrow> exn + database" where
  "when_op b f db = (if b then f db else Inr db)"

subsection \<open>The revisions\<close>

definition upgrade_0001 :: "database \<Rightarrow> exn + database" where
  "upgrade_0001 db =
     (case when_op (\<not> has_table ''evaluation_jobs'' db)
             (create_table ''evaluation_jobs''
                [column ''job_id'' UUID False, column ''tenant_id'' (VARCHAR 128) False,
                 column ''project_id'' (VARCHAR 128) False, column ''status'' (VARCHAR 32) False,
                 column ''request_payload'' JSONB False, column ''result_payload'' JSONB True,
                 column ''error_message'' TEXT True, column ''created_at'' TIMESTAMPTZ False,
                 column ''updated_at'' TIMESTAMPTZ False] [''job_id'']) db of
        Inl e \<Rightarrow> Inl e
      | Inr db1 \<Rightarrow>
          (let existing_indexes = get_indexes ''evaluation_jobs'' db1
           in run_ops
                [when_op (''ix_evaluation_jobs_project_id'' \<notin> set existing_indexes)
                   (create_index ''ix_evaluation_jobs_project_id'' ''evaluation_jobs'' [''project_id'']),
                 when_op (''ix_evaluation_jobs_status'' \<notin> set existing_indexes)
                   (create_index ''ix_evaluation_jobs_status'' ''evaluation_jobs'' [''status'']),
                 when_op (''ix_evaluation_jobs_tenant_id'' \<notin> set existing_indexes)
                   (create_index ''ix_evaluation_jobs_tenant_id'' ''evaluation_jobs'' [''tenant_id''])] db1))"

definition downgrade_0001 :: "database \<Rightarrow> exn + database" where
  "downgrade_0001 =
     run_ops [drop_index ''ix_evaluation_jobs_tenant_id'' ''evaluation_jobs'',
              drop_index ''ix_evaluation_jobs_status'' ''evaluation_jobs'',
              drop_index ''ix_evaluation_jobs_project_id'' ''evaluation_jobs'',
              drop_table ''evaluation_jobs'']"

definition upgrade_0002 :: "database \<Rightarrow> exn + database" where
  "upgrade_0002 db =
     (let existing_columns = get_columns ''evaluation_jobs'' db
      in case run_ops
           [when_op (''attempt_count'' \<notin> set existing_columns)
              (run_ops [add_column ''evaluation_jobs''
                          ((column ''attempt_count'' INTEGER False)\<lparr>col_default := Some (VInt 0)\<rparr>),
                        alter_default ''evaluation_jobs'' ''attempt_count'' None]),
            when_op (''max_attempts'' \<notin> set existing_columns)
              (run_ops [add_column ''evaluation_jobs''
                          ((column ''max_attempts'' INTEGER False)\<lparr>col_default := Some (VInt 3)\<rparr>),
                        alter_default ''evaluation_jobs'' ''max_attempts'' None]),
            when_op (''claimed_at'' \<notin> set existing_columns)
              (add_column ''evaluation_jobs'' (column ''claimed_at'' TIMESTAMPTZ True))] db of
           Inl e \<Rightarrow> Inl e
         | Inr db1 \<Rightarrow>
             (let existing_indexes = get_indexes ''evaluation_jobs'' db1
              in when_op (''ix_evaluation_jobs_claimed_at'' \<notin> set existing_indexes)
                   (create_index ''ix_evaluation_jobs_claimed_at'' ''evaluation_jobs'' [''claimed_at'']) db1))"

definition downgrade_0002 :: "database \<Rightarrow> exn + database" where
  "downgrade_0002 =
     run_ops [drop_index ''ix_evaluation_jobs_claimed_at'' ''evaluation_jobs'',
              drop_column ''evaluation_jobs'' ''claimed_at'',
              drop_column ''evaluation_jobs'' ''max_attempts'',
              drop_column ''evaluation_jobs'' ''attempt_count'']"

text \<open>\<open>Base.metadata.create_all\<close>: the table of the mapped class with an index for every column
  marked so; a table that exists is left as it is.\<close>

definition mapped_table :: sql_table where
  "mapped_table =
     \<lparr>tb_columns =
        [column ''job_id'' UUID False, column ''tenant_id'' (VARCHAR 128) False,
         column ''project_id'' (VARCHAR 128) False, column ''status'' (VARCHAR 32) False,
         column ''request_payload'' JSONB False, column ''result_payload'' JSONB True,
         column ''error_message'' TEXT True, column ''attempt_count'' INTEGER False,
         column ''max_attempts'' INTEGER False, column ''claimed_at'' TIMESTAMPTZ True,
         column ''created_at'' TIMESTAMPTZ False, column ''updated_at'' TIMESTAMPTZ False],
      tb_primary_key = [''job_id''],
      tb_indexes = [(''ix_evaluation_jobs_tenant_id'', [''tenant_id'']),
                    (''ix_evaluation_jobs_project_id'', [''project_id'']),
                    (''ix_evaluation_jobs_status'', [''status''])],
      tb_data = []\<rparr>"

definition init_schema :: "database \<Rightarrow> database" where
  "init_schema db =
     (if has_table ''evaluation_jobs'' db then db else AList.update ''evaluation_jobs'' mapped_table db)"

definition migrate :: "database \<Rightarrow> exn + database" where
  "migrate db = (case upgrade_0001 db of Inl e \<Rightarrow> Inl e | Inr db1 \<Rightarrow> upgrade_0002 db1)"

subsection \<open>Properties\<close>

text \<open>Two databases with the same tables up to the order of columns and indexes.\<close>

definition same_shape :: "sql_table \<Rightarrow> sql_table \<Rightarrow> bool" where
  "same_shape t u \<longleftrightarrow>
     set (tb_columns t) = set (tb_columns u) \<and> tb_primary_key t = tb_primary_key u \<and>
     set (tb_indexes t) = set (tb_indexes u)"

definition jobs_table :: "exn + database \<Rightarrow> sql_table" where
  "jobs_table r = the (map_of (projr r) ''evaluation_jobs'')"

lemma migrate_empty: "\<not> isl (migrate [])" "\<not> isl (migrate (init_schema []))"
  by code_simp+


text \<open>The table as revision 0001 leaves it, with the rows written since.\<close>

definition rev1_table :: "(string \<times> sql_value) list list \<Rightarrow> sql_table" where
  "rev1_table rs = (jobs_table (upgrade_0001 []))\<lparr>tb_data := rs\<rparr>"

lemma rev1_table_eq:
  "rev1_table rs =
     \<lparr>tb_columns =
        [column ''job_id'' UUID False, column ''tenant_id'' (VARCHAR 128) False,
         column ''project_id'' (VARCHAR 128) False, column ''status'' (VARCHAR 32) False,
         column ''request_payload'' JSONB False, column ''result_payload'' JSONB True,
         column ''error_message'' TEXT True, column ''created_at'' TIMESTAMPTZ False,
         column ''updated_at'' TIMESTAMPTZ False],
      tb_primary_key = [''job_id''],
      tb_indexes = [(''ix_evaluation_jobs_project_id'', [''project_id'']),
                    (''ix_evaluation_jobs_status'', [''status'']),
                    (''ix_evaluation_jobs_tenant_id'', [''tenant_id''])],
      tb_data = rs\<rparr>"
proof -
  have "jobs_table (upgrade_0001 []) = \<lparr>tb_columns =
        [column ''job_id'' UUID False, column ''tenant_id'' (VARCHAR 128) False,
         column ''project_id'' (VARCHAR 128) False, column ''status'' (VARCHAR 32) False,
         column ''request_payload'' JSONB False, column ''result_payload'' JSONB True,
         column ''error_message'' TEXT True, column ''created_at'' TIMESTAMPTZ False,
         column ''updated_at'' TIMESTAMPTZ False],
      tb_primary_key = [''job_id''],
      tb_indexes = [(''ix_evaluation_jobs_project_id'', [''project_id'']),
                    (''ix_evaluation_jobs_status'', [''status'']),
                    (''ix_evaluation_jobs_tenant_id'', [''tenant_id''])],
      tb_data = []\<rparr>"
    by code_simp
  then show ?thesis by (simp add: rev1_table_def)
qed

lemmas ddl_defs = on_table_def has_table_def column_names_def index_names_def get_columns_def get_indexes_def
  create_table_def drop_table_def create_index_def drop_index_def add_column_def alter_default_def
  drop_column_def when_op_def column_def

definition new_values :: "(string \<times> sql_value) list" where
  "new_values = [(''attempt_count'', VInt 0), (''max_attempts'', VInt 3), (''claimed_at'', VNull)]"

lemma drop_new_values:
  assumes "fst ` set r \<inter> fst ` set new_values = {}"
  shows "filter (\<lambda>(n, v). n \<noteq> ''attempt_count'') (filter (\<lambda>(n, v). n \<noteq> ''max_attempts'')
    (filter (\<lambda>(n, v). n \<noteq> ''claimed_at'') (r @ new_values))) = r"
proof -
  have "filter (\<lambda>(n, v). n \<noteq> k) r = r" if "k \<in> fst ` set new_values" for k
    using assms that by (intro filter_True) force
  then show ?thesis by (simp add: new_values_def)
qed

definition rev2_table :: "(string \<times> sql_value) list list \<Rightarrow> sql_table" where
  "rev2_table rs =
     (rev1_table rs)\<lparr>
       tb_columns := tb_columns (rev1_table rs) @
         [column ''attempt_count'' INTEGER False, column ''max_attempts'' INTEGER False,
          column ''claimed_at'' TIMESTAMPTZ True],
       tb_indexes := tb_indexes (rev1_table rs) @ [(''ix_evaluation_jobs_claimed_at'', [''claimed_at''])],
       tb_data := map (\<lambda>r. r @ new_values) rs\<rparr>"

lemma upgrade_0002_rev1:
  "upgrade_0002 [(''evaluation_jobs'', rev1_table rs)] = Inr [(''evaluation_jobs'', rev2_table rs)]"
  by (simp add: upgrade_0002_def rev2_table_def rev1_table_eq ddl_defs new_values_def Let_def comp_def)

lemma downgrade_0002_rev2:
  assumes "\<forall>r \<in> set rs. fst ` set r \<inter> fst ` set new_values = {}"
  shows "downgrade_0002 [(''evaluation_jobs'', rev2_table rs)] = Inr [(''evaluation_jobs'', rev1_table rs)]"
proof -
  have "map (\<lambda>r. filter (\<lambda>(n, v). n \<noteq> ''attempt_count'') (filter (\<lambda>(n, v). n \<noteq> ''max_attempts'')
    (filter (\<lambda>(n, v). n \<noteq> ''claimed_at'') (r @ new_values)))) rs = rs"
    by (rule map_idI) (use assms drop_new_values in blast)
  then show ?thesis
    by (simp add: downgrade_0002_def rev2_table_def rev1_table_eq ddl_defs comp_def del: filter_append filter_filter)
qed

lemma downgrade_0001_rev1: "downgrade_0001 [(''evaluation_jobs'', rev1_table rs)] = Inr []"
  by (simp add: downgrade_0001_def rev1_table_eq ddl_defs)

text \<open>C30. Revision 0002 keeps every job that was stored before it: each row keeps its values and
  becomes an unclaimed job with no attempt made and three allowed. Its downgrade gives back exactly
  the old table, and the downgrade of 0001 leaves an empty database.\<close>

theorem migration_0002_roundtrip:
  assumes "\<forall>r \<in> set rs. fst ` set r \<inter> {''attempt_count'', ''max_attempts'', ''claimed_at''} = {}"
  shows "\<exists>t. upgrade_0002 [(''evaluation_jobs'', rev1_table rs)] = Inr [(''evaluation_jobs'', t)] \<and>
    tb_data t = map (\<lambda>r. r @ [(''attempt_count'', VInt 0), (''max_attempts'', VInt 3), (''claimed_at'', VNull)]) rs \<and>
    downgrade_0002 [(''evaluation_jobs'', t)] = Inr [(''evaluation_jobs'', rev1_table rs)] \<and>
    downgrade_0001 [(''evaluation_jobs'', rev1_table rs)] = Inr []"
proof -
  have "\<forall>r \<in> set rs. fst ` set r \<inter> fst ` set new_values = {}"
    using assms by (simp add: new_values_def)
  from downgrade_0002_rev2 [OF this] upgrade_0002_rev1 [of rs] downgrade_0001_rev1 [of rs] show ?thesis
    by (intro exI [of _ "rev2_table rs"]) (simp add: rev2_table_def new_values_def)
qed

theorem migration_0002_roundtrip_witness:
  "\<exists>t. upgrade_0002 [(''evaluation_jobs'', rev1_table [[(''job_id'', VUuid 1)]])] = Inr [(''evaluation_jobs'', t)] \<and>
    tb_data t = [[(''job_id'', VUuid 1), (''attempt_count'', VInt 0), (''max_attempts'', VInt 3),
      (''claimed_at'', VNull)]]"
  using migration_0002_roundtrip [of "[[(''job_id'', VUuid 1)]]"] by fastforce

end
