(* ===== verification/Scripts.thy ===== *)
theory Scripts
  imports Auth Metrics
begin

text \<open>
  The checks that run in continuous integration and the token script:
  \<^verbatim>\<open>scripts/validate_dockerfile_policy.py\<close>, \<^verbatim>\<open>scripts/validate_k8s_manifests.py\<close> and
  \<^verbatim>\<open>scripts/create_demo_jwt.py\<close>.

  A \<open>main\<close> takes the contents of the files it reads and returns what it prints and its exit status.
  A YAML document is a \<open>json\<close> value, with \<open>JNull\<close> for an empty one; the YAML parser is where the
  documents come from, and its errors are texts.
\<close>

subsection \<open>The Dockerfile policy\<close>

fun instruction_lines :: "string \<Rightarrow> string list \<Rightarrow> string list" where
  "instruction_lines current [] = (if current \<noteq> [] then [current] else [])"
| "instruction_lines current (raw_line # rest) =
     (let stripped = strip raw_line
      in if stripped = [] \<or> starts_with ''#'' stripped then instruction_lines current rest
         else
           (let piece = strip (removesuffix_char (CHR 0x5C) stripped);
                current1 = (if current \<noteq> [] then current @ '' '' @ piece else piece)
            in if \<not> ends_with_char (CHR 0x5C) stripped
               then current1 # instruction_lines [] rest
               else instruction_lines current1 rest))"

definition instructions :: "string \<Rightarrow> string list" where
  "instructions txt = instruction_lines [] (splitlines txt)"

fun first_instruction :: "string list \<Rightarrow> string \<Rightarrow> string option" where
  "first_instruction [] name = None"
| "first_instruction (i # is) name =
     (if starts_with (name @ '' '') (upper i) then Some i else first_instruction is name)"

definition has_instruction :: "string list \<Rightarrow> string \<Rightarrow> string \<Rightarrow> bool" where
  "has_instruction is name val \<longleftrightarrow>
     (let expected = upper (name @ '' '' @ val) in list_ex (\<lambda>i. upper i = expected) is)"

definition has_exec_form_command :: "string list \<Rightarrow> string \<Rightarrow> bool" where
  "has_exec_form_command is name =
     (case first_instruction is name of
        None \<Rightarrow> False
      | Some i \<Rightarrow> starts_with ''['' (strip (drop (length name + 1) i)))"

text \<open>The expression \<^verbatim>\<open>^\s*RUN\s+.*pip install .*--no-cache-dir\<close> with \<open>MULTILINE\<close> and \<open>DOTALL\<close>: \<open>^\<close> is the
  start of the text or the place after a line feed, and \<open>.\<close> any character.\<close>

fun line_starts :: "string \<Rightarrow> string list" where
  "line_starts [] = []"
| "line_starts (c # cs) = (if c = CHR 0x0A then cs # line_starts cs else line_starts cs)"

definition matches_here :: "string \<Rightarrow> bool" where
  "matches_here s \<longleftrightarrow>
     (let t = dropWhile is_space s
      in starts_with ''RUN'' t \<and>
         (case drop 3 t of
            [] \<Rightarrow> False
          | c # cs \<Rightarrow> is_space c \<and>
              (case after_first ''pip install '' cs of
                 None \<Rightarrow> False | Some rest \<Rightarrow> contains ''--no-cache-dir'' rest)))"

definition pip_no_cache :: "string \<Rightarrow> bool" where
  "pip_no_cache txt \<longleftrightarrow> list_ex matches_here (txt # line_starts txt)"

definition dockerfile_errors :: "string \<Rightarrow> string list" where
  "dockerfile_errors txt =
     (let is = instructions txt
      in (case first_instruction is ''FROM'' of
            None \<Rightarrow> [''Dockerfile must define a base image with FROM.'']
          | Some i \<Rightarrow>
              if contains '':latest'' (lower i) then [''Dockerfile base image must not use the latest tag.'']
              else []) @
         (if \<not> has_instruction is ''USER'' ''app''
          then [''Dockerfile must switch to the non-root app user.''] else []) @
         (if \<not> pip_no_cache txt then [''Dockerfile pip installs must use --no-cache-dir.''] else []) @
         (if \<not> has_exec_form_command is ''CMD'' then [''Dockerfile must use exec-form CMD.''] else []))"

definition dockerfile_main :: "string \<Rightarrow> string list \<times> int" where
  "dockerfile_main txt =
     (let errors = dockerfile_errors txt
      in if errors \<noteq> [] then (errors, 1) else ([''Dockerfile policy checks passed''], 0))"

subsection \<open>The Kubernetes manifests\<close>

fun truthy :: "json \<Rightarrow> bool" where
  "truthy JNull = False"
| "truthy (JBool b) = b"
| "truthy (JInt n) = (n \<noteq> 0)"
| "truthy (JFloat x) = (x \<noteq> 0)"
| "truthy (JStr s) = (s \<noteq> [])"
| "truthy (JList xs) = (xs \<noteq> [])"
| "truthy (JObj d) = (d \<noteq> [])"

definition get_truthy :: "(string \<times> json) list \<Rightarrow> string \<Rightarrow> bool" where
  "get_truthy d k = (case map_of d k of None \<Rightarrow> False | Some v \<Rightarrow> truthy v)"

definition REQUIRED_FIELDS :: "string list" where
  "REQUIRED_FIELDS = [''apiVersion'', ''kind'', ''metadata'']"

definition validate_document :: "string \<Rightarrow> int \<Rightarrow> json \<Rightarrow> string list" where
  "validate_document path index document =
     (let location = path @ '' document '' @ dec_digits index
      in case document of
           JObj d \<Rightarrow>
             map (\<lambda>field. location @ '': missing '' @ field) (filter (\<lambda>field. \<not> get_truthy d field) REQUIRED_FIELDS) @
             (case map_of d ''metadata'' of
                Some (JObj m) \<Rightarrow>
                  if \<not> get_truthy m ''name'' then [location @ '': missing metadata.name''] else []
              | _ \<Rightarrow> [location @ '': metadata must be a mapping''])
         | _ \<Rightarrow> [location @ '': expected a mapping''])"

fun validate_documents :: "string \<Rightarrow> int \<Rightarrow> json list \<Rightarrow> nat \<times> string list" where
  "validate_documents path index [] = (0, [])"
| "validate_documents path index (d # ds) =
     (case validate_documents path (index + 1) ds of
        (n, errors) \<Rightarrow>
          if d = JNull then (n, errors) else (Suc n, validate_document path index d @ errors))"

fun validate_manifests :: "(string \<times> (string + json list)) list \<Rightarrow> nat \<times> string list" where
  "validate_manifests [] = (0, [])"
| "validate_manifests ((path, Inl exc) # files) =
     (case validate_manifests files of
        (n, errors) \<Rightarrow> (n, (path @ '': invalid YAML: '' @ exc) # errors))"
| "validate_manifests ((path, Inr documents) # files) =
     (case validate_documents path 1 documents of
        (m, errors1) \<Rightarrow>
          (case validate_manifests files of (n, errors) \<Rightarrow> (m + n, errors1 @ errors)))"

definition k8s_main :: "(string \<times> (string + json list)) list \<Rightarrow> string list \<times> int" where
  "k8s_main files =
     (if files = [] then ([''No Kubernetes manifests found in deploy/k8s''], 1)
      else
        (case validate_manifests files of
           (n, errors0) \<Rightarrow>
             (let errors = errors0 @ (if n = 0 then [''No Kubernetes resources found in deploy/k8s''] else [])
              in if errors \<noteq> [] then (errors, 1)
                 else ([''Validated '' @ dec_digits (int n) @ '' Kubernetes resources in deploy/k8s''], 0))))"

subsection \<open>The token script\<close>

text \<open>\<open>expires_minutes\<close> is 60 and \<open>scopes\<close> empty when the options are not given.\<close>

definition demo_jwt_main ::
    "jwt_codec \<Rightarrow> Settings \<Rightarrow> string \<Rightarrow> string \<Rightarrow> string list option \<Rightarrow> int option \<Rightarrow> datetime \<Rightarrow> string" where
  "demo_jwt_main k settings tenant subject scope expires_minutes t =
     create_demo_jwt k settings tenant subject
       (case scope of None \<Rightarrow> [] | Some ss \<Rightarrow> ss)
       ((case expires_minutes of None \<Rightarrow> 60 | Some m \<Rightarrow> m) * 60000000) t"

subsection \<open>Texts that grow at the end\<close>

lemma starts_with_append: "starts_with p s \<Longrightarrow> starts_with p (s @ t)"
  by (auto simp: starts_with_def) (metis length_take min.absorb_iff2 min.cobounded1 take_all_iff linorder_le_cases)

lemma starts_with_long: "length p \<le> length s \<Longrightarrow> starts_with p (s @ t) = starts_with p s"
  by (simp add: starts_with_def)

lemma starts_with_length: "starts_with p s \<Longrightarrow> length p \<le> length s"
  by (metis starts_with_def length_take min.cobounded1)

lemma after_first_length: "after_first n s = Some r \<Longrightarrow> length n \<le> length s"
  by (induction s) (auto split: if_splits dest: starts_with_length)

lemma after_first_append: "after_first n s = Some r \<Longrightarrow> after_first n (s @ t) = Some (r @ t)"
proof (induction s)
  case Nil
  then show ?case by (cases t) (auto simp: starts_with_def split: if_splits)
next
  case (Cons c cs)
  have len: "length n \<le> length (c # cs)" using after_first_length [OF Cons.prems] .
  show ?case
  proof (cases "starts_with n (c # cs)")
    case True
    then have "starts_with n ((c # cs) @ t)" by (rule starts_with_append)
    moreover have "drop (length n) ((c # cs) @ t) = drop (length n) (c # cs) @ t"
      using len by (simp only: drop_append) simp
    ultimately show ?thesis using Cons.prems True by simp
  next
    case False
    moreover have "\<not> starts_with n ((c # cs) @ t)" using False starts_with_long [OF len] by simp
    ultimately show ?thesis using Cons by simp
  qed
qed

lemma contains_append: "contains n s \<Longrightarrow> contains n (s @ t)"
  using after_first_append by (fastforce simp: contains_def)

lemma matches_here_append:
  assumes "matches_here s"
  shows "matches_here (s @ t)"
proof -
  let ?d = "dropWhile is_space s"
  from assms obtain c cs rest where m: "starts_with ''RUN'' ?d" "drop 3 ?d = c # cs" "is_space c"
      "after_first ''pip install '' cs = Some rest" "contains ''--no-cache-dir'' rest"
    by (auto simp: matches_here_def Let_def split: list.splits option.splits)
  have len: "3 \<le> length ?d" using m(2) by (metis drop_all list.distinct(1) nat_le_linear)
  then obtain x where "x \<in> set s" "\<not> is_space x" by (metis dropWhile_eq_Nil_conv le_zero_eq list.size(3) zero_neq_numeral)
  then have d: "dropWhile is_space (s @ t) = ?d @ t" by (rule dropWhile_append1)
  have "drop 3 (?d @ t) = c # (cs @ t)" using m(2) len by simp
  with m d starts_with_append [OF m(1), of t] after_first_append [OF m(4), of t] contains_append [OF m(5), of t]
  show ?thesis by (simp add: matches_here_def Let_def)
qed

lemma line_starts_append: "line_starts (a @ b) = map (\<lambda>s. s @ b) (line_starts a) @ line_starts b"
  by (induction a) auto

lemma pip_no_cache_append: "pip_no_cache a \<Longrightarrow> pip_no_cache (a @ b)"
  by (auto simp: pip_no_cache_def line_starts_append list_ex_iff dest: matches_here_append)

lemma splitlines_Nil: "splitlines s = [] \<longleftrightarrow> s = []"
  by (cases s) (auto split: list.splits)

lemma linefeed_break [simp]: "is_linebreak (CHR 0x0A)"
  by (simp add: is_linebreak_def)

lemma drop_lf_append: "s \<noteq> [] \<Longrightarrow> drop_lf (s @ t) = drop_lf s @ t"
  by (cases s) (auto simp: drop_lf_def)

lemma drop_lf_last: "s \<noteq> [] \<Longrightarrow> last s = CHR 0x0A \<Longrightarrow> drop_lf s = [] \<or> last (drop_lf s) = CHR 0x0A"
  by (cases s) (auto simp: drop_lf_def split: if_splits)

lemma splitlines_append:
  "a = [] \<or> last a = CHR 0x0A \<Longrightarrow> splitlines (a @ b) = splitlines a @ splitlines b"
proof (induction a rule: splitlines.induct)
  case (2 c cs)
  show ?case
  proof (cases "is_linebreak c")
    case True
    then show ?thesis
      using 2 drop_lf_append [of cs b] drop_lf_last [of cs] by (cases "cs = []") auto
  next
    case False
    then have "cs \<noteq> []" using 2(3) by (auto split: if_splits)
    then have "splitlines (cs @ b) = splitlines cs @ splitlines b" "splitlines cs \<noteq> []"
      using 2 False by (auto simp: splitlines_Nil)
    with False show ?thesis by (auto split: list.split)
  qed
qed simp

text \<open>The instruction that is still open at the end of some lines.\<close>

fun open_instruction :: "string \<Rightarrow> string list \<Rightarrow> string" where
  "open_instruction current [] = current"
| "open_instruction current (raw_line # rest) =
     (let stripped = strip raw_line
      in if stripped = [] \<or> starts_with ''#'' stripped then open_instruction current rest
         else
           (let piece = strip (removesuffix_char (CHR 0x5C) stripped)
            in open_instruction
                 (if \<not> ends_with_char (CHR 0x5C) stripped then []
                  else if current \<noteq> [] then current @ '' '' @ piece else piece) rest))"

lemma instruction_lines_append:
  "open_instruction current ls = [] \<Longrightarrow>
     instruction_lines current (ls @ ms) = instruction_lines current ls @ instruction_lines [] ms"
  by (induction ls arbitrary: current) (auto simp: Let_def split: if_splits)

lemma first_instruction_append: "first_instruction is n = Some i \<Longrightarrow> first_instruction (is @ js) n = Some i"
  by (induction "is") (auto split: if_splits)

lemma dockerfile_main_ok:
  "snd (dockerfile_main txt) = 0 \<longleftrightarrow>
     (\<exists>i. first_instruction (instructions txt) ''FROM'' = Some i \<and> \<not> contains '':latest'' (lower i)) \<and>
     has_instruction (instructions txt) ''USER'' ''app'' \<and> pip_no_cache txt \<and>
     has_exec_form_command (instructions txt) ''CMD''"
  by (auto simp: dockerfile_main_def dockerfile_errors_def Let_def split: option.splits)

text \<open>The policy looks at the first matching instruction only: once a Dockerfile passes, whatever
  is appended to it passes too. Another base image with the latest tag, an installation that caches,
  a switch back to the root user or a second command in shell form after the accepted part are not
  noticed.\<close>

lemma dockerfile_policy_ignores_suffix:
  assumes "snd (dockerfile_main a) = 0" and "last a = CHR 0x0A" and "open_instruction [] (splitlines a) = []"
  shows "snd (dockerfile_main (a @ b)) = 0"
proof -
  have "instructions (a @ b) = instructions a @ instructions b"
    using assms(2,3) by (simp add: instructions_def splitlines_append instruction_lines_append)
  moreover from assms(1) obtain i where "first_instruction (instructions a) ''FROM'' = Some i"
      "\<not> contains '':latest'' (lower i)" "has_instruction (instructions a) ''USER'' ''app''" "pip_no_cache a"
      "has_exec_form_command (instructions a) ''CMD''"
    by (auto simp: dockerfile_main_ok)
  moreover from this(5) obtain j where "first_instruction (instructions a) ''CMD'' = Some j"
    by (auto simp: has_exec_form_command_def split: option.splits)
  ultimately show ?thesis
    using first_instruction_append pip_no_cache_append [of a b]
    by (fastforce simp: dockerfile_main_ok has_instruction_def has_exec_form_command_def)
qed

subsection \<open>Reading a Dockerfile\<close>

text \<open>Without line continuations the instructions are the stripped lines that are neither blank nor
  comments, in their order.\<close>

lemma instructions_of_plain_lines:
  assumes "\<forall>l \<in> set (splitlines txt). \<not> ends_with_char (CHR 0x5C) (strip l)"
  shows "instructions txt =
    filter (\<lambda>s. s \<noteq> [] \<and> \<not> starts_with ''#'' s) (map strip (splitlines txt))"
proof -
  have strip_strip: "strip (strip l) = strip l" for l
    by (simp add: strip_def)
  have "instruction_lines [] ls = filter (\<lambda>s. s \<noteq> [] \<and> \<not> starts_with ''#'' s) (map strip ls)"
    if "\<forall>l \<in> set ls. \<not> ends_with_char (CHR 0x5C) (strip l)" for ls
    using that by (induction ls) (auto simp: Let_def removesuffix_char_def strip_strip)
  with assms show ?thesis by (simp add: instructions_def)
qed

subsection \<open>Accepted manifests\<close>

definition resource_ok :: "json \<Rightarrow> bool" where
  "resource_ok document \<longleftrightarrow>
     (\<exists>d m. document = JObj d \<and> get_truthy d ''apiVersion'' \<and> get_truthy d ''kind'' \<and>
        map_of d ''metadata'' = Some (JObj m) \<and> get_truthy m ''name'')"

lemma validate_document_ok: "validate_document path index document = [] \<longleftrightarrow> resource_ok document"
proof (cases document)
  case (JObj d)
  have "get_truthy m ''name'' \<Longrightarrow> m \<noteq> []" for m by (auto simp: get_truthy_def)
  then show ?thesis
    by (auto simp: JObj validate_document_def resource_ok_def REQUIRED_FIELDS_def Let_def get_truthy_def [of d]
        split: option.splits json.splits)
qed (auto simp: validate_document_def resource_ok_def Let_def)

lemma validate_documents_ok:
  "fst (validate_documents path index ds) = length (filter (\<lambda>d. d \<noteq> JNull) ds) \<and>
   (snd (validate_documents path index ds) = [] \<longleftrightarrow> (\<forall>d \<in> set ds. d = JNull \<or> resource_ok d))"
  by (induction ds arbitrary: index) (auto simp: split_beta validate_document_ok)

lemma validate_manifests_ok:
  "(snd (validate_manifests files) = [] \<longleftrightarrow>
      (\<forall>(path, r) \<in> set files. case r of Inl _ \<Rightarrow> False | Inr ds \<Rightarrow> \<forall>d \<in> set ds. d = JNull \<or> resource_ok d)) \<and>
   (fst (validate_manifests files) = 0 \<longleftrightarrow>
      (\<forall>(path, r) \<in> set files. case r of Inl _ \<Rightarrow> True | Inr ds \<Rightarrow> \<forall>d \<in> set ds. d = JNull))"
proof (induction files)
  case (Cons f files)
  obtain path r where f: "f = (path, r)" by (cases f)
  show ?case
  proof (cases r)
    case (Inr documents)
    then show ?thesis
      using Cons.IH validate_documents_ok [of path 1 documents] by (simp add: f split_beta filter_empty_conv)
  qed (use Cons.IH in \<open>simp add: f split_beta\<close>)
qed simp

text \<open>The manifest check accepts exactly the directories in which every file parses, every document
  that is not empty is a mapping with an API version, a kind and a metadata mapping with a name, and
  there is at least one such document.\<close>

lemma k8s_manifests_accepted:
  "snd (k8s_main files) = 0 \<longleftrightarrow>
     (\<forall>(path, r) \<in> set files. \<exists>ds. r = Inr ds \<and> (\<forall>d \<in> set ds. d = JNull \<or> resource_ok d)) \<and>
     (\<exists>path ds d. (path, Inr ds) \<in> set files \<and> d \<in> set ds \<and> d \<noteq> JNull)"
proof -
  have "(\<exists>path ds d. (path, Inr ds) \<in> set files \<and> d \<in> set ds \<and> d \<noteq> JNull) \<longleftrightarrow>
      fst (validate_manifests files) \<noteq> 0"
    using validate_manifests_ok [of files] by (fastforce split: sum.splits)
  moreover have "(\<forall>(path, r) \<in> set files. \<exists>ds. r = Inr ds \<and> (\<forall>d \<in> set ds. d = JNull \<or> resource_ok d)) \<longleftrightarrow>
      snd (validate_manifests files) = []"
    using validate_manifests_ok [of files] by (fastforce split: sum.splits)
  ultimately show ?thesis
    by (auto simp: k8s_main_def split_beta Let_def)
qed

end
