(* ===== verification/Spec2Isabelle.thy ===== *)
theory Spec2Isabelle
  imports Startup Combined ClaimLocks MigrationEnv Scripts
begin

text \<open>
  A verification library for the LLM evaluation service: a FastAPI application that accepts
  evaluation requests, stores them as jobs, scores them in the background and serves their status
  to the tenant they belong to.

  \<^bold>\<open>The program.\<close> A request passes the middlewares of \<^verbatim>\<open>app/main.py\<close>, authentication
  (\<^verbatim>\<open>app/core/auth.py\<close>) and a rate limit (\<^verbatim>\<open>app/core/rate_limit.py\<close>) before a route handler
  (\<^verbatim>\<open>app/api/routes.py\<close>) calls the job service (\<^verbatim>\<open>app/services/job_service.py\<close>). The service works
  on a repository (\<^verbatim>\<open>app/storage\<close>, in memory or on PostgreSQL), an in-memory queue
  (\<^verbatim>\<open>app/services/queue.py\<close>), an evaluator with timeout and retry (\<^verbatim>\<open>app/services/evaluator.py\<close>,
  \<^verbatim>\<open>app/core/resilience.py\<close>) and the recorders for audit events, metrics and spans. Jobs are processed
  either by the queue's consumer task in the same process or by polling workers
  (\<^verbatim>\<open>app/services/worker.py\<close>), which run in processes of their own (\<^verbatim>\<open>app/worker.py\<close>). The schema
  comes from migrations (\<^verbatim>\<open>migrations/versions\<close>) or from the mapped class; scripts check the
  deployment files.

  \<^bold>\<open>The theories.\<close>
  \<^item> \<open>Prelude\<close>: identifiers, time, dictionaries as association lists, stable sorting.
  \<^item> \<open>PyString\<close>, \<open>Base64\<close>: the string methods and the URL-safe base64 routines the source calls.
  \<^item> \<open>Config\<close>, \<open>Errors\<close>, \<open>Models\<close>: settings, the error hierarchy with its handlers, and the
    pydantic models. A model is a record, its constraints a check.
  \<^item> \<open>Scoring\<close>: the mock scoring of \<^verbatim>\<open>app/domain/evaluation.py\<close>.
  \<^item> \<open>Repository\<close>: the repository protocol as a record of operations; the life cycle of a job as a
    step relation \<open>job_step\<close> with a measure; the abstract repository \<open>spec_cmd\<close>; the contract as the
    locale \<open>job_repository\<close>, in which it is shown that every sequence of calls refines the abstract
    repository, keeps the store well formed, never loses or reopens a job, and changes each job a
    bounded number of times.
  \<^item> \<open>InMemory\<close>: \<^verbatim>\<open>app/storage/in_memory.py\<close>, interpreted in the contract.
  \<^item> \<open>Postgres\<close>, \<open>PostgresLaws\<close>: \<^verbatim>\<open>app/storage/postgres.py\<close> on a parameter for the database session;
    the locale \<open>sql_session\<close> states what is relied on, and a sublocale shows the contract. Rows and
    jobs correspond up to the order of JSON keys. A table in memory interprets \<open>sql_session\<close>.
  \<^item> \<open>ClaimLocks\<close>: claims of several sessions at once, with row locks, as a step relation.
  \<^item> \<open>Metrics\<close>, \<open>Runtime\<close>: the metrics registry and its text format; the \<open>world\<close> on which the
    service works (repository, queue, audit events, metrics, spans, log calls, clocks).
  \<^item> \<open>Observability\<close>: the log formatter, the set-up of logging and tracing.
  \<^item> \<open>JobService\<close>: submit, reads, \<open>process\<close>, \<open>process_claimed\<close>; the locale \<open>job_service\<close> extends
    the contract with what the service does on any repository that meets it.
  \<^item> \<open>Evaluator\<close>: \<open>with_timeout\<close>, \<open>retry_async\<close>, \<open>Evaluator.score\<close>.
  \<^item> \<open>JobQueue\<close>: the queue's consumer as a state machine, cut where it can be suspended.
  \<^item> \<open>Worker\<close>: the polling loop; the locale \<open>evaluation_worker\<close> extends \<open>job_service\<close>.
  \<^item> \<open>RateLimit\<close>, \<open>Auth\<close>, \<open>Routes\<close>: the limiter and the client key, tokens, the route handlers; the
    locale \<open>evaluation_api\<close> extends \<open>job_service\<close>.
  \<^item> \<open>Application\<close>: the middlewares, \<open>create_app\<close>, the lifespan, the worker process and the repository
    factory; the locale \<open>starlette\<close> states what is relied on of the web framework.
  \<^item> \<open>Endpoints\<close>: the route tables of \<^verbatim>\<open>app/api\<close>, the arguments out of query, path and body, the JSON
    of every response, and the router with all handlers; the locale \<open>fastapi_laws\<close> states what is
    relied on of FastAPI's routing.
  \<^item> \<open>HttpService\<close>: a request through all layers; interprets the worker and the API on the in-memory
    repository and shows what any HTTP request can do to the store, which statuses it can get, and
    that only the details route tells what was asked and answered.
  \<^item> \<open>Deployment\<close>: sublocales put the worker and the API on PostgreSQL; an accepted submission is
    scored by a worker process and served to its tenant.
  \<^item> \<open>Combined\<close>: the combined role; a frame rule for \<open>process\<close>, and an accepted submission on its way
    through the queue's consumer to its tenant.
  \<^item> \<open>Startup\<close>: how the worker and the API process start from their environment, \<open>main\<close> of the worker,
    and \<^verbatim>\<open>scripts/export_openapi.py\<close>.
  \<^item> \<open>Schema\<close>: the two migrations and the mapped table on a model of DDL statements.
  \<^item> \<open>MigrationEnv\<close>: \<^verbatim>\<open>migrations/env.py\<close>, online and offline, on these migrations; the locale
    \<open>alembic_laws\<close> states which revisions Alembic applies.
  \<^item> \<open>Scripts\<close>: the Dockerfile policy, the manifest check and the token script.

  This theory states the properties of submitting, processing and reading jobs on the in-memory
  repository.

  \<^bold>\<open>How the model stands for the code.\<close> An operation is a function on the state it works on that
  returns its outcome in \<open>exn + 'a\<close> and the new state. Code between two \<open>await\<close>s that can suspend is
  atomic, as it is in a single event loop; the in-memory repository's methods never suspend. A
  PostgreSQL method is one transaction on rows it has locked, hence atomic; only the claim's two
  statements are taken apart, in \<open>ClaimLocks\<close>. What happens while a task is suspended is an input:
  \<open>sleep\<close> and the scorer are arbitrary functions on the world, and a theorem that needs them not to
  touch a job or the repository says so (\<open>considerate\<close>, \<open>undisturbed\<close>, \<open>quiet_sleep\<close>,
  \<open>quiet_scorer\<close>). The wall clock, the performance counter and the monotonic clock are streams of
  readings, and new identifiers are arguments. Strings are Latin-1. JSON text, HMAC, the database
  session, the web framework, Alembic, OpenTelemetry and the reading of numbers from environment
  variables are parameters. \<open>get_settings\<close> reads the environment; the handlers, which call it anew,
  take the settings as an argument.

  \<^bold>\<open>Bounds.\<close> The worker's loop runs over the values its stop event will show: a list of \<open>n\<close> times
  \<open>False\<close> is \<open>n\<close> passes, and \<open>worker_main_outcome\<close> shows that as many passes as there are open
  jobs are enough. The consumer needs two advances per waiting job (\<open>queue_run_drains\<close>) and at
  most three after a stop. \<open>retry_async\<close> and the recovery loop recurse over their own lists.

  \<^bold>\<open>What is not modelled.\<close> The order in which FastAPI validates, the text of its validation errors,
  pydantic's conversions between JSON types, preflight requests, the schema that FastAPI derives,
  connection handling of the database driver and the exporters of OpenTelemetry belong to libraries.
  The registration of signal handlers is an input (the moment of the signal). Floats are rationals,
  and \<open>OverflowError\<close> of dates far out of range is left out. The modules' imports and loggers have
  no counterpart.
\<close>

subsection \<open>Submitting a job\<close>

definition demo_world :: "InMemoryJobRepository \<Rightarrow> InMemoryJobRepository world" where
  "demo_world s = world_init s demo_clock (\<lambda>n. of_nat n / 10)"

lemma demo_world_simps [simp]: "repository (demo_world s) = s" "wall (demo_world s) = demo_clock"
  "events_of i (demo_world s) = []" "queue_items (queue (demo_world s)) = []"
  by (simp_all add: demo_world_def world_init_def events_of_def queue_init_def)

text \<open>Submitting leaks nothing of what is evaluated: two submissions that agree on tenant and
  project leave the same spans, audit events, log calls and metrics behind, whatever their
  questions, answers and rubrics are.\<close>

lemma submit_observability_safe:
  assumes "rq_tenant_id req1 = rq_tenant_id req2" and "rq_project_id req1 = rq_project_id req2"
  shows "spans (snd (submit mem_ops i req1 w)) = spans (snd (submit mem_ops i req2 w)) \<and>
    audit_events (snd (submit mem_ops i req1 w)) = audit_events (snd (submit mem_ops i req2 w)) \<and>
    logs (snd (submit mem_ops i req1 w)) = logs (snd (submit mem_ops i req2 w)) \<and>
    metrics (snd (submit mem_ops i req1 w)) = metrics (snd (submit mem_ops i req2 w))"
  using assms
  by (simp add: submit_def new_EvaluationJob_def now_eq Let_def mem_create_def traced_span_def
      enqueue_def queue_put_def with_metrics_def audit_record_def emit_log_def qsize_def)

subsection \<open>Processing a job from the in-memory queue\<close>

text \<open>C16. A queued job that is processed while its evaluation finishes in time succeeds: the run
  returns, the stored job carries exactly the mock score of its own request, it keeps everything
  else but its status and update time, and its audit trail grows by the running and the succeeded
  event, in that order. Other tasks may do anything meanwhile except touch this job.\<close>

theorem process_scores_job:
  assumes "mem_inv (repository w)" and "mem_view (repository w) i = Some j" and "status j = QUEUED"
    and "considerate mem_view mem_inv i sleep" and "\<And>w. fst (sleep (1 / 100) w) < timeout"
  shows "\<exists>w' x t0 t. process mem_ops (evaluator_score sleep timeout) i w = (Inr (), w') \<and>
      mem_inv (repository w') \<and> score_mock_response (request j) = Inr x \<and>
      mem_view (repository w') i = Some (succeeded x (claimed_at j) t (started t0 j)) \<and>
      events_of i w' = events_of i w @ [''evaluation.job_running'', ''evaluation.job_succeeded'']"
proof -
  have "fst (evaluator_score sleep timeout (request j) w) = Inr (mock_result (request j))" for w
    using evaluator_score_in_time [of sleep timeout "request j" w] assms(5) by (simp add: mock_result)
  from memory.process_succeeds [OF assms(1-3) evaluator_undisturbed [OF assms(4)] this mock_result_valid]
    any_text_simps(1)
  show ?thesis using mock_result by blast
qed

lemma demo_two_jobs_view [simp]: "mem_view demo_two_jobs 1 = Some (demo_job 1 20)"
  by (simp add: demo_two_jobs_def view_simps)

theorem process_scores_job_witness:
  "\<exists>w' j. process mem_ops (evaluator_score prompt_sleep 5) 1 (demo_world demo_two_jobs) = (Inr (), w') \<and>
     mem_view (repository w') 1 = Some j \<and> status j = SUCCEEDED"
proof -
  from process_scores_job [of "demo_world demo_two_jobs" 1 "demo_job 1 20" prompt_sleep 5]
  obtain w' x t0 t where
    "process mem_ops (evaluator_score prompt_sleep 5) 1 (demo_world demo_two_jobs) = (Inr (), w')"
    "mem_view (repository w') 1 =
       Some (succeeded x (claimed_at (demo_job 1 20)) t (started t0 (demo_job 1 20)))"
    by (auto simp: demo_job_def prompt_sleep_def)
  then show ?thesis by (simp add: succeeded_def)
qed

text \<open>C17. When both evaluation attempts time out, processing raises \<open>TimeoutError\<close> again, the stored job
  is failed with the public message and no result, and its audit trail ends with the failed event:
  a failing evaluation never leaves the job running.\<close>

theorem process_records_failure:
  assumes "mem_inv (repository w)" and "mem_view (repository w) i = Some j" and "status j = QUEUED"
    and "considerate mem_view mem_inv i sleep" and "\<And>w. timeout \<le> fst (sleep (1 / 100) w)"
  shows "\<exists>w' t0 t. process mem_ops (evaluator_score sleep timeout) i w = (Inl TimeoutError, w') \<and>
      mem_inv (repository w') \<and>
      mem_view (repository w') i = Some (failed ''Evaluation failed.'' (claimed_at j) t (started t0 j)) \<and>
      events_of i w' = events_of i w @ [''evaluation.job_running'', ''evaluation.job_failed'']"
proof -
  have "fst (evaluator_score sleep timeout (request j) w) = Inl TimeoutError" for w
    using evaluator_score_late [of timeout sleep "request j" w] assms(5) by simp
  from memory.process_evaluator_fails [OF assms(1-3) evaluator_undisturbed [OF assms(4)] this]
  show ?thesis .
qed

theorem process_records_failure_witness:
  "\<exists>w' j. process mem_ops (evaluator_score prompt_sleep 0) 1 (demo_world demo_two_jobs) =
       (Inl TimeoutError, w') \<and>
     mem_view (repository w') 1 = Some j \<and> status j = FAILED \<and> error_message j = Some ''Evaluation failed.''"
proof -
  from process_records_failure [of "demo_world demo_two_jobs" 1 "demo_job 1 20" prompt_sleep 0]
  obtain w' t0 t where
    "process mem_ops (evaluator_score prompt_sleep 0) 1 (demo_world demo_two_jobs) = (Inl TimeoutError, w')"
    "mem_view (repository w') 1 =
       Some (failed ''Evaluation failed.'' (claimed_at (demo_job 1 20)) t (started t0 (demo_job 1 20)))"
    by (auto simp: demo_job_def prompt_sleep_def)
  then show ?thesis by (simp add: failed_def)
qed

text \<open>C36. Processing a job that is not queued raises the state-transition error before anything is
  scored, but the error handler still runs: a job that has succeeded or failed is left alone, while
  a job that is running, for instance because a worker has claimed it, is marked failed under that
  worker's hands.\<close>

theorem process_fails_running_job:
  assumes "mem_inv (repository w)" and "mem_view (repository w) i = Some j" and "status j \<noteq> QUEUED"
  shows "\<exists>w' t. process mem_ops sc i w = (Inl raise_InvalidStateTransition, w') \<and> mem_inv (repository w') \<and>
      mem_view (repository w') =
        (if status j = RUNNING
         then (mem_view (repository w))(i \<mapsto> failed ''Evaluation failed.'' (claimed_at j) t j)
         else mem_view (repository w))"
  using memory.process_not_queued [OF assms, of sc] assms(3)
  by (cases "status j") (auto simp: final_def)

theorem process_fails_running_job_witness:
  "\<exists>w' j. process mem_ops (evaluator_score prompt_sleep 5) 1 (demo_world demo_claimed) =
       (Inl raise_InvalidStateTransition, w') \<and>
     mem_view (repository w') 1 = Some j \<and> status j = FAILED"
proof -
  have "mem_inv demo_claimed" and v: "mem_view demo_claimed 1 = Some (claimed 5 5 (demo_job 1 1))"
    by (simp_all add: demo_claimed_def mem_inv_put view_simps)
  with process_fails_running_job [of "demo_world demo_claimed" 1 "claimed 5 5 (demo_job 1 1)"
      "evaluator_score prompt_sleep 5"] show ?thesis
    by (fastforce simp: failed_def)
qed

text \<open>Processing an identifier that is not stored raises not-found and changes nothing at all.\<close>

lemma process_unknown_job:
  assumes "mem_inv (repository w)" and "mem_view (repository w) i = None"
  shows "process mem_ops sc i w = (Inl raise_NotFound, w)"
  using assms by (rule memory.process_missing)

subsection \<open>The worker\<close>

text \<open>One failing evaluation ends the worker: when some job is due and the evaluator raises, the
  first pass marks one claimable job failed and the exception ends the worker's loop, whatever the
  stop event would have said; every other job that was claimable after the recovery stays queued,
  with nobody left to claim it.\<close>

lemma worker_ends_on_failure:
  assumes "mem_inv (repository w)" and "quiet_scorer sc" and "\<And>req w. fst (sc req w) = Inl e"
    and "cutoff = wall w 0 - timedelta_seconds (stale_job_seconds k)"
    and "mem_view (repository w) i0 = Some j0" and "due cutoff j0"
  shows "\<exists>w' tm j t t1 t2.
      worker_loop mem_ops sc sleep k (False # flags) w = (WorkerCrashed e, w') \<and>
      claimable j \<and> requeued cutoff tm (mem_view (repository w)) (job_id j) = Some j \<and>
      mem_view (repository w') = (requeued cutoff tm (mem_view (repository w)))
        (job_id j \<mapsto> failed ''Evaluation failed.'' (Some t1) t (claimed t1 t2 j))"
  by (rule memory.loop_crashes [OF assms])

subsection \<open>The API\<close>

text \<open>C18. Tenant isolation: with a validated token, whatever tenant the query names, the three reading
  routes return nothing but jobs of the token's tenant, a listing has at most as many jobs as was
  asked for and only of the project asked for, and none of them changes the service's state.\<close>

theorem reads_isolate_tenants:
  assumes "mem_inv (repository (app_world st))" and "0 \<le> limit"
  shows "(\<forall>r st1. get_evaluation mem_ops settings i rq tenant (Some ctx) st = (Inr r, st1) \<longrightarrow>
        jr_tenant_id r = ctx_tenant_id ctx \<and> app_world st1 = app_world st) \<and>
    (\<forall>r st1. get_evaluation_details mem_ops settings i rq tenant (Some ctx) st = (Inr r, st1) \<longrightarrow>
        dr_tenant_id r = ctx_tenant_id ctx \<and> app_world st1 = app_world st) \<and>
    (\<forall>r st1. list_evaluations mem_ops settings rq tenant project limit (Some ctx) st = (Inr r, st1) \<longrightarrow>
        int (length (lr_jobs r)) \<le> limit \<and> app_world st1 = app_world st \<and>
        (\<forall>s \<in> set (lr_jobs r). sm_tenant_id s = ctx_tenant_id ctx \<and>
           (case project of None \<Rightarrow> True | Some p \<Rightarrow> sm_project_id s = p)))"
proof (intro conjI allI impI)
  fix r st1
  assume "get_evaluation mem_ops settings i rq tenant (Some ctx) st = (Inr r, st1)"
  from memory_api.get_evaluation_Inr [OF assms(1) this]
  show "jr_tenant_id r = ctx_tenant_id ctx" "app_world st1 = app_world st"
    by (auto simp: tenant_from_context_or_request_def to_response_def split: if_splits)
next
  fix r st1
  assume "get_evaluation_details mem_ops settings i rq tenant (Some ctx) st = (Inr r, st1)"
  from memory_api.get_details_Inr [OF assms(1) this]
  show "dr_tenant_id r = ctx_tenant_id ctx" "app_world st1 = app_world st"
    by (auto simp: tenant_from_context_or_request_def to_detail_response_def split: if_splits)
next
  fix r st1
  assume "list_evaluations mem_ops settings rq tenant project limit (Some ctx) st = (Inr r, st1)"
  from memory_api.list_evaluations_Inr [OF assms this]
  have l: "app_world st1 = app_world st" "int (length (lr_jobs r)) \<le> limit"
    "\<forall>s \<in> set (lr_jobs r). \<exists>j. to_summary j = Inr s \<and> tenant_id j = ctx_tenant_id ctx \<and> project_matches project j"
    by (auto simp: tenant_from_context_or_request_def)
  then show "int (length (lr_jobs r)) \<le> limit" "app_world st1 = app_world st" by simp_all
  show "\<forall>s \<in> set (lr_jobs r). sm_tenant_id s = ctx_tenant_id ctx \<and>
      (case project of None \<Rightarrow> True | Some p \<Rightarrow> sm_project_id s = p)"
  proof
    fix s assume "s \<in> set (lr_jobs r)"
    with l(3) obtain j where "to_summary j = Inr s" "tenant_id j = ctx_tenant_id ctx" "project_matches project j"
      by blast
    then show "sm_tenant_id s = ctx_tenant_id ctx \<and>
        (case project of None \<Rightarrow> True | Some p \<Rightarrow> sm_project_id s = p)"
      by (auto simp: to_summary_def project_matches_def split: if_splits option.splits)
  qed
qed

definition demo_state :: "InMemoryJobRepository \<Rightarrow> InMemoryJobRepository app_state" where
  "demo_state s = \<lparr>app_world = demo_world s, rate_limiter = limiter_init, monotonic = (\<lambda>n. of_nat n)\<rparr>"

definition demo_rq :: route_request where
  "demo_rq = \<lparr>rr_client = demo_client ''10.0.0.1'', rr_request_id = ''req-1'', rr_authorization = None\<rparr>"

definition demo_ctx :: "string \<Rightarrow> RequestContext" where
  "demo_ctx t = \<lparr>ctx_tenant_id = t, ctx_subject = ''alice'', ctx_scopes = []\<rparr>"

lemma demo_state_world [simp]: "app_world (demo_state s) = demo_world s"
  by (simp add: demo_state_def)

theorem reads_isolate_tenants_witness:
  "(\<exists>r. fst (get_evaluation mem_ops default_settings 1 demo_rq (Some ''other'') (Some (demo_ctx ''acme''))
      (demo_state demo_two_jobs)) = Inr r \<and> jr_tenant_id r = ''acme'')"
proof -
  let ?g = "get_evaluation mem_ops default_settings 1 demo_rq (Some ''other'') (Some (demo_ctx ''acme''))
      (demo_state demo_two_jobs)"
  have "\<not> isl (fst ?g)" by code_simp
  then obtain r st1 where "?g = (Inr r, st1)" by (cases ?g; cases "fst ?g") auto
  with reads_isolate_tenants [of "demo_state demo_two_jobs" 1 default_settings 1 demo_rq "Some ''other''"
      "demo_ctx ''acme''" None] show ?thesis
    by (auto simp: demo_ctx_def)
qed

text \<open>C19. A job of another tenant looks exactly like a job that does not exist: the two reading routes
  for one job give the same answer and leave the same state behind in both cases, so identifiers of
  foreign jobs cannot be probed.\<close>

theorem foreign_job_is_not_found:
  assumes "mem_inv (repository (app_world st))"
    and "mem_view (repository (app_world st)) i = Some j" and "tenant_id j \<noteq> ctx_tenant_id ctx"
    and "mem_view (repository (app_world st)) missing = None"
  shows "get_evaluation mem_ops settings i rq tenant (Some ctx) st =
      get_evaluation mem_ops settings missing rq tenant (Some ctx) st \<and>
    get_evaluation_details mem_ops settings i rq tenant (Some ctx) st =
      get_evaluation_details mem_ops settings missing rq tenant (Some ctx) st"
proof -
  have same: "service_get_for_tenant mem_ops x resolved (app_world st1) = Inl raise_NotFound"
    if "admit settings rq name lim (Some ctx) tenant st = (Inr resolved, st1)" "x = i \<or> x = missing"
    for name lim resolved st1 x
  proof -
    have "resolved = ctx_tenant_id ctx"
      using admit_resolved [OF that(1)] by (simp add: tenant_from_context_or_request_def)
    with that(2) assms admit_world [OF that(1)] show ?thesis
      by (intro memory_api.get_for_tenant_hidden) auto
  qed
  show ?thesis
    by (auto simp: get_evaluation_def get_evaluation_details_def same split: prod.split sum.split)
qed

theorem foreign_job_is_not_found_witness:
  "get_evaluation mem_ops default_settings 1 demo_rq None (Some (demo_ctx ''evil'')) (demo_state demo_two_jobs) =
   get_evaluation mem_ops default_settings 9 demo_rq None (Some (demo_ctx ''evil'')) (demo_state demo_two_jobs)"
proof -
  have "mem_view demo_two_jobs 9 = None" by (simp add: demo_two_jobs_def view_simps)
  then show ?thesis
    using foreign_job_is_not_found [of "demo_state demo_two_jobs" 1 "demo_job 1 20" "demo_ctx ''evil''" 9
        default_settings demo_rq None]
    by (simp add: demo_ctx_def demo_job_def)
qed

text \<open>What was submitted can be read back: after a successful submission, asking for the returned
  identifier as the same tenant yields the queued job without a result or an error, with the
  request's project and rubric, unless the read is turned away by the rate limit.\<close>

lemma submit_then_get:
  assumes "mem_inv (repository (app_world st))" and "mem_view (repository (app_world st)) new_id = None"
    and "submit_evaluation mem_ops settings new_id payload rq ctx st = (Inr r, st1)"
    and "tenant_from_context_or_request ctx (sub_tenant_id payload) = Inr t"
    and "tenant_from_context_or_request ctx tenant = Inr t"
  shows "sr_job_id r = new_id \<and> sr_status r = QUEUED \<and>
    (case fst (get_evaluation mem_ops settings new_id rq tenant ctx st1) of
       Inl e \<Rightarrow> e = App RateLimitExceededError None
     | Inr resp \<Rightarrow> jr_job_id resp = new_id \<and> jr_tenant_id resp = t \<and> jr_status resp = QUEUED \<and>
         jr_project_id resp = sub_project_id payload \<and> rs_rubric (jr_request resp) = sub_rubric payload \<and>
         jr_result resp = None)"
proof -
  from assms(3) obtain st0 req job w where
    a: "admit settings rq ''submit_evaluation'' (rate_limit_submit_per_minute settings) ctx
        (sub_tenant_id payload) st = (Inr t, st0)"
    and req: "to_evaluation_request payload t = Inr req"
    and sub: "submit mem_ops new_id req (app_world st0) = (Inr job, w)"
    and r: "r = \<lparr>sr_job_id = job_id job, sr_status = status job, sr_request_id = rr_request_id rq\<rparr>"
    and st1: "st1 = st0\<lparr>app_world := w\<rparr>"
    using admit_resolved assms(4) by (fastforce simp: submit_evaluation_def split: prod.splits sum.splits)
  have w0: "app_world st0 = app_world st" by (rule admit_world [OF a])
  from memory.submit_law [of "app_world st" req new_id] assms(1,2) to_evaluation_request_Inr(1) [OF req] sub
  have job: "fresh_job job" "job_id job = new_id" "request job = req" and inv: "mem_inv (repository w)"
    and v: "mem_view (repository w) new_id = Some job"
    by (auto simp: w0)
  have t: "rq_tenant_id req = t" "rq_project_id req = sub_project_id payload" "rq_rubric req = sub_rubric payload"
    using req by (auto simp: to_evaluation_request_def make_EvaluationRequest_Inr)
  have j: "status job = QUEUED" "tenant_id job = t" "project_id job = sub_project_id payload"
    "result job = None" "wf_job job"
    using job t by (auto simp: fresh_job_def wf_job_def)
  have resp: "to_response job (rr_request_id rq) = Inr x \<Longrightarrow> jr_job_id x = new_id \<and> jr_tenant_id x = t \<and>
      jr_status x = QUEUED \<and> jr_project_id x = sub_project_id payload \<and>
      rs_rubric (jr_request x) = sub_rubric payload \<and> jr_result x = None" for x
    using j job t by (auto simp: to_response_def split: if_splits)
  have "case fst (get_evaluation mem_ops settings new_id rq tenant ctx st1) of
      Inl e \<Rightarrow> e = App RateLimitExceededError None
    | Inr x \<Rightarrow> to_response job (rr_request_id rq) = Inr x"
    using inv v assms(5) j by (intro memory_api.get_evaluation_found) (simp_all add: st1 valid_result_opt_def)
  with resp job j r show ?thesis by (auto split: sum.splits)
qed

definition demo_submission :: SubmitEvaluationRequest where
  "demo_submission = \<lparr>sub_tenant_id = None, sub_project_id = ''docs'', sub_question = ''What is caching?'',
     sub_answer = ''Caching keeps results.'', sub_rubric = None\<rparr>"

text \<open>A submission that the rate limit turns away costs nothing and does nothing: when the counter
  of the client's key is used up, the answer is the rate-limit error (429) and the service's state,
  with the repository, the queue, the audit trail and the metrics, is as before.\<close>

lemma rate_limited_submit_has_no_effect:
  assumes "rate_limit_enabled settings"
    and "tenant_from_context_or_request ctx (sub_tenant_id payload) = Inr t"
    and "map_of (counters (rate_limiter st)) (client_key (rr_client rq) ''submit_evaluation'' (Some t)) = Some c"
    and "monotonic st 0 - window_start c < of_int (window_seconds (rate_limiter st))"
    and "rate_limit_submit_per_minute settings \<le> wc_count c"
  shows "\<exists>e st1. submit_evaluation mem_ops settings new_id payload rq ctx st = (Inl e, st1) \<and>
    resp_status_code (handle_exception rid e) = 429 \<and> app_world st1 = app_world st \<and>
    rate_limiter st1 = rate_limiter st"
  using assms check_rejects [OF assms(3-5)]
  by (simp add: submit_evaluation_def admit_def check_rate_limit_def Let_def error_response_def)



end
